(* ===== verification/Prelude.thy ===== *)
theory Prelude
  imports Main "HOL-Library.Word" "HOL-Library.Multiset"
begin

text \<open>
  Shared vocabulary of the development: the machine types, the exceptions that
  settle a \<^verbatim>\<open>folly::Future\<close>, the decimal printing and parsing functions of the
  C++ standard library that the sources call, and generic lemmas on byte lists and
  64-bit words. A \<^verbatim>\<open>folly::IOBufQueue\<close> is represented by the list of the bytes it
  holds.
\<close>

section \<open>Types\<close>

type_synonym byte = "8 word"
type_synonym u16 = "16 word"
type_synonym u32 = "32 word"
type_synonym u64 = "64 word"
type_synonym bytes = "byte list"

text \<open>
  The exceptions the sources raise or store in a future. A \<^verbatim>\<open>std::system_error\<close>
  carries the value of its error code; \<open>undefined_index\<close> stands for reading a vector past
  its end, which the language leaves undefined.
\<close>

datatype cpp_exn =
    system_error int
  | out_of_range
  | invalid_argument
  | runtime_error
  | underflow_error
  | division_by_zero
  | assertion_failed
  | length_error
  | PromiseAlreadySatisfied
  | undefined_index
  | MissingParameterException string
  | BadParameterException string string

text \<open>The value a future settles with: an exception or a result.\<close>

type_synonym 'a fut = "cpp_exn + 'a"

text \<open>The POSIX error numbers of Linux that the sources name.\<close>

abbreviation EPERM :: int where "EPERM \<equiv> 1"
abbreviation ENOENT :: int where "ENOENT \<equiv> 2"
abbreviation EIO :: int where "EIO \<equiv> 5"
abbreviation EAGAIN :: int where "EAGAIN \<equiv> 11"
abbreviation EACCES :: int where "EACCES \<equiv> 13"
abbreviation EINVAL :: int where "EINVAL \<equiv> 22"
abbreviation EDOM :: int where "EDOM \<equiv> 33"
abbreviation ENOSYS :: int where "ENOSYS \<equiv> 38"
abbreviation EPROTO :: int where "EPROTO \<equiv> 71"
abbreviation ENXIO :: int where "ENXIO \<equiv> 6"
abbreviation EBADF :: int where "EBADF \<equiv> 9"
abbreviation ENOMEM :: int where "ENOMEM \<equiv> 12"
abbreviation EBUSY :: int where "EBUSY \<equiv> 16"
abbreviation EEXIST :: int where "EEXIST \<equiv> 17"
abbreviation ENOTDIR :: int where "ENOTDIR \<equiv> 20"
abbreviation EISDIR :: int where "EISDIR \<equiv> 21"
abbreviation EFBIG :: int where "EFBIG \<equiv> 27"
abbreviation ERANGE :: int where "ERANGE \<equiv> 34"
abbreviation ENODATA :: int where "ENODATA \<equiv> 61"
abbreviation EBADMSG :: int where "EBADMSG \<equiv> 74"
abbreviation EOPNOTSUPP :: int where "EOPNOTSUPP \<equiv> 95"
abbreviation ENETUNREACH :: int where "ENETUNREACH \<equiv> 101"
abbreviation ECONNABORTED :: int where "ECONNABORTED \<equiv> 103"
abbreviation ETIMEDOUT :: int where "ETIMEDOUT \<equiv> 110"
abbreviation EHOSTUNREACH :: int where "EHOSTUNREACH \<equiv> 113"
abbreviation ECANCELED :: int where "ECANCELED \<equiv> 125"
abbreviation EOWNERDEAD :: int where "EOWNERDEAD \<equiv> 130"

named_theorems word_nat \<open>moving 64-bit arithmetic that cannot overflow to nat\<close>
named_theorems byte_simps \<open>the byte of a list at a position, zero past its end\<close>

section \<open>Bytes at positions\<close>

definition byte_at :: "bytes \<Rightarrow> nat \<Rightarrow> byte" where
  "byte_at xs i = (if i < length xs then xs ! i else 0)"

section \<open>Decimal strings\<close>

text \<open>\<^verbatim>\<open>std::to_string\<close> and stream output of an unsigned value.\<close>

definition digit_char :: "nat \<Rightarrow> char" where
  "digit_char d = char_of (48 + d)"

fun to_dec :: "nat \<Rightarrow> string" where
  "to_dec n = (if n < 10 then [digit_char n] else to_dec (n div 10) @ [digit_char (n mod 10)])"

declare to_dec.simps [simp del]

text \<open>Stream output with \<^verbatim>\<open>std::setfill('0') << std::setw(w)\<close>: padded on the left.\<close>

definition setw0 :: "nat \<Rightarrow> string \<Rightarrow> string" where
  "setw0 w s = replicate (w - length s) (CHR ''0'') @ s"

definition is_digit :: "char \<Rightarrow> bool" where
  "is_digit c \<longleftrightarrow> 48 \<le> (of_char c :: nat) \<and> (of_char c :: nat) \<le> 57"

definition digit_val :: "char \<Rightarrow> nat" where
  "digit_val c = of_char c - 48"

definition dec_val :: "string \<Rightarrow> nat" where
  "dec_val s = foldl (\<lambda>a c. 10 * a + digit_val c) 0 s"

definition is_space :: "char \<Rightarrow> bool" where
  "is_space c \<longleftrightarrow> c = CHR '' '' \<or> 9 \<le> (of_char c :: nat) \<and> (of_char c :: nat) \<le> 13"

text \<open>
  \<^verbatim>\<open>std::stoull\<close>: leading white space and one sign are skipped, the digits that follow
  are read, and the rest is ignored. No digits raise \<open>invalid_argument\<close>, a value
  beyond 64 bits raises \<open>out_of_range\<close>, and a minus sign negates modulo \<open>2^64\<close>.
\<close>

definition stoull :: "string \<Rightarrow> u64 fut" where
  "stoull s =
     (let t = dropWhile is_space s;
          neg = (t \<noteq> [] \<and> hd t = CHR ''-'');
          u = (if t \<noteq> [] \<and> (hd t = CHR ''-'' \<or> hd t = CHR ''+'') then tl t else t);
          ds = takeWhile is_digit u
      in if ds = [] then Inl invalid_argument
         else if dec_val ds \<ge> 2 ^ 64 then Inl out_of_range
         else Inr (if neg then - of_nat (dec_val ds) else of_nat (dec_val ds)))"

text \<open>\<^verbatim>\<open>std::stoi\<close> and \<^verbatim>\<open>std::stol\<close>: as \<open>stoull\<close>, with the range of a signed number of \<open>w + 1\<close> bits.\<close>

definition sto_signed :: "nat \<Rightarrow> string \<Rightarrow> int fut" where
  "sto_signed w s =
     (let t = dropWhile is_space s;
          neg = (t \<noteq> [] \<and> hd t = CHR ''-'');
          u = (if t \<noteq> [] \<and> (hd t = CHR ''-'' \<or> hd t = CHR ''+'') then tl t else t);
          ds = takeWhile is_digit u;
          v = (if neg then - int (dec_val ds) else int (dec_val ds))
      in if ds = [] then Inl invalid_argument
         else if v < - (2 ^ w) \<or> v \<ge> 2 ^ w then Inl out_of_range
         else Inr v)"

section \<open>Splitting and searching\<close>

text \<open>\<^verbatim>\<open>folly::split\<close> at a character, with the pieces that are empty.\<close>

fun split_at :: "char \<Rightarrow> string \<Rightarrow> string \<Rightarrow> string list" where
  "split_at c acc [] = [acc]"
| "split_at c acc (x # xs) = (if x = c then acc # split_at c [] xs else split_at c (acc @ [x]) xs)"

lemma split_at_plain: "c \<notin> set xs \<Longrightarrow> split_at c acc xs = [acc @ xs]"
  by (induction xs arbitrary: acc) auto

lemma split_at_append: "c \<notin> set xs \<Longrightarrow> split_at c acc (xs @ c # ys) = (acc @ xs) # split_at c [] ys"
  by (induction xs arbitrary: acc) auto

text \<open>Whether a list occurs in another, and at its front.\<close>

fun contains :: "'a list \<Rightarrow> 'a list \<Rightarrow> bool" where
  "contains p [] = (p = [])"
| "contains p (x # xs) = (take (length p) (x # xs) = p \<or> contains p xs)"

definition starts_with :: "'a list \<Rightarrow> 'a list \<Rightarrow> bool" where
  "starts_with p xs = (take (length p) xs = p)"

section \<open>Executors\<close>

text \<open>
  An executor runs every task posted to it once, in an order of its own
  (\<^verbatim>\<open>folly::Executor\<close>).
\<close>

definition runs_each_once :: "('t list \<Rightarrow> 't list) \<Rightarrow> bool" where
  "runs_each_once order \<longleftrightarrow> (\<forall>ts. mset (order ts) = mset ts)"

lemma runs_each_once_set: "runs_each_once order \<Longrightarrow> set (order ts) = set ts"
  by (metis runs_each_once_def mset_eq_setD)

lemma runs_each_once_distinct:
  "runs_each_once order \<Longrightarrow> distinct (map f (order ts)) \<longleftrightarrow> distinct (map f ts)"
  by (metis runs_each_once_def mset_eq_imp_distinct_iff mset_map)

section \<open>Lemmas on bytes\<close>

lemma byte_at_Nil [simp, byte_simps]: "byte_at [] i = 0"
  by (simp add: byte_at_def)

lemma byte_at_append [byte_simps]:
  "byte_at (xs @ ys) i = (if i < length xs then byte_at xs i else byte_at ys (i - length xs))"
  by (auto simp: byte_at_def nth_append)

lemma byte_at_replicate [simp, byte_simps]: "byte_at (replicate n 0) i = 0"
  by (simp add: byte_at_def)

lemma byte_at_take [byte_simps]: "byte_at (take n xs) i = (if i < n then byte_at xs i else 0)"
  by (auto simp: byte_at_def)

lemma byte_at_drop [byte_simps]: "byte_at (drop n xs) i = byte_at xs (n + i)"
  by (auto simp: byte_at_def)

lemma byte_at_beyond: "length xs \<le> i \<Longrightarrow> byte_at xs i = 0"
  by (simp add: byte_at_def)

lemma bytes_eqI:
  assumes "length xs = length ys" and "\<And>i. i < length xs \<Longrightarrow> byte_at xs i = byte_at ys i"
  shows "xs = ys"
  using assms by (intro nth_equalityI) (auto simp: byte_at_def)

section \<open>Lemmas on decimal strings\<close>

lemma of_char_digit [simp]: "d < 10 \<Longrightarrow> (of_char (digit_char d) :: nat) = 48 + d"
  by (simp add: digit_char_def)

lemma is_digit_digit_char [simp]: "d < 10 \<Longrightarrow> is_digit (digit_char d)"
  by (simp add: is_digit_def)

lemma digit_val_digit_char [simp]: "d < 10 \<Longrightarrow> digit_val (digit_char d) = d"
  by (simp add: digit_val_def)

lemma digit_chars:
  "digit_char 0 = CHR ''0''" "digit_char (Suc 0) = CHR ''1''" "digit_char 2 = CHR ''2''"
  "digit_char 3 = CHR ''3''" "digit_char 4 = CHR ''4''" "digit_char 5 = CHR ''5''"
  "digit_char 6 = CHR ''6''" "digit_char 7 = CHR ''7''" "digit_char 8 = CHR ''8''" "digit_char 9 = CHR ''9''"
  by (simp_all add: digit_char_def char_of_def bit_0)

lemma to_dec_nonempty [simp]: "to_dec n \<noteq> []"
  by (subst to_dec.simps) simp

lemma to_dec_digits: "c \<in> set (to_dec n) \<Longrightarrow> is_digit c"
proof (induction n rule: to_dec.induct)
  case (1 n)
  show ?case
  proof (cases "n < 10")
    case True
    with "1.prems" show ?thesis by (simp add: to_dec.simps [of n])
  next
    case False
    with "1" show ?thesis by (auto simp: to_dec.simps [of n])
  qed
qed

lemma dec_val_snoc [simp]: "dec_val (s @ [c]) = 10 * dec_val s + digit_val c"
  by (simp add: dec_val_def)

lemma dec_val_to_dec [simp]: "dec_val (to_dec n) = n"
proof (induction n rule: to_dec.induct)
  case (1 n)
  then show ?case by (simp add: to_dec.simps [of n]) (simp add: dec_val_def)
qed

lemma dec_val_zeros [simp]: "dec_val (replicate k (CHR ''0'') @ s) = dec_val s"
  by (induction k) (simp_all add: dec_val_def digit_val_def)

lemma dec_val_setw0 [simp]: "dec_val (setw0 w s) = dec_val s"
  by (simp add: setw0_def)

lemma setw0_digits: "c \<in> set (setw0 w (to_dec n)) \<Longrightarrow> is_digit c"
proof -
  assume "c \<in> set (setw0 w (to_dec n))"
  then have "c = CHR ''0'' \<or> c \<in> set (to_dec n)" by (auto simp: setw0_def)
  moreover have "is_digit (CHR ''0'')" by (simp add: is_digit_def)
  ultimately show ?thesis by (auto dest: to_dec_digits)
qed

lemma setw0_nonempty [simp]: "setw0 w (to_dec n) \<noteq> []"
  by (simp add: setw0_def)

lemma takeWhile_all: "(\<And>c. c \<in> set s \<Longrightarrow> P c) \<Longrightarrow> takeWhile P s = s"
  by (simp add: takeWhile_eq_all_conv)

lemma digit_not_space: "is_digit c \<Longrightarrow> \<not> is_space c"
  by (auto simp: is_digit_def is_space_def)

lemma digit_not_sign: "is_digit c \<Longrightarrow> c \<noteq> CHR ''-'' \<and> c \<noteq> CHR ''+'' \<and> c \<noteq> CHR ''/''"
  by (auto simp: is_digit_def)

text \<open>Reading back a printed value, whatever the padding.\<close>

lemma stoull_digits:
  assumes "s \<noteq> []" and "\<And>c. c \<in> set s \<Longrightarrow> is_digit c" and "dec_val s < 2 ^ 64"
  shows "stoull s = Inr (of_nat (dec_val s))"
proof -
  obtain c t where s: "s = c # t" using assms(1) by (cases s) auto
  have c: "is_digit c" using assms(2) s by simp
  have tw: "takeWhile is_digit t = t" using assms(2) s by (intro takeWhile_all) simp
  show ?thesis
    using c assms(3) digit_not_space [OF c] digit_not_sign [OF c]
    by (simp add: stoull_def s Let_def tw del: takeWhile_eq_all_conv)
qed

lemma sto_signed_digits: "sto_signed w (to_dec n) = (if n < 2 ^ w then Inr (int n) else Inl out_of_range)"
proof -
  have d: "c \<in> set (to_dec n) \<Longrightarrow> is_digit c" for c by (rule to_dec_digits)
  obtain x xs where x: "to_dec n = x # xs" by (cases "to_dec n") simp_all
  then have dx: "is_digit x" using d [of x] by simp
  have t: "takeWhile is_digit (to_dec n) = to_dec n" using d by (simp add: takeWhile_eq_all_conv)
  have s: "dropWhile is_space (to_dec n) = to_dec n" using digit_not_space [OF dx] by (simp add: x)
  have "int n < 2 ^ w \<longleftrightarrow> n < 2 ^ w" by (metis of_nat_less_iff of_nat_numeral of_nat_power)
  moreover have "\<not> int n < - (2 ^ w)" by (smt (verit) of_nat_0_le_iff zero_le_power)
  ultimately show ?thesis using digit_not_sign [OF dx]
    by (simp add: sto_signed_def s t Let_def x [symmetric] del: of_nat_less_iff) (auto simp: x)
qed

lemma sto_signed_to_dec: "n < 2 ^ w \<Longrightarrow> sto_signed w (to_dec n) = Inr (int n)"
  by (simp add: sto_signed_digits)

section \<open>Lemmas on 64-bit words\<close>

lemma unat_add_small [word_nat]:
  "unat a + unat b < 2 ^ LENGTH('n) \<Longrightarrow> unat (a + b) = unat a + unat (b :: 'n::len word)"
  by (simp add: unat_word_ariths)

lemma unat_sub_le [word_nat]: "b \<le> a \<Longrightarrow> unat (a - b) = unat a - unat (b :: 'n::len word)"
  by (rule unat_sub)

lemma unat_min [word_nat]: "unat (min a b) = min (unat a) (unat (b :: 'n::len word))"
  by (simp add: min_def word_le_nat_alt)

lemma unat_max [word_nat]: "unat (max a b) = max (unat a) (unat (b :: 'n::len word))"
  by (simp add: max_def word_le_nat_alt)

lemma unat_u64_bound [simp]: "unat (a :: u64) < 18446744073709551616"
  using unsigned_less [of a] by simp

lemma unat_of_nat_u64: "n < 2 ^ 64 \<Longrightarrow> unat (of_nat n :: u64) = n"
  by (simp add: unat_of_nat)

text \<open>A 64-bit word with its sign bit clear reads the same signed.\<close>

lemma sint_nat:
  assumes "unat (w :: u64) < 2 ^ 63"
  shows "sint w = int (unat w)"
proof -
  have u: "uint w = int (unat w)" by (rule uint_nat)
  have "int (unat w) < int (2 ^ 63)" using assms by (simp only: of_nat_less_iff)
  then have "uint w < 2 ^ 63" using u by (simp only: of_nat_power of_nat_numeral)
  moreover have "- (2 ^ 63) \<le> uint w" by (rule order_trans [OF _ uint_ge_0]) simp
  ultimately have "signed_take_bit 63 (uint w) = uint w" by (intro signed_take_bit_int_eq_self) assumption+
  then have "sint w = uint w" by (simp add: sint_uint)
  then show ?thesis by (simp only: u)
qed

lemma in_set_take_upt: "x \<in> set (take n [0..<m]) \<Longrightarrow> x < n"
  by (auto simp: in_set_conv_nth simp del: upt_Suc)

lemma upt_split: "i \<le> j \<Longrightarrow> j \<le> k \<Longrightarrow> [i..<k] = [i..<j] @ [j..<k]"
  using upt_add_eq_append [of i j "k - j"] by simp

lemma unat_pred: "x \<noteq> (0 :: u64) \<Longrightarrow> unat (x - 1) = unat x - 1"
  by (subst unat_sub_le) (simp_all add: word_le_nat_alt unat_gt_0 Suc_le_eq)

lemma unat_of_nat_below:
  assumes "k < unat (w :: u64)"
  shows "unat (of_nat k :: u64) = k"
proof (rule unat_of_nat_u64)
  have "(2 :: nat) ^ 64 = 18446744073709551616" by simp
  then show "k < 2 ^ 64" using less_trans [OF assms unat_u64_bound] by (simp only:)
qed

end
