(* ===== verification/KvKeys.thy ===== *)
theory KvKeys
  imports Prelude
begin

text \<open>
  \<^verbatim>\<open>src/src/keyValueHelper.h\<close>: the keys under which the blocks of a file are stored, the
  interface \<^verbatim>\<open>KeyValueHelper\<close> every object storage implements (a record of its virtual
  operations over the state of the storage), and the laws the adapter relies on, as
  locales.
\<close>

section \<open>Keys\<close>

definition MAX_DELETE_OBJECTS :: nat where "MAX_DELETE_OBJECTS = 1000"
definition MAX_OBJECT_ID :: u64 where "MAX_OBJECT_ID = 999999"
definition MAX_OBJECT_ID_DIGITS :: nat where "MAX_OBJECT_ID_DIGITS = 6"

text \<open>
  \<^verbatim>\<open>prefix.substr(prefix.find_first_not_of("/")) + "/"\<close>. With nothing but delimiters the
  search gives \<open>npos\<close> and \<open>substr\<close> throws.
\<close>

definition adjustPrefix :: "string \<Rightarrow> string fut" where
  "adjustPrefix prefix =
     (case dropWhile (\<lambda>c. c = CHR ''/'') prefix of
        [] \<Rightarrow> Inl out_of_range
      | s \<Rightarrow> Inr (s @ ''/''))"

definition getKey :: "string \<Rightarrow> u64 \<Rightarrow> string fut" where
  "getKey prefix objectId =
     (case adjustPrefix prefix of
        Inl e \<Rightarrow> Inl e
      | Inr p \<Rightarrow> Inr (p @ setw0 MAX_OBJECT_ID_DIGITS (to_dec (unat (MAX_OBJECT_ID - objectId)))))"

definition getObjectId :: "string \<Rightarrow> u64 fut" where
  "getObjectId key =
     (case stoull (rev (takeWhile (\<lambda>c. c \<noteq> CHR ''/'') (rev key))) of
        Inl e \<Rightarrow> Inl e
      | Inr v \<Rightarrow> Inr (MAX_OBJECT_ID - v))"

definition off_to_string :: "int \<Rightarrow> string" where
  "off_to_string i = (if i < 0 then CHR ''-'' # to_dec (nat (- i)) else to_dec (nat i))"

definition rangeToString :: "int \<Rightarrow> int \<Rightarrow> string" where
  "rangeToString lower upper = ''bytes='' @ off_to_string lower @ ''-'' @ off_to_string upper"

text \<open>The bytes of an object, none when it is absent.\<close>

definition content :: "(string \<Rightarrow> bytes option) \<Rightarrow> string \<Rightarrow> bytes" where
  "content objects k = (case objects k of None \<Rightarrow> [] | Some b \<Rightarrow> b)"

section \<open>The interface of an object storage\<close>

text \<open>
  The pure virtual operations of \<^verbatim>\<open>KeyValueHelper\<close>, over the state \<open>'s\<close> of the storage
  they act on: each returns the value or exception of the call and the next state.
\<close>

record 's kv_helper =
  hasRandomAccess :: bool
  getObject :: "string \<Rightarrow> u64 \<Rightarrow> u64 \<Rightarrow> 's \<Rightarrow> bytes fut \<times> 's"
  putObject :: "string \<Rightarrow> bytes \<Rightarrow> u64 \<Rightarrow> 's \<Rightarrow> nat fut \<times> 's"
  deleteObjects :: "string list \<Rightarrow> 's \<Rightarrow> unit fut \<times> 's"

text \<open>
  What every storage promises while it answers: a read returns the requested range of
  the object, an absent object (or a range past its end) is empty or reported as
  \<open>ENOENT\<close>, and one batch of deletions removes exactly the named objects. Ranges end
  within \<open>2^63\<close>, the positions an \<^verbatim>\<open>off_t\<close> can name.
  \<open>obj s k\<close> is the content of object \<open>k\<close> in state \<open>s\<close>, \<open>ready\<close> the states in which
  the storage answers.
\<close>

locale object_store =
  fixes h :: "'s kv_helper"
    and obj :: "'s \<Rightarrow> string \<Rightarrow> bytes option"
    and ready :: "'s \<Rightarrow> bool"
  assumes get_law: "ready s \<Longrightarrow> 0 < n \<Longrightarrow> unat off + unat n \<le> 2 ^ 63 \<Longrightarrow> \<exists>r s'. getObject h k off n s = (r, s') \<and> ready s' \<and> obj s' = obj s \<and>
      (case obj s k of
         None \<Rightarrow> r = Inl (system_error ENOENT) \<or> r = Inr []
       | Some b \<Rightarrow> r = Inr (take (unat n) (drop (unat off) b)) \<or>
           length b \<le> unat off \<and> r = Inl (system_error ENOENT))"
    and delete_law: "ready s \<Longrightarrow> length ks \<le> MAX_DELETE_OBJECTS \<Longrightarrow>
      \<exists>s'. deleteObjects h ks s = (Inr (), s') \<and> ready s' \<and>
        obj s' = (\<lambda>k. if k \<in> set ks then None else obj s k)"

text \<open>A storage whose objects can only be replaced as a whole (S3, Swift).\<close>

locale replacing_store = object_store +
  assumes no_random_access: "\<not> hasRandomAccess h"
    and put_replaces: "ready s \<Longrightarrow>
      \<exists>s'. putObject h k b 0 s = (Inr (length b), s') \<and> ready s' \<and> obj s' = (obj s)(k \<mapsto> b)"

text \<open>
  A storage that writes in place: the bytes outside the written range stay, and a gap
  before it reads as zeros (Ceph RADOS).
\<close>

locale in_place_store = object_store +
  assumes random_access: "hasRandomAccess h"
    and put_overlays: "ready s \<Longrightarrow>
      \<exists>s' c. putObject h k b off s = (Inr (length b), s') \<and> ready s' \<and> obj s' = (obj s)(k \<mapsto> c) \<and>
        length c = max (length (content (obj s) k)) (unat off + length b) \<and>
        (\<forall>i. byte_at c i =
          (if unat off \<le> i \<and> i < unat off + length b then byte_at b (i - unat off)
           else byte_at (content (obj s) k) i))"

section \<open>Lemmas on keys\<close>

lemma adjustPrefix_ends: "adjustPrefix p = Inr q \<Longrightarrow> \<exists>r. q = r @ ''/''"
  by (auto simp: adjustPrefix_def split: list.splits)

lemma getKey_shape:
  assumes "getKey p i = Inr k"
  obtains q where "adjustPrefix p = Inr (q @ ''/'')"
    and "k = q @ ''/'' @ setw0 MAX_OBJECT_ID_DIGITS (to_dec (unat (MAX_OBJECT_ID - i)))"
  using assms by (auto simp: getKey_def split: sum.splits dest: adjustPrefix_ends)

lemma after_last_slash:
  assumes "\<And>c. c \<in> set d \<Longrightarrow> c \<noteq> CHR ''/''"
  shows "rev (takeWhile (\<lambda>c. c \<noteq> CHR ''/'') (rev (q @ CHR ''/'' # d))) = d"
proof -
  have "takeWhile (\<lambda>c. c \<noteq> CHR ''/'') (rev d @ CHR ''/'' # rev q) = rev d"
    using assms by (simp add: takeWhile_append)
  then show ?thesis by simp
qed

lemma getObjectId_getKey:
  assumes "getKey p i = Inr k"
  shows "getObjectId k = Inr i"
proof -
  let ?n = "unat (MAX_OBJECT_ID - i)" and ?w = MAX_OBJECT_ID_DIGITS
  obtain q where k: "k = q @ CHR ''/'' # setw0 ?w (to_dec ?n)"
    using assms by (auto elim: getKey_shape)
  have digits: "c \<in> set (setw0 ?w (to_dec ?n)) \<Longrightarrow> is_digit c" for c
    by (rule setw0_digits)
  have suffix: "rev (takeWhile (\<lambda>c. c \<noteq> CHR ''/'') (rev k)) = setw0 ?w (to_dec ?n)"
    unfolding k using digits digit_not_sign by (intro after_last_slash) blast
  have "stoull (setw0 ?w (to_dec ?n)) = Inr (of_nat ?n)"
    using stoull_digits [of "setw0 ?w (to_dec ?n)", OF _ digits] by simp
  then show ?thesis by (simp add: getObjectId_def suffix)
qed

lemma getKey_inj: "getKey p i = Inr k \<Longrightarrow> getKey p j = Inr k \<Longrightarrow> i = j"
  by (drule getObjectId_getKey)+ simp

lemma getKey_total: "getKey p i = Inr k \<Longrightarrow> \<exists>k'. getKey p j = Inr k'"
  by (auto simp: getKey_def split: sum.splits)

lemma getKey_fails_iff: "(\<exists>e. getKey p i = Inl e) \<longleftrightarrow> (\<forall>c \<in> set p. c = CHR ''/'')"
proof -
  have "(\<exists>e. getKey p i = Inl e) \<longleftrightarrow> dropWhile (\<lambda>c. c = CHR ''/'') p = []"
    by (cases "dropWhile (\<lambda>c. c = CHR ''/'') p") (simp_all only: getKey_def adjustPrefix_def list.case sum.case, auto)
  then show ?thesis by (simp only: dropWhile_eq_Nil_conv)
qed

section \<open>Evaluating keys\<close>

lemmas key_eval = getKey_def adjustPrefix_def MAX_OBJECT_ID_def MAX_OBJECT_ID_DIGITS_def setw0_def to_dec.simps digit_chars

section \<open>Reading ranges\<close>

text \<open>The bounds of a range, as a service reads them from its text.\<close>

definition parseRange :: "string \<Rightarrow> nat \<times> nat" where
  "parseRange rng =
     (let r = drop 6 rng;
          lower = takeWhile (\<lambda>c. c \<noteq> CHR ''-'') r
      in (dec_val lower, dec_val (drop (Suc (length lower)) r)))"

lemma parseRange_rangeToString: "parseRange (rangeToString (int lo) (int hi)) = (lo, hi)"
proof -
  have "takeWhile (\<lambda>c. c \<noteq> CHR ''-'') (to_dec lo @ CHR ''-'' # to_dec hi) = to_dec lo"
    using to_dec_digits digit_not_sign by (subst takeWhile_append2) auto
  then show ?thesis by (simp add: parseRange_def rangeToString_def off_to_string_def)
qed

end
