(* ===== verification/KvAdapter.thy ===== *)
theory KvAdapter
  imports KvKeys
begin

text \<open>
  \<^verbatim>\<open>src/src/keyValueAdapter.cc\<close>: files on an object storage. A file is cut into blocks of
  \<open>m_blockSize\<close> bytes, each an object of its own. The helper-wide locks on keys are a
  set of the keys locked. The executor the block operations are posted to is the
  parameter \<open>order\<close>: it gives the sequence in which the posted tasks run.
\<close>

section \<open>Block arithmetic\<close>

definition getBlockId :: "u64 \<Rightarrow> u64 \<Rightarrow> u64" where
  "getBlockId offset blockSize = offset div blockSize"

definition getBlockOffset :: "u64 \<Rightarrow> u64 \<Rightarrow> u64" where
  "getBlockOffset offset blockSize = offset - getBlockId offset blockSize * blockSize"

text \<open>
  The loop of \<^verbatim>\<open>write\<close> and \<^verbatim>\<open>readBlocks\<close> over the blocks a range of \<open>sz\<close> bytes touches:
  for each its id, the offset in the block, the offset in the buffer and the length.
\<close>

record chunk =
  c_blockId :: u64
  c_blockOffset :: u64
  c_bufOffset :: u64
  c_blockSize :: u64

partial_function (option) blockLoop :: "u64 \<Rightarrow> u64 \<Rightarrow> u64 \<Rightarrow> u64 \<Rightarrow> u64 \<Rightarrow> chunk list option" where
  "blockLoop m_blockSize blockId blockOffset bufOffset sz =
     (if bufOffset < sz then
        (let blockSize = min (m_blockSize - blockOffset) (sz - bufOffset) in
         Option.bind (blockLoop m_blockSize (blockId + 1) 0 (bufOffset + blockSize) sz)
           (\<lambda>cs. Some (\<lparr>c_blockId = blockId, c_blockOffset = blockOffset,
                        c_bufOffset = bufOffset, c_blockSize = blockSize\<rparr> # cs)))
      else Some [])"

declare blockLoop.simps [code]

text \<open>The loops of \<^verbatim>\<open>unlink\<close> and \<^verbatim>\<open>truncate\<close> over the ids up to and including \<open>lastId\<close>.\<close>

partial_function (option) objectIdLoop :: "u64 \<Rightarrow> u64 \<Rightarrow> u64 list option" where
  "objectIdLoop objectId lastId =
     (if objectId \<le> lastId
      then Option.bind (objectIdLoop (objectId + 1) lastId) (\<lambda>ids. Some (objectId # ids))
      else Some [])"

declare objectIdLoop.simps [code]

section \<open>State\<close>

record 's kv_state =
  store :: 's
  m_locks :: "string set"

record 's kv_handle =
  m_fileId :: string
  m_helper :: "'s kv_helper"
  m_blockSize :: u64

definition lock :: "string \<Rightarrow> 's kv_state \<Rightarrow> 's kv_state" where
  "lock k st = st\<lparr>m_locks := insert k (m_locks st)\<rparr>"

definition unlock :: "string \<Rightarrow> 's kv_state \<Rightarrow> 's kv_state" where
  "unlock k st = st\<lparr>m_locks := m_locks st - {k}\<rparr>"

section \<open>Single blocks\<close>

definition readBlock_object ::
  "'s kv_helper \<Rightarrow> string \<Rightarrow> u64 \<Rightarrow> u64 \<Rightarrow> 's kv_state \<Rightarrow> bytes fut \<times> 's kv_state" where
  "readBlock_object helper key offset sz st =
     (case getObject helper key offset sz (store st) of
        (r, s') \<Rightarrow>
          (if r = Inl (system_error ENOENT) then Inr [] else r, st\<lparr>store := s'\<rparr>))"

definition putObject_state ::
  "'s kv_helper \<Rightarrow> string \<Rightarrow> bytes \<Rightarrow> u64 \<Rightarrow> 's kv_state \<Rightarrow> nat fut \<times> 's kv_state" where
  "putObject_state helper key buf offset st =
     (case putObject helper key buf offset (store st) of (r, s') \<Rightarrow> (r, st\<lparr>store := s'\<rparr>))"

definition fillToSize :: "bytes \<Rightarrow> u64 \<Rightarrow> bytes" where
  "fillToSize buf sz =
     (if length buf < unat sz then buf @ replicate (unat sz - length buf) 0 else buf)"

definition readBlock ::
  "'s kv_handle \<Rightarrow> u64 \<Rightarrow> u64 \<Rightarrow> u64 \<Rightarrow> 's kv_state \<Rightarrow> bytes fut \<times> 's kv_state" where
  "readBlock fh blockId blockOffset sz st =
     (case getKey (m_fileId fh) blockId of
        Inl e \<Rightarrow> (Inl e, st)
      | Inr key \<Rightarrow>
          (case readBlock_object (m_helper fh) key blockOffset sz (lock key st) of
             (r, st') \<Rightarrow> (r, unlock key st')))"

text \<open>The new content of a block that is not written whole, on a storage without random access.\<close>

definition mergeBlock :: "bytes \<Rightarrow> bytes \<Rightarrow> u64 \<Rightarrow> bytes" where
  "mergeBlock fetchedBuf buf blockOffset =
     (let filledBuf0 =
            (if blockOffset > 0
             then fillToSize
                    (if length fetchedBuf \<ge> unat blockOffset then take (unat blockOffset) fetchedBuf
                     else fetchedBuf) blockOffset
             else []);
          filledBuf = filledBuf0 @ buf
      in if length filledBuf < length fetchedBuf
         then filledBuf @ drop (length filledBuf) fetchedBuf
         else filledBuf)"

definition writeBlock ::
  "'s kv_handle \<Rightarrow> bytes \<Rightarrow> u64 \<Rightarrow> u64 \<Rightarrow> 's kv_state \<Rightarrow> unit fut \<times> 's kv_state" where
  "writeBlock fh buf blockId blockOffset st =
     (case getKey (m_fileId fh) blockId of
        Inl e \<Rightarrow> (Inl e, st)
      | Inr key \<Rightarrow>
          (let st1 = lock key st;
               (r, st2) =
                 (if length buf \<noteq> unat (m_blockSize fh) then
                    (if hasRandomAccess (m_helper fh)
                     then putObject_state (m_helper fh) key buf blockOffset st1
                     else (case readBlock_object (m_helper fh) key 0 (m_blockSize fh) st1 of
                             (Inl e, st') \<Rightarrow> (Inl e, st')
                           | (Inr fetchedBuf, st') \<Rightarrow>
                               putObject_state (m_helper fh) key
                                 (mergeBlock fetchedBuf buf blockOffset) 0 st'))
                  else putObject_state (m_helper fh) key buf 0 st1)
           in (case r of Inl e \<Rightarrow> Inl e | Inr _ \<Rightarrow> Inr (), unlock key st2)))"

section \<open>Running the tasks of one call\<close>

text \<open>
  Every posted task runs, in the order given; \<^verbatim>\<open>folly::collect\<close> then fails with the
  first failure to complete, or gives the values in the order of the futures.
\<close>

fun runTasks :: "('t \<Rightarrow> 's \<Rightarrow> 'r fut \<times> 's) \<Rightarrow> 't list \<Rightarrow> 's \<Rightarrow> ('t \<times> 'r fut) list \<times> 's" where
  "runTasks f [] s = ([], s)"
| "runTasks f (t # ts) s =
     (case f t s of (r, s1) \<Rightarrow> (case runTasks f ts s1 of (rs, s2) \<Rightarrow> ((t, r) # rs, s2)))"

fun firstFailure :: "('t \<times> 'r fut) list \<Rightarrow> cpp_exn option" where
  "firstFailure [] = None"
| "firstFailure ((t, Inl e) # rs) = Some e"
| "firstFailure ((t, Inr v) # rs) = firstFailure rs"

definition collect :: "'t list \<Rightarrow> ('t \<times> 'r fut) list \<Rightarrow> 'r list fut" where
  "collect ts rs =
     (case firstFailure rs of
        Some e \<Rightarrow> Inl e
      | None \<Rightarrow> Inr (map (\<lambda>t. projr (the (map_of rs t))) ts))"

section \<open>Operations of a file handle\<close>

definition chunks :: "u64 \<Rightarrow> u64 \<Rightarrow> u64 \<Rightarrow> chunk list option" where
  "chunks blockSize offset sz =
     blockLoop blockSize (getBlockId offset blockSize) (getBlockOffset offset blockSize) 0 sz"

definition chunkData :: "bytes \<Rightarrow> chunk \<Rightarrow> bytes" where
  "chunkData buf c = take (unat (c_blockSize c)) (drop (unat (c_bufOffset c)) buf)"

text \<open>
  \<open>None\<close> is a loop that does not end; a block sz of zero traps in the division of
  \<^verbatim>\<open>getBlockId\<close>.
\<close>

definition write_kv ::
  "(chunk list \<Rightarrow> chunk list) \<Rightarrow> 's kv_handle \<Rightarrow> u64 \<Rightarrow> bytes \<Rightarrow> 's kv_state \<Rightarrow>
   (nat fut \<times> 's kv_state) option" where
  "write_kv order fh offset buf st =
     (if buf = [] then Some (Inr 0, st)
      else if m_blockSize fh = 0 then Some (Inl division_by_zero, st)
      else Option.bind (chunks (m_blockSize fh) offset (of_nat (length buf)))
        (\<lambda>cs. case runTasks (\<lambda>c. writeBlock fh (chunkData buf c) (c_blockId c) (c_blockOffset c))
                     (order cs) st of
           (rs, st') \<Rightarrow>
             Some (case collect cs rs of Inl e \<Rightarrow> Inl e | Inr _ \<Rightarrow> Inr (length buf), st')))"

definition readBlocks ::
  "(chunk list \<Rightarrow> chunk list) \<Rightarrow> 's kv_handle \<Rightarrow> u64 \<Rightarrow> u64 \<Rightarrow> 's kv_state \<Rightarrow>
   (bytes fut \<times> 's kv_state) option" where
  "readBlocks order fh offset requestedSize st =
     (if requestedSize = 0 then Some (Inr [], st)
      else if m_blockSize fh = 0 then Some (Inl division_by_zero, st)
      else Option.bind (chunks (m_blockSize fh) offset requestedSize)
        (\<lambda>cs. case runTasks (\<lambda>c s. case readBlock fh (c_blockId c) (c_blockOffset c) (c_blockSize c) s of
                       (r, s') \<Rightarrow> (map_sum id (\<lambda>b. fillToSize b (c_blockSize c)) r, s'))
                     (order cs) st of
           (rs, st') \<Rightarrow> Some (map_sum id concat (collect cs rs), st')))"

section \<open>Operations of the adapter\<close>

fun getKeys :: "string \<Rightarrow> u64 list \<Rightarrow> string list fut" where
  "getKeys fileId [] = Inr []"
| "getKeys fileId (i # is) =
     (case getKey fileId i of
        Inl e \<Rightarrow> Inl e
      | Inr k \<Rightarrow> (case getKeys fileId is of Inl e \<Rightarrow> Inl e | Inr ks \<Rightarrow> Inr (k # ks)))"

definition deleteObjects_state ::
  "'s kv_helper \<Rightarrow> string list \<Rightarrow> 's kv_state \<Rightarrow> unit fut \<times> 's kv_state" where
  "deleteObjects_state helper keys st =
     (case deleteObjects helper keys (store st) of (r, s') \<Rightarrow> (r, st\<lparr>store := s'\<rparr>))"

definition unlink ::
  "'s kv_helper \<Rightarrow> u64 \<Rightarrow> string \<Rightarrow> u64 \<Rightarrow> 's kv_state \<Rightarrow> (unit fut \<times> 's kv_state) option" where
  "unlink helper blockSize fileId currentSize st =
     (if currentSize = 0 then Some (Inr (), st)
      else if blockSize = 0 then Some (Inl division_by_zero, st)
      else Option.bind (objectIdLoop 0 (currentSize div blockSize))
        (\<lambda>ids. Some (case getKeys fileId ids of
                  Inl e \<Rightarrow> (Inl e, st)
                | Inr keysToDelete \<Rightarrow> deleteObjects_state helper keysToDelete st)))"

text \<open>The rewriting of the last block that stays: read, filled with zeros and put back under its lock.\<close>

definition truncateBlock ::
  "'s kv_helper \<Rightarrow> string \<Rightarrow> u64 \<Rightarrow> 's kv_state \<Rightarrow> unit fut \<times> 's kv_state" where
  "truncateBlock helper key remainderBlockSize st =
     (case readBlock_object helper key 0 remainderBlockSize (lock key st) of
        (Inl e, st1) \<Rightarrow> (Inl e, unlock key st1)
      | (Inr b, st1) \<Rightarrow>
          (case putObject_state helper key (fillToSize b remainderBlockSize) 0 st1 of
             (Inl e, st2) \<Rightarrow> (Inl e, unlock key st2)
           | (Inr _, st2) \<Rightarrow> (Inr (), unlock key st2)))"

definition truncate_kv ::
  "'s kv_helper \<Rightarrow> u64 \<Rightarrow> string \<Rightarrow> u64 \<Rightarrow> u64 \<Rightarrow> 's kv_state \<Rightarrow>
   (unit fut \<times> 's kv_state) option" where
  "truncate_kv helper defBlockSize fileId sz currentSize st =
     (if sz = currentSize then Some (Inr (), st)
      else if defBlockSize = 0 then Some (Inl division_by_zero, st)
      else
        let currentLastBlockId = getBlockId currentSize defBlockSize;
            newLastBlockId = getBlockId sz defBlockSize;
            newLastBlockOffset = getBlockOffset sz defBlockSize
        in Option.bind (objectIdLoop 0 currentLastBlockId)
          (\<lambda>ids. Some (
             case getKeys fileId
                    (filter (\<lambda>i. i > newLastBlockId \<or> i = newLastBlockId \<and> newLastBlockOffset = 0) ids) of
               Inl e \<Rightarrow> (Inl e, st)
             | Inr keysToDelete \<Rightarrow>
                 (let whole = (newLastBlockOffset = 0 \<and> newLastBlockId > 0);
                      blockId = (if whole then newLastBlockId - 1 else newLastBlockId);
                      remainderBlockSize = (if whole then defBlockSize else newLastBlockOffset)
                  in case getKey fileId blockId of
                       Inl e \<Rightarrow> (Inl e, st)
                     | Inr key \<Rightarrow>
                         (let (r, st1) =
                                (if remainderBlockSize > 0 \<or> newLastBlockId > 0
                                 then truncateBlock helper key remainderBlockSize st
                                 else (Inr (), st))
                          in case r of
                               Inl e \<Rightarrow> (Inl e, st1)
                             | Inr _ \<Rightarrow>
                                 (if keysToDelete \<noteq> []
                                  then deleteObjects_state helper keysToDelete st1
                                  else (Inr (), st1)))))))"

text \<open>\<^verbatim>\<open>mknod\<close>, \<^verbatim>\<open>mkdir\<close> and \<^verbatim>\<open>chmod\<close> succeed without touching the storage.\<close>

definition mknod :: "string \<Rightarrow> 's kv_state \<Rightarrow> unit fut \<times> 's kv_state" where
  "mknod fileId st = (Inr (), st)"

definition mkdir :: "string \<Rightarrow> 's kv_state \<Rightarrow> unit fut \<times> 's kv_state" where
  "mkdir fileId st = (Inr (), st)"

definition chmod :: "string \<Rightarrow> 's kv_state \<Rightarrow> unit fut \<times> 's kv_state" where
  "chmod fileId st = (Inr (), st)"

definition open_file :: "'s kv_helper \<Rightarrow> u64 \<Rightarrow> string \<Rightarrow> 's kv_handle" where
  "open_file helper blockSize fileId =
     \<lparr>m_fileId = fileId, m_helper = helper, m_blockSize = blockSize\<rparr>"

end
