(* ===== verification/KvRefine.thy ===== *)
theory KvRefine
  imports KvAdapter
begin

text \<open>
  Lemmas of the key-value adapter: its block loops end and cut a range exactly, every
  block operation has its byte-wise effect on any storage that keeps its laws, and the
  operations of a file refine operations on one flat sequence of bytes.
\<close>

section \<open>Block arithmetic\<close>

lemma unat_getBlockId [word_nat]: "unat (getBlockId off B) = unat off div unat B"
  by (simp add: getBlockId_def unat_div)

lemma getBlockOffset_mod: "getBlockOffset off B = off mod B"
  using word_mod_div_equality [of off B] by (simp add: getBlockOffset_def getBlockId_def algebra_simps)

lemma unat_getBlockOffset [word_nat]: "unat (getBlockOffset off B) = unat off mod unat B"
  by (simp add: getBlockOffset_mod unat_mod)

lemma getBlockOffset_eq_0: "getBlockOffset off B = 0 \<longleftrightarrow> unat off mod unat B = 0"
  by (metis unat_getBlockOffset unat_eq_zero)

text \<open>
  \<open>cuts B pos q n cs\<close>: the chunks \<open>cs\<close> cut bytes \<open>q\<close> to \<open>n\<close> of a buffer whose byte \<open>q\<close>
  belongs at file position \<open>pos\<close> into pieces of the blocks they fall in.
\<close>

fun cuts :: "nat \<Rightarrow> nat \<Rightarrow> nat \<Rightarrow> nat \<Rightarrow> chunk list \<Rightarrow> bool" where
  "cuts B pos q n [] \<longleftrightarrow> q = n"
| "cuts B pos q n (c # cs) \<longleftrightarrow>
     q < n \<and> unat (c_blockId c) = pos div B \<and> unat (c_blockOffset c) = pos mod B \<and>
     unat (c_bufOffset c) = q \<and> unat (c_blockSize c) = min (B - pos mod B) (n - q) \<and>
     cuts B (pos + min (B - pos mod B) (n - q)) (q + min (B - pos mod B) (n - q)) n cs"

lemma block_end:
  assumes "0 < (B::nat)"
  shows "pos + (B - pos mod B) = (pos div B + 1) * B"
proof -
  have "(pos div B + 1) * B = pos div B * B + B" by (simp add: add_mult_distrib)
  moreover have "pos mod B < B" using assms by simp
  ultimately show ?thesis using div_mult_mod_eq [of pos B] by linarith
qed

lemma next_block:
  assumes "0 < (B::nat)"
  shows "(pos + (B - pos mod B)) div B = pos div B + 1" and "(pos + (B - pos mod B)) mod B = 0"
  unfolding block_end [OF assms] using assms by (metis less_not_refl2 nonzero_mult_div_cancel_right, simp)

lemma block_end_fits:
  assumes "0 < (B::nat)" and "B - pos mod B < n - q" and "pos + (n - q) \<le> 2 ^ 64"
  shows "pos div B + 1 < 2 ^ 64"
proof -
  have "(pos div B + 1) * 1 \<le> (pos div B + 1) * B" using assms(1) by (intro mult_le_mono2) simp
  then have "pos div B + 1 \<le> pos + (B - pos mod B)" by (simp only: block_end [OF assms(1)] mult_1_right)
  also have "\<dots> < pos + (n - q)" using assms(2) by (rule add_strict_left_mono)
  finally show ?thesis using assms(3) by (rule less_le_trans)
qed

lemma blockLoop_end: "blockLoop B bid bo n n = Some []"
  by (subst blockLoop.simps) simp

text \<open>
  The loop ends and cuts the range: each turn consumes at least one byte, because the
  offset in a block stays below the block size.
\<close>

lemma blockLoop_cuts:
  assumes "unat bid = pos div unat B" and "unat bo = pos mod unat B" and "0 < unat B"
    and "bq \<le> n" and "pos + (unat n - unat bq) \<le> 2 ^ 64"
  shows "\<exists>cs. blockLoop B bid bo bq n = Some cs \<and> cuts (unat B) pos (unat bq) (unat n) cs"
  using assms
proof (induction "unat n - unat bq" arbitrary: bid bo bq pos rule: less_induct)
  case less
  let ?B = "unat B" and ?m = "min (unat B - pos mod unat B) (unat n - unat bq)"
  show ?case
  proof (cases "bq < n")
    case False
    with less.prems(4) have "bq = n" by simp
    then show ?thesis by (simp add: blockLoop_end)
  next
    case True
    define sz where "sz = min (B - bo) (n - bq)"
    have bo: "bo \<le> B" using less.prems(2,3) by (simp add: word_le_nat_alt less_imp_le)
    have q: "unat bq < unat n" using True by (simp add: word_less_nat_alt)
    have sz: "unat sz = ?m"
      using bo less.prems(2) True by (simp add: sz_def unat_min unat_sub)
    have pos: "0 < ?m" using q less.prems(3) by simp
    have bq': "unat (bq + sz) = unat bq + ?m"
    proof -
      have "unat bq + unat sz \<le> unat n" using sz q by simp
      then have "unat bq + unat sz < 2 ^ LENGTH(64)" by (rule le_less_trans) (rule unsigned_less)
      then show ?thesis using sz by (simp only: unat_add_small)
    qed
    have le': "bq + sz \<le> n" using bq' q by (simp add: word_le_nat_alt)
    have "\<exists>cs. blockLoop B (bid + 1) 0 (bq + sz) n = Some cs \<and>
        cuts ?B (pos + ?m) (unat (bq + sz)) (unat n) cs"
    proof (cases "?B - pos mod ?B < unat n - unat bq")
      case True
      have "pos div ?B + 1 < 2 ^ 64"
        using block_end_fits [OF less.prems(3) True less.prems(5)] .
      then have "unat (bid + 1) = (pos + ?m) div ?B"
        using True less.prems(1,3) next_block(1) [OF less.prems(3), of pos]
        by (simp add: unat_add_small)
      moreover have "unat (0::u64) = (pos + ?m) mod ?B"
        using True next_block(2) [OF less.prems(3), of pos] by simp
      moreover have "unat n - unat (bq + sz) < unat n - unat bq" using bq' pos q by linarith
      moreover have "pos + ?m + (unat n - unat (bq + sz)) \<le> 2 ^ 64"
        using bq' q less.prems(5) by linarith
      ultimately show ?thesis using less.prems(3) le' by (intro less.hyps)
    next
      case False
      then have "bq + sz = n" using bq' q by (simp add: word_eq_iff_unsigned [where ?'a = nat])
      then show ?thesis using bq' by (simp add: blockLoop_end)
    qed
    then obtain cs where cs: "blockLoop B (bid + 1) 0 (bq + sz) n = Some cs"
      and rest: "cuts ?B (pos + ?m) (unat (bq + sz)) (unat n) cs" by blast
    let ?c = "\<lparr>c_blockId = bid, c_blockOffset = bo, c_bufOffset = bq, c_blockSize = sz\<rparr>"
    have "blockLoop B bid bo bq n = Some (?c # cs)"
      by (subst blockLoop.simps) (simp add: True cs Let_def flip: sz_def)
    moreover have "cuts ?B pos (unat bq) (unat n) (?c # cs)"
      using q less.prems(1,2) sz rest unfolding bq' by (simp only: cuts.simps chunk.select_convs simp_thms)
    ultimately show ?thesis by blast
  qed
qed

lemma chunks_cuts:
  assumes "0 < unat B" and "unat off + unat n \<le> 2 ^ 64"
  obtains cs where "chunks B off n = Some cs" and "cuts (unat B) (unat off) 0 (unat n) cs"
proof -
  have "\<exists>cs. blockLoop B (getBlockId off B) (getBlockOffset off B) 0 n = Some cs \<and>
      cuts (unat B) (unat off) (unat (0::u64)) (unat n) cs"
    using assms by (intro blockLoop_cuts) (simp_all add: word_nat)
  then show thesis using that by (auto simp: chunks_def)
qed

lemma cuts_empty: "cuts B pos n n cs \<Longrightarrow> cs = []"
  by (cases cs) auto

text \<open>What a cut says of each chunk, relative to the file position \<open>pos - q\<close> of byte 0.\<close>

lemma cuts_chunk:
  assumes "cuts B pos q n cs" and "c \<in> set cs" and "0 < B" and "q \<le> pos"
  shows "unat (c_blockId c) * B + unat (c_blockOffset c) = pos - q + unat (c_bufOffset c) \<and>
    unat (c_blockOffset c) + unat (c_blockSize c) \<le> B \<and>
    unat (c_bufOffset c) + unat (c_blockSize c) \<le> n \<and>
    0 < unat (c_blockSize c) \<and> pos div B \<le> unat (c_blockId c)"
  using assms
proof (induction cs arbitrary: pos q)
  case (Cons d cs)
  let ?m = "min (B - pos mod B) (n - q)"
  have lt: "pos mod B < B" using Cons.prems(3) by simp
  show ?case
  proof (cases "c = d")
    case True
    then show ?thesis using Cons.prems lt div_mult_mod_eq [of pos B] by auto
  next
    case False
    have "pos div B \<le> (pos + ?m) div B" by (rule div_le_mono) simp
    moreover have "pos + ?m - (q + ?m) = pos - q" by simp
    ultimately show ?thesis
      using Cons.prems False Cons.IH [of "pos + ?m" "q + ?m"] by (auto simp del: min_less_iff_conj)
  qed
qed simp

lemma cuts_cover:
  assumes "cuts B pos q n cs" and "q \<le> x" and "x < n"
  shows "\<exists>c \<in> set cs. unat (c_bufOffset c) \<le> x \<and> x < unat (c_bufOffset c) + unat (c_blockSize c)"
  using assms
proof (induction cs arbitrary: pos q)
  case (Cons d cs)
  let ?m = "min (B - pos mod B) (n - q)"
  show ?case
  proof (cases "x < q + ?m")
    case True
    then show ?thesis using Cons.prems by auto
  next
    case False
    then show ?thesis using Cons.prems Cons.IH [of "pos + ?m" "q + ?m"] by auto
  qed
qed simp

lemma cuts_distinct:
  assumes "cuts B pos q n cs" and "0 < B" and "q \<le> pos"
  shows "distinct (map c_blockId cs)"
  using assms
proof (induction cs arbitrary: pos q)
  case (Cons d cs)
  let ?m = "min (B - pos mod B) (n - q)"
  have rest: "cuts B (pos + ?m) (q + ?m) n cs" using Cons.prems(1) by simp
  have "distinct (map c_blockId cs)" using Cons.IH [OF rest] Cons.prems by simp
  moreover have "c_blockId d \<noteq> c_blockId c" if c: "c \<in> set cs" for c
  proof (cases "B - pos mod B \<le> n - q")
    case True
    then have "(pos + ?m) div B = pos div B + 1" using next_block(1) [OF Cons.prems(2)] by simp
    moreover have "(pos + ?m) div B \<le> unat (c_blockId c)"
      using cuts_chunk [OF rest c] Cons.prems by simp
    ultimately show ?thesis using Cons.prems(1) by auto
  next
    case False
    then have "cs = []" using rest Cons.prems(1) cuts_empty [of B "pos + ?m" n cs] by simp
    then show ?thesis using c by simp
  qed
  ultimately show ?case by auto
qed simp

text \<open>The pieces of a buffer, joined in order, are the buffer.\<close>

lemma cuts_concat:
  assumes "cuts B pos q n cs" and "q \<le> n" and "0 < B"
    and "\<And>c. c \<in> set cs \<Longrightarrow> f c = map g [unat (c_bufOffset c)..<unat (c_bufOffset c) + unat (c_blockSize c)]"
  shows "concat (map f cs) = map g [q..<n]"
  using assms
proof (induction cs arbitrary: pos q)
  case (Cons d cs)
  let ?m = "min (B - pos mod B) (n - q)"
  have "cuts B (pos + ?m) (q + ?m) n cs" and "q + ?m \<le> n" using Cons.prems(1,2) by auto
  then have "concat (map f cs) = map g [q + ?m..<n]"
    using Cons.prems(3,4) by (intro Cons.IH) simp_all
  moreover have "f d = map g [q..<q + ?m]" using Cons.prems by simp
  moreover have "[q..<n] = [q..<q + ?m] @ [q + ?m..<n]"
    using \<open>q + ?m \<le> n\<close> upt_add_eq_append [of q "q + ?m" "n - (q + ?m)"] by simp
  ultimately show ?case by (simp only: list.map concat.simps map_append)
qed simp

section \<open>Blocks on a storage that keeps its laws\<close>

text \<open>A sequence of bytes \<open>f\<close> after \<open>buf\<close> was written at \<open>off\<close>.\<close>

definition written :: "(nat \<Rightarrow> byte) \<Rightarrow> nat \<Rightarrow> bytes \<Rightarrow> nat \<Rightarrow> byte" where
  "written f off buf p = (if off \<le> p \<and> p < off + length buf then byte_at buf (p - off) else f p)"

text \<open>
  The objects \<open>o2\<close> are the objects \<open>o1\<close> with \<open>data c\<close> written into the block of every chunk
  \<open>c\<close>, and no other object changed.
\<close>

definition blocks_written ::
  "nat \<Rightarrow> (chunk \<Rightarrow> string) \<Rightarrow> (chunk \<Rightarrow> bytes) \<Rightarrow> chunk set \<Rightarrow>
   (string \<Rightarrow> bytes option) \<Rightarrow> (string \<Rightarrow> bytes option) \<Rightarrow> bool" where
  "blocks_written B key data cs o1 o2 \<longleftrightarrow>
     (\<forall>k. k \<notin> key ` cs \<longrightarrow> o2 k = o1 k) \<and>
     (\<forall>c \<in> cs. \<forall>i < B. byte_at (content o2 (key c)) i =
        written (byte_at (content o1 (key c))) (unat (c_blockOffset c)) (data c) i)"

lemma blocks_written_step:
  assumes "blocks_written B key data {c} o1 o2" and "blocks_written B key data cs o2 o3"
    and "key c \<notin> key ` cs"
  shows "blocks_written B key data (insert c cs) o1 o3"
proof -
  have "content o3 (key c) = content o2 (key c)"
    using assms(2,3) by (simp add: blocks_written_def content_def)
  moreover have "content o2 (key d) = content o1 (key d)" if "d \<in> cs" for d
  proof -
    have "key d \<noteq> key c" using that assms(3) by (metis imageI)
    then show ?thesis using assms(1) by (simp add: blocks_written_def content_def)
  qed
  ultimately show ?thesis using assms(1,2) by (simp add: blocks_written_def)
qed

lemma lock_simps [simp]:
  "store (lock k st) = store st" "store (unlock k st) = store st"
  "m_locks (lock k st) = insert k (m_locks st)" "m_locks (unlock k st) = m_locks st - {k}"
  by (simp_all add: lock_def unlock_def)

lemma length_fillToSize: "length (fillToSize b n) = max (length b) (unat n)"
  by (simp add: fillToSize_def)

lemma byte_at_fillToSize [byte_simps]: "byte_at (fillToSize b n) i = byte_at b i"
  by (auto simp: fillToSize_def byte_at_append byte_at_beyond)

text \<open>Merging puts the buffer at its offset and keeps the other bytes of the block.\<close>

lemma byte_at_mergeBlock:
  "byte_at (mergeBlock old buf bo) i =
     (if unat bo \<le> i \<and> i < unat bo + length buf then byte_at buf (i - unat bo) else byte_at old i)"
proof -
  define pre where "pre = (if bo > 0 then fillToSize (if length old \<ge> unat bo then take (unat bo) old else old) bo else [])"
  have len: "length pre = unat bo"
    by (auto simp: pre_def length_fillToSize word_gt_0 unat_eq_0)
  have pre: "byte_at pre j = byte_at old j" if "j < unat bo" for j
    using that by (auto simp: pre_def byte_simps word_less_nat_alt)
  have "mergeBlock old buf bo =
      (if unat bo + length buf < length old then pre @ buf @ drop (unat bo + length buf) old else pre @ buf)"
    by (simp add: mergeBlock_def pre_def [symmetric] Let_def len)
  then show ?thesis
    using len pre by (auto simp: byte_simps byte_at_beyond)
qed

context object_store
begin

lemma readBlock_object_reads:
  assumes "ready (store st)" and "0 < n" and "unat off + unat n \<le> 2 ^ 63"
  shows "\<exists>st'. readBlock_object h k off n st =
      (Inr (take (unat n) (drop (unat off) (content (obj (store st)) k))), st') \<and>
      ready (store st') \<and> obj (store st') = obj (store st) \<and> m_locks st' = m_locks st"
proof -
  obtain r s' where g: "getObject h k off n (store st) = (r, s')" "ready s'" "obj s' = obj (store st)"
    and r: "case obj (store st) k of
         None \<Rightarrow> r = Inl (system_error ENOENT) \<or> r = Inr []
       | Some b \<Rightarrow> r = Inr (take (unat n) (drop (unat off) b)) \<or>
           length b \<le> unat off \<and> r = Inl (system_error ENOENT)"
    using get_law [OF assms] by blast
  have "(if r = Inl (system_error ENOENT) then Inr [] else r) =
      Inr (take (unat n) (drop (unat off) (content (obj (store st)) k)))"
    using r by (auto simp: content_def split: option.splits)
  then show ?thesis using g by (simp add: readBlock_object_def)
qed

lemma readBlock_reads:
  assumes "ready (store st)" and "0 < n" and "unat off + unat n \<le> 2 ^ 63"
    and "m_helper fh = h" and "getKey (m_fileId fh) bid = Inr key"
  shows "\<exists>st'. readBlock fh bid off n st =
      (Inr (take (unat n) (drop (unat off) (content (obj (store st)) key))), st') \<and>
      ready (store st') \<and> obj (store st') = obj (store st) \<and> m_locks st' = m_locks st - {key}"
  using readBlock_object_reads [of "lock key st" n off key] assms
  by (auto simp: readBlock_def)

end

text \<open>
  The contract of a block write: the bytes of the buffer land at their offset in the
  block, the other bytes of the block and all other objects stay, and the lock on the
  key is free again. Both kinds of storage give it.
\<close>

locale block_store = object_store +
  assumes writeBlock_writes:
    "ready (store st) \<Longrightarrow> m_helper fh = h \<Longrightarrow> getKey (m_fileId fh) bid = Inr key \<Longrightarrow>
     0 < m_blockSize fh \<Longrightarrow> unat (m_blockSize fh) \<le> 2 ^ 63 \<Longrightarrow>
     unat bo + length buf \<le> unat (m_blockSize fh) \<Longrightarrow>
     \<exists>st'. writeBlock fh buf bid bo st = (Inr (), st') \<and> ready (store st') \<and>
       m_locks st' = m_locks st - {key} \<and>
       (\<forall>k. k \<noteq> key \<longrightarrow> obj (store st') k = obj (store st) k) \<and>
       (\<forall>i < unat (m_blockSize fh). byte_at (content (obj (store st')) key) i =
          written (byte_at (content (obj (store st)) key)) (unat bo) buf i)"

lemma content_update [simp]: "content (m(k \<mapsto> b)) k = b"
  by (simp add: content_def)

sublocale replacing_store \<subseteq> block_store
proof unfold_locales
  fix st :: "'a kv_state" and fh :: "'a kv_handle" and bid bo :: u64 and key :: string and buf :: bytes
  assume rdy: "ready (store st)" and fh: "m_helper fh = h"
    and key: "getKey (m_fileId fh) bid = Inr key" and B: "0 < m_blockSize fh"
    and B63: "unat (m_blockSize fh) \<le> 2 ^ 63" and fits: "unat bo + length buf \<le> unat (m_blockSize fh)"
  let ?B = "m_blockSize fh" and ?old = "content (obj (store st)) key"
  obtain st1 where rd: "readBlock_object h key 0 ?B (lock key st) = (Inr (take (unat ?B) ?old), st1)"
    and st1: "ready (store st1)" "obj (store st1) = obj (store st)" "m_locks st1 = insert key (m_locks st)"
    using readBlock_object_reads [of "lock key st" ?B 0 key] rdy B B63 by auto
  define new where "new = (if length buf \<noteq> unat ?B then mergeBlock (take (unat ?B) ?old) buf bo else buf)"
  define pre where "pre = (if length buf \<noteq> unat ?B then st1 else lock key st)"
  have pre: "ready (store pre)" "obj (store pre) = obj (store st)" "m_locks pre = insert key (m_locks st)"
    using rdy st1 by (simp_all add: pre_def)
  obtain s' where put: "putObject h key new 0 (store pre) = (Inr (length new), s')" "ready s'"
    "obj s' = (obj (store st))(key \<mapsto> new)"
    using put_replaces [OF pre(1), of key new] pre(2) by auto
  have "writeBlock fh buf bid bo st = (Inr (), unlock key (pre\<lparr>store := s'\<rparr>))"
    using key fh rd put(1) no_random_access
    by (simp add: writeBlock_def putObject_state_def new_def pre_def split: if_splits)
  moreover have "byte_at new i = written (byte_at ?old) (unat bo) buf i" if "i < unat ?B" for i
    using that fits
    by (cases "length buf = unat ?B") (auto simp: new_def byte_at_mergeBlock byte_at_take written_def)
  ultimately show "\<exists>st'. writeBlock fh buf bid bo st = (Inr (), st') \<and> ready (store st') \<and>
       m_locks st' = m_locks st - {key} \<and>
       (\<forall>k. k \<noteq> key \<longrightarrow> obj (store st') k = obj (store st) k) \<and>
       (\<forall>i < unat ?B. byte_at (content (obj (store st')) key) i = written (byte_at ?old) (unat bo) buf i)"
    using put(2,3) pre(3) by (intro exI [of _ "unlock key (pre\<lparr>store := s'\<rparr>)"]) simp
qed

sublocale in_place_store \<subseteq> block_store
proof unfold_locales
  fix st :: "'a kv_state" and fh :: "'a kv_handle" and bid bo :: u64 and key :: string and buf :: bytes
  assume rdy: "ready (store st)" and fh: "m_helper fh = h"
    and key: "getKey (m_fileId fh) bid = Inr key"
    and fits: "unat bo + length buf \<le> unat (m_blockSize fh)"
  let ?B = "m_blockSize fh" and ?old = "content (obj (store st)) key"
  define off where "off = (if length buf \<noteq> unat ?B then bo else 0)"
  have off: "unat off = unat bo" using fits by (simp add: off_def)
  obtain s' c where put: "putObject h key buf off (store st) = (Inr (length buf), s')" "ready s'"
    "obj s' = (obj (store st))(key \<mapsto> c)"
    and c: "\<forall>i. byte_at c i = (if unat off \<le> i \<and> i < unat off + length buf
        then byte_at buf (i - unat off) else byte_at ?old i)"
    using put_overlays [OF rdy, of key buf off] by blast
  have "writeBlock fh buf bid bo st = (Inr (), unlock key ((lock key st)\<lparr>store := s'\<rparr>))"
    using key fh put(1) random_access
    by (simp add: writeBlock_def putObject_state_def off_def split: if_splits)
  then show "\<exists>st'. writeBlock fh buf bid bo st = (Inr (), st') \<and> ready (store st') \<and>
       m_locks st' = m_locks st - {key} \<and>
       (\<forall>k. k \<noteq> key \<longrightarrow> obj (store st') k = obj (store st) k) \<and>
       (\<forall>i < unat ?B. byte_at (content (obj (store st')) key) i = written (byte_at ?old) (unat bo) buf i)"
    using put(2,3) c off
    by (intro exI [of _ "unlock key ((lock key st)\<lparr>store := s'\<rparr>)"]) (simp add: written_def)
qed

section \<open>Files as flat sequences of bytes\<close>

text \<open>
  The byte of a file at a position: the byte of the block it falls in, zero where the
  block or the byte is absent.
\<close>

definition file_byte :: "(string \<Rightarrow> bytes option) \<Rightarrow> string \<Rightarrow> nat \<Rightarrow> nat \<Rightarrow> byte" where
  "file_byte objects fileId B p =
     (case getKey fileId (of_nat (p div B)) of
        Inl _ \<Rightarrow> 0
      | Inr key \<Rightarrow> byte_at (content objects key) (p mod B))"

lemma chunk_position:
  assumes "bid * B + bo = off + (q::nat)" and "bo + m \<le> B" and "q \<le> x" and "x < q + m"
  shows "(off + x) div B = bid" and "(off + x) mod B = bo + (x - q)"
proof -
  have eq: "off + x = bid * B + (bo + (x - q))" using assms by linarith
  have lt: "bo + (x - q) < B" using assms by linarith
  show "(off + x) div B = bid" unfolding eq using lt by simp
  show "(off + x) mod B = bo + (x - q)" unfolding eq using lt by simp
qed

text \<open>Writing every chunk of a cut into its block writes the buffer into the file.\<close>

lemma file_byte_written:
  assumes cut: "cuts B off 0 (length buf) cs" and B: "0 < B"
    and keys: "\<And>i. getKey f i = Inr (keyOf i)"
    and w: "blocks_written B (\<lambda>c. keyOf (c_blockId c)) (chunkData buf) (set cs) o1 o2"
    and p: "p < 2 ^ 64"
  shows "file_byte o2 f B p = written (file_byte o1 f B) off buf p"
proof -
  define b :: u64 where "b = of_nat (p div B)"
  have b: "unat b = p div B"
    using p div_le_dividend [of p B] unfolding b_def by (intro unat_of_nat_u64) linarith
  have fb: "file_byte ob f B p = byte_at (content ob (keyOf b)) (p mod B)" for ob
    by (simp add: file_byte_def keys b_def)
  have fact: "unat (c_blockId c) * B + unat (c_blockOffset c) = off + unat (c_bufOffset c) \<and>
      unat (c_blockOffset c) + unat (c_blockSize c) \<le> B \<and>
      unat (c_bufOffset c) + unat (c_blockSize c) \<le> length buf" if "c \<in> set cs" for c
    using cuts_chunk [OF cut that B] by simp
  have eff: "byte_at (content o2 (keyOf b)) (p mod B) =
      written (byte_at (content o1 (keyOf b))) (unat (c_blockOffset c)) (chunkData buf c) (p mod B)"
    if "c \<in> set cs" and "c_blockId c = b" for c
    using w that B unfolding blocks_written_def by (metis mod_less_divisor)
  have len: "length (chunkData buf c) = unat (c_blockSize c)" if "c \<in> set cs" for c
    using fact [OF that] by (auto simp: chunkData_def min_def)
  show ?thesis
  proof (cases "off \<le> p \<and> p < off + length buf")
    case True
    then obtain c where c: "c \<in> set cs" and q: "unat (c_bufOffset c) \<le> p - off"
        "p - off < unat (c_bufOffset c) + unat (c_blockSize c)"
      using cuts_cover [OF cut, of "p - off"] less_diff_conv2 [of off p "length buf"] by (auto simp: add.commute)
    have pos: "p div B = unat (c_blockId c)"
        "p mod B = unat (c_blockOffset c) + (p - off - unat (c_bufOffset c))"
      using chunk_position [of "unat (c_blockId c)" B "unat (c_blockOffset c)" off _ _ "p - off"] fact [OF c] q True
      by auto
    have "c_blockId c = b" using pos(1) b by (simp add: word_eq_iff_unsigned [where ?'a = nat])
    moreover obtain r where r: "r < unat (c_blockSize c)" "p - off = unat (c_bufOffset c) + r"
      using q le_Suc_ex [OF q(1)] by auto
    moreover have "byte_at (chunkData buf c) r = byte_at buf (p - off)"
      using r by (simp add: chunkData_def byte_at_take byte_at_drop)
    ultimately show ?thesis
      using eff [OF c] True pos(2) len [OF c] by (simp add: fb written_def)
  next
    case False
    show ?thesis
    proof (cases "\<exists>c \<in> set cs. c_blockId c = b")
      case True
      then obtain c where c: "c \<in> set cs" "c_blockId c = b" by blast
      have "unat (c_blockId c) * B = p div B * B" using c(2) b by simp
      then have "p = off + unat (c_bufOffset c) + p mod B - unat (c_blockOffset c)"
        using fact [OF c(1)] div_mult_mod_eq [of p B] by linarith
      then have "\<not> (unat (c_blockOffset c) \<le> p mod B \<and>
          p mod B < unat (c_blockOffset c) + unat (c_blockSize c))"
        using False fact [OF c(1)] by linarith
      then show ?thesis using eff [OF c] False len [OF c(1)] by (auto simp: fb written_def)
    next
      case no_chunk: False
      have "keyOf b \<notin> (\<lambda>c. keyOf (c_blockId c)) ` set cs"
        using no_chunk keys getKey_inj by (metis (no_types, lifting) imageE)
      then show ?thesis
        using w False by (auto simp: fb written_def blocks_written_def content_def)
    qed
  qed
qed

text \<open>The bytes of a range: what the blocks hold, filled with zeros.\<close>

lemma fillToSize_range:
  "fillToSize (take (unat n) (drop i b)) n = map (byte_at b) [i..<i + unat n]"
  by (rule bytes_eqI) (auto simp: length_fillToSize byte_simps byte_at_def [of "map _ _"])

lemma firstFailure_values: "firstFailure (map (\<lambda>t. (t, Inr (g t))) ts) = None"
  by (induction ts) auto

lemma collect_values:
  assumes "runs_each_once order"
  shows "collect ts (map (\<lambda>t. (t, Inr (g t))) (order ts)) = Inr (map g ts)"
proof -
  have "map_of (map (\<lambda>t. (t, Inr (g t) :: _ fut)) (order ts)) t = Some (Inr (g t))" if "t \<in> set ts" for t
    using that runs_each_once_set [OF assms] by (simp add: map_of_map_restrict)
  then show ?thesis by (auto simp: collect_def firstFailure_values)
qed

lemma file_byte_chunk:
  assumes cut: "cuts B off 0 n cs" and B: "0 < B" and c: "c \<in> set cs"
    and key: "getKey f (c_blockId c) = Inr key"
  shows "map (byte_at (content ob key)) [unat (c_blockOffset c)..<unat (c_blockOffset c) + unat (c_blockSize c)] =
    map (\<lambda>x. file_byte ob f B (off + x)) [unat (c_bufOffset c)..<unat (c_bufOffset c) + unat (c_blockSize c)]"
proof (rule nth_equalityI)
  fix i assume "i < length (map (byte_at (content ob key))
    [unat (c_blockOffset c)..<unat (c_blockOffset c) + unat (c_blockSize c)])"
  then have i: "i < unat (c_blockSize c)" by simp
  have pos: "(off + (unat (c_bufOffset c) + i)) div B = unat (c_blockId c)"
      "(off + (unat (c_bufOffset c) + i)) mod B = unat (c_blockOffset c) + i"
    using chunk_position [of "unat (c_blockId c)" B "unat (c_blockOffset c)" off "unat (c_bufOffset c)"
        "unat (c_blockSize c)" "unat (c_bufOffset c) + i"] cuts_chunk [OF cut c B] i by auto
  show "map (byte_at (content ob key)) [unat (c_blockOffset c)..<unat (c_blockOffset c) + unat (c_blockSize c)] ! i =
    map (\<lambda>x. file_byte ob f B (off + x)) [unat (c_bufOffset c)..<unat (c_bufOffset c) + unat (c_blockSize c)] ! i"
    using i key by (simp add: file_byte_def pos)
qed simp

context object_store
begin

lemma runTasks_reads:
  assumes "ready (store st)" and "m_helper fh = h"
    and "\<And>c. c \<in> set cs \<Longrightarrow> 0 < c_blockSize c \<and> unat (c_blockOffset c) + unat (c_blockSize c) \<le> 2 ^ 63"
    and "\<And>c. c \<in> set cs \<Longrightarrow> getKey (m_fileId fh) (c_blockId c) = Inr (key c)"
  shows "\<exists>st'. runTasks (\<lambda>c s. case readBlock fh (c_blockId c) (c_blockOffset c) (c_blockSize c) s of
        (r, s') \<Rightarrow> (map_sum id (\<lambda>b. fillToSize b (c_blockSize c)) r, s')) cs st =
      (map (\<lambda>c. (c, Inr (map (byte_at (content (obj (store st)) (key c)))
         [unat (c_blockOffset c)..<unat (c_blockOffset c) + unat (c_blockSize c)]))) cs, st') \<and>
    ready (store st') \<and> obj (store st') = obj (store st) \<and> m_locks st' \<subseteq> m_locks st"
  using assms
proof (induction cs arbitrary: st)
  case (Cons c cs)
  obtain st1 where r: "readBlock fh (c_blockId c) (c_blockOffset c) (c_blockSize c) st =
      (Inr (take (unat (c_blockSize c)) (drop (unat (c_blockOffset c)) (content (obj (store st)) (key c)))), st1)"
    and st1: "ready (store st1)" "obj (store st1) = obj (store st)" "m_locks st1 = m_locks st - {key c}"
    using readBlock_reads [OF Cons.prems(1) _ _ Cons.prems(2), of "c_blockSize c" "c_blockOffset c" "c_blockId c" "key c"]
      Cons.prems(3,4) [of c] by auto
  show ?case
    using Cons.IH [OF st1(1) Cons.prems(2)] Cons.prems(3,4) st1(2,3)
    by (auto simp: r fillToSize_range)
qed simp

lemma readBlocks_reads:
  assumes "ready (store st)" and "m_helper fh = h" and "runs_each_once order"
    and B: "0 < m_blockSize fh" "unat (m_blockSize fh) \<le> 2 ^ 63"
    and k0: "getKey (m_fileId fh) 0 = Inr k0"
    and fits: "unat off + unat n \<le> 2 ^ 64"
  shows "\<exists>st'. readBlocks order fh off n st =
      Some (Inr (map (file_byte (obj (store st)) (m_fileId fh) (unat (m_blockSize fh))) [unat off..<unat off + unat n]), st') \<and>
    ready (store st') \<and> obj (store st') = obj (store st) \<and> m_locks st' \<subseteq> m_locks st"
proof (cases "n = 0")
  case True
  then show ?thesis using assms(1) by (simp add: readBlocks_def)
next
  case False
  let ?B = "unat (m_blockSize fh)" and ?o = "obj (store st)"
  let ?piece = "\<lambda>c key. map (byte_at (content ?o key)) [unat (c_blockOffset c)..<unat (c_blockOffset c) + unat (c_blockSize c)]"
  obtain keyOf where keys: "\<And>i. getKey (m_fileId fh) i = Inr (keyOf i)"
    using getKey_total [OF k0] by metis
  have B0: "0 < ?B" using B(1) by (simp add: word_less_nat_alt)
  obtain cs where cs: "chunks (m_blockSize fh) off n = Some cs" and cut: "cuts ?B (unat off) 0 (unat n) cs"
    using chunks_cuts [OF B0 fits] by auto
  have fit: "0 < c_blockSize c \<and> unat (c_blockOffset c) + unat (c_blockSize c) \<le> 2 ^ 63" if "c \<in> set cs" for c
    using cuts_chunk [OF cut that B0] B(2) by (simp add: word_less_nat_alt)
  obtain st' where run: "runTasks (\<lambda>c s. case readBlock fh (c_blockId c) (c_blockOffset c) (c_blockSize c) s of
        (r, s') \<Rightarrow> (map_sum id (\<lambda>b. fillToSize b (c_blockSize c)) r, s')) (order cs) st =
      (map (\<lambda>c. (c, Inr (?piece c (keyOf (c_blockId c))))) (order cs), st')"
    and st': "ready (store st')" "obj (store st') = ?o" "m_locks st' \<subseteq> m_locks st"
    using runTasks_reads [OF assms(1,2), of "order cs" "\<lambda>c. keyOf (c_blockId c)"] fit keys runs_each_once_set [OF assms(3)]
    by auto
  have "concat (map (\<lambda>c. ?piece c (keyOf (c_blockId c))) cs) =
      map (\<lambda>x. file_byte ?o (m_fileId fh) ?B (unat off + x)) [0..<unat n]"
    using file_byte_chunk [OF cut B0 _ keys] by (intro cuts_concat [OF cut _ B0]) simp_all
  also have "\<dots> = map (file_byte ?o (m_fileId fh) ?B) [unat off..<unat off + unat n]"
    by (rule nth_equalityI) simp_all
  finally show ?thesis
    using False B(1) cs run st' by (simp add: readBlocks_def collect_values [OF assms(3)] word_gt_0)
qed

end

context block_store
begin

lemma runTasks_writes:
  assumes "ready (store st)" and "m_helper fh = h" and "distinct (map c_blockId cs)"
    and "0 < m_blockSize fh" and "unat (m_blockSize fh) \<le> 2 ^ 63"
    and "\<And>c. c \<in> set cs \<Longrightarrow> unat (c_blockOffset c) + length (data c) \<le> unat (m_blockSize fh)"
    and "\<And>c. c \<in> set cs \<Longrightarrow> getKey (m_fileId fh) (c_blockId c) = Inr (key c)"
  shows "\<exists>rs st'. runTasks (\<lambda>c. writeBlock fh (data c) (c_blockId c) (c_blockOffset c)) cs st = (rs, st') \<and>
    firstFailure rs = None \<and> ready (store st') \<and> m_locks st' = m_locks st - key ` set cs \<and>
    blocks_written (unat (m_blockSize fh)) key data (set cs) (obj (store st)) (obj (store st'))"
  using assms
proof (induction cs arbitrary: st)
  case Nil
  then show ?case by (simp add: blocks_written_def)
next
  case (Cons c cs)
  let ?f = "\<lambda>c. writeBlock fh (data c) (c_blockId c) (c_blockOffset c)"
  let ?done = "blocks_written (unat (m_blockSize fh)) key data"
  have new: "key c \<notin> key ` set cs"
    using Cons.prems(3,7) getKey_inj by (metis (no_types, lifting) distinct.simps(2) imageE image_eqI list.map(2) list.set_intros list.set_map)
  obtain st1 where w: "?f c st = (Inr (), st1)"
    and st1: "ready (store st1)" "m_locks st1 = m_locks st - {key c}"
    and eff: "?done {c} (obj (store st)) (obj (store st1))"
    using writeBlock_writes [OF Cons.prems(1,2), of "c_blockId c" "key c" "c_blockOffset c" "data c"] Cons.prems(4-7)
    by (auto simp: blocks_written_def)
  obtain rs st' where rest: "runTasks ?f cs st1 = (rs, st')" "firstFailure rs = None" "ready (store st')"
    "m_locks st' = m_locks st1 - key ` set cs" "?done (set cs) (obj (store st1)) (obj (store st'))"
    using Cons.IH [OF st1(1)] Cons.prems by auto
  have "?done (set (c # cs)) (obj (store st)) (obj (store st'))"
    using blocks_written_step [OF eff rest(5) new] by simp
  then show ?case using w rest(1-4) st1(2) by auto
qed

lemma write_kv_writes:
  assumes "ready (store st)" and "m_helper fh = h" and "runs_each_once order"
    and B: "0 < m_blockSize fh" "unat (m_blockSize fh) \<le> 2 ^ 63"
    and k0: "getKey (m_fileId fh) 0 = Inr k0"
    and fits: "unat off + length buf < 2 ^ 64"
  shows "\<exists>st'. write_kv order fh off buf st = Some (Inr (length buf), st') \<and> ready (store st') \<and>
    m_locks st' \<subseteq> m_locks st \<and>
    (\<forall>k. (\<forall>i. getKey (m_fileId fh) i \<noteq> Inr k) \<longrightarrow> obj (store st') k = obj (store st) k) \<and>
    (\<forall>p < 2 ^ 64. file_byte (obj (store st')) (m_fileId fh) (unat (m_blockSize fh)) p =
       written (file_byte (obj (store st)) (m_fileId fh) (unat (m_blockSize fh))) (unat off) buf p)"
proof (cases "buf = []")
  case True
  then show ?thesis using assms(1) by (auto simp: write_kv_def written_def)
next
  case False
  let ?B = "unat (m_blockSize fh)"
  obtain keyOf where keys: "\<And>i. getKey (m_fileId fh) i = Inr (keyOf i)"
    using getKey_total [OF k0] by metis
  have n: "unat (of_nat (length buf) :: u64) = length buf" using fits by (intro unat_of_nat_u64) linarith
  have B0: "0 < ?B" using B(1) by (simp add: word_less_nat_alt)
  obtain cs where cs: "chunks (m_blockSize fh) off (of_nat (length buf)) = Some cs"
    and cut: "cuts ?B (unat off) 0 (length buf) cs"
    using chunks_cuts [of "m_blockSize fh" off "of_nat (length buf)"] fits n B0 by auto
  have fit: "unat (c_blockOffset c) + length (chunkData buf c) \<le> ?B" if "c \<in> set cs" for c
    using cuts_chunk [OF cut that B0] by (auto simp: chunkData_def)
  obtain rs st' where run: "runTasks (\<lambda>c. writeBlock fh (chunkData buf c) (c_blockId c) (c_blockOffset c))
        (order cs) st = (rs, st')" "firstFailure rs = None" "ready (store st')"
    "m_locks st' = m_locks st - (\<lambda>c. keyOf (c_blockId c)) ` set cs"
    "blocks_written ?B (\<lambda>c. keyOf (c_blockId c)) (chunkData buf) (set cs) (obj (store st)) (obj (store st'))"
    using runTasks_writes [OF assms(1,2) _ B, where cs = "order cs" and data = "chunkData buf" and key = "\<lambda>c. keyOf (c_blockId c)"]
      fit keys cuts_distinct [OF cut B0] assms(3) by (auto simp: runs_each_once_set runs_each_once_distinct)
  have "write_kv order fh off buf st = Some (Inr (length buf), st')"
    using False B(1) cs run(1,2) by (simp add: write_kv_def collect_def word_gt_0)
  moreover have "obj (store st') k = obj (store st) k" if "\<forall>i. getKey (m_fileId fh) i \<noteq> Inr k" for k
    using run(5) that keys unfolding blocks_written_def by (metis (no_types, lifting) imageE)
  ultimately show ?thesis
    using run(3,4) file_byte_written [OF cut B0 keys run(5)] by blast
qed

end

section \<open>Removing and truncating files\<close>

lemma objectIdLoop_upto:
  assumes "unat lastId < 2 ^ 64 - 1" and "unat i \<le> unat lastId + 1"
  shows "objectIdLoop i lastId = Some (map of_nat [unat i..<Suc (unat lastId)])"
  using assms(2)
proof (induction "unat lastId + 1 - unat i" arbitrary: i)
  case 0
  then show ?case by (subst objectIdLoop.simps) (simp add: word_le_nat_alt)
next
  case (Suc m)
  have le: "unat i \<le> unat lastId" using Suc.hyps(2) by simp
  then have "unat i + unat (1::u64) < 2 ^ 64" using assms(1) by simp
  then have next_id: "unat (i + 1) = unat i + 1" by (subst unat_add_small) simp_all
  have "objectIdLoop (i + 1) lastId = Some (map of_nat [unat i + 1..<Suc (unat lastId)])"
    using Suc.hyps(1) [of "i + 1"] Suc.hyps(2) le next_id by simp
  then show ?case using le by (subst objectIdLoop.simps) (simp add: word_le_nat_alt upt_conv_Cons del: upt_Suc)
qed

lemma getKeys_map: "(\<And>i. getKey f i = Inr (keyOf i)) \<Longrightarrow> getKeys f is = Inr (map keyOf is)"
  by (induction "is") simp_all

context object_store
begin

lemma unlink_removes:
  assumes "ready (store st)" and B: "0 < B" and k0: "getKey f 0 = Inr k0"
    and cur: "0 < currentSize" "unat currentSize div unat B < MAX_DELETE_OBJECTS"
  shows "\<exists>st'. unlink h B f currentSize st = Some (Inr (), st') \<and> ready (store st') \<and> m_locks st' = m_locks st \<and>
    obj (store st') = (\<lambda>k. if \<exists>i. getKey f i = Inr k \<and> unat i \<le> unat currentSize div unat B
                          then None else obj (store st) k)"
proof -
  obtain keyOf where keys: "\<And>i. getKey f i = Inr (keyOf i)" using getKey_total [OF k0] by metis
  let ?L = "unat currentSize div unat B"
  have ids: "objectIdLoop 0 (currentSize div B) = Some (map of_nat [0..<Suc ?L])"
    using objectIdLoop_upto [of "currentSize div B" 0] cur(2) by (simp add: unat_div MAX_DELETE_OBJECTS_def)
  obtain s' where d: "deleteObjects h (map keyOf (map of_nat [0..<Suc ?L])) (store st) = (Inr (), s')" "ready s'"
    "obj s' = (\<lambda>k. if k \<in> set (map keyOf (map of_nat [0..<Suc ?L])) then None else obj (store st) k)"
    using delete_law [OF assms(1), of "map keyOf (map of_nat [0..<Suc ?L])"] cur(2) by auto
  have "k \<in> set (map keyOf (map of_nat [0..<Suc ?L])) \<longleftrightarrow> (\<exists>i. getKey f i = Inr k \<and> unat i \<le> ?L)" for k
  proof
    assume "\<exists>i. getKey f i = Inr k \<and> unat i \<le> ?L"
    then obtain i where "k = keyOf i" "unat i < Suc ?L" using keys by auto
    then show "k \<in> set (map keyOf (map of_nat [0..<Suc ?L]))"
      by (auto simp del: upt_Suc intro!: image_eqI [of _ _ "unat i"])
  next
    assume "k \<in> set (map keyOf (map of_nat [0..<Suc ?L]))"
    then obtain n where n: "k = keyOf (of_nat n)" "n \<le> ?L" by (auto simp del: upt_Suc)
    have "unat (of_nat n :: u64) = n" using n(2) cur(2) by (intro unat_of_nat_u64) (simp add: MAX_DELETE_OBJECTS_def)
    then show "\<exists>i. getKey f i = Inr k \<and> unat i \<le> ?L" using n keys by (intro exI [of _ "of_nat n"]) simp
  qed
  then show ?thesis
    using cur(1) B d ids
    by (simp add: unlink_def getKeys_map [OF keys] deleteObjects_state_def word_gt_0 del: upt_Suc)
qed

end

text \<open>
  The objects left by a truncation to \<open>sz\<close> bytes of a file whose last block was \<open>C\<close>: the
  blocks from the end on are gone, and the block the end falls in is cut there.
\<close>

lemma file_byte_truncated:
  fixes keyOf :: "u64 \<Rightarrow> string" and sz B C :: nat
  defines "N \<equiv> sz div B" and "r \<equiv> (if sz mod B = 0 \<and> 0 < sz div B then B else sz mod B)"
    and "bid \<equiv> (if sz mod B = 0 \<and> 0 < sz div B then sz div B - 1 else sz div B)"
  assumes keys: "\<And>i. getKey f i = Inr (keyOf i)" and B: "0 < B" and p: "p < 2 ^ 64" and sz: "sz < 2 ^ 64"
    and o2: "\<And>k. o2 k =
      (if \<exists>i. k = keyOf i \<and> unat i \<le> C \<and> (N < unat i \<or> unat i = N \<and> sz mod B = 0) then None
       else if 0 < r \<and> k = keyOf (of_nat bid) then Some (map (byte_at (content o1 k)) [0..<r])
       else o1 k)"
  shows "p < sz \<Longrightarrow> file_byte o2 f B p = file_byte o1 f B p"
    and "sz \<le> p \<Longrightarrow> p div B \<le> C \<Longrightarrow> file_byte o2 f B p = 0"
proof -
  define b :: u64 where "b = of_nat (p div B)"
  have ub: "unat b = p div B"
    using p div_le_dividend [of p B] unfolding b_def by (intro unat_of_nat_u64) linarith
  have "bid \<le> sz div B" by (simp add: bid_def)
  then have "bid \<le> sz" using div_le_dividend [of sz B] by linarith
  then have ubid: "unat (of_nat bid :: u64) = bid" using sz by (intro unat_of_nat_u64) linarith
  have inj: "keyOf i = keyOf j \<longleftrightarrow> i = j" for i j using keys getKey_inj by metis
  have b_bid: "b = of_nat bid \<longleftrightarrow> p div B = bid" using ub ubid b_def by metis
  have o2b: "o2 (keyOf b) =
      (if p div B \<le> C \<and> (N < p div B \<or> p div B = N \<and> sz mod B = 0) then None
       else if 0 < r \<and> p div B = bid then Some (map (byte_at (content o1 (keyOf b))) [0..<r]) else o1 (keyOf b))"
    by (auto simp: o2 inj ub b_bid)
  have fb: "file_byte ob f B p = byte_at (content ob (keyOf b)) (p mod B)" for ob
    by (simp add: file_byte_def keys b_def)
  have cutb: "byte_at (map (byte_at c) [0..<n]) j = (if j < n then byte_at c j else 0)" for c j n
    by (simp add: byte_at_def [of "map _ _"])
  have lt: "p mod B < B" using B by simp
  {
    assume "p < sz"
    then have "p div B < N \<or> p div B = N \<and> p mod B < sz mod B"
      using B unfolding N_def by (metis div_le_mono div_mult_mod_eq le_eq_less_or_eq nat_add_left_cancel_less)
    then show "file_byte o2 f B p = file_byte o1 f B p"
      using lt by (auto simp: fb content_def o2b cutb r_def bid_def N_def split: if_splits)
  next
    assume "sz \<le> p" and "p div B \<le> C"
    then have "N < p div B \<or> p div B = N \<and> sz mod B \<le> p mod B"
      using B unfolding N_def by (metis div_le_mono div_mult_mod_eq le_eq_less_or_eq nat_add_left_cancel_le)
    then show "file_byte o2 f B p = 0"
      using \<open>p div B \<le> C\<close> by (auto simp: fb content_def o2b cutb r_def bid_def N_def)
  }
qed

text \<open>The ids of the blocks a truncation deletes.\<close>

lemma truncate_ids:
  fixes sz B :: u64 and C :: nat
  defines "del \<equiv> filter (\<lambda>i. i > getBlockId sz B \<or> i = getBlockId sz B \<and> getBlockOffset sz B = 0)
    (map of_nat [0..<Suc C])"
  assumes "C < 2 ^ 64 - 1"
  shows "i \<in> set del \<longleftrightarrow> unat i \<le> C \<and>
      (unat sz div unat B < unat i \<or> unat i = unat sz div unat B \<and> unat sz mod unat B = 0)"
    and "length del \<le> Suc C - unat sz div unat B"
proof -
  have small: "unat (of_nat n :: u64) = n" if "n < Suc C" for n
    using that assms(2) by (intro unat_of_nat_u64) linarith
  have eq: "i = getBlockId sz B \<longleftrightarrow> unat i = unat sz div unat B" for i
    by (metis unat_getBlockId word_unat_eq_iff)
  have "i \<in> set (map of_nat [0..<Suc C]) \<longleftrightarrow> unat i \<le> C" for i :: u64
    using small by (auto simp: less_Suc_eq_le simp del: upt_Suc intro!: image_eqI [of _ _ "unat i"])
  then show "i \<in> set del \<longleftrightarrow> unat i \<le> C \<and>
      (unat sz div unat B < unat i \<or> unat i = unat sz div unat B \<and> unat sz mod unat B = 0)"
    by (auto simp: del_def getBlockOffset_eq_0 eq word_less_nat_alt unat_getBlockId simp del: upt_Suc)
  have "length del = card {n. n < Suc C \<and>
      (of_nat n > getBlockId sz B \<or> of_nat n = getBlockId sz B \<and> getBlockOffset sz B = 0)}"
    by (simp add: del_def length_filter_conv_card del: upt_Suc cong: conj_cong)
  also have "\<dots> \<le> card {unat sz div unat B..<Suc C}"
    by (intro card_mono) (auto simp: eq word_less_nat_alt unat_getBlockId small)
  finally show "length del \<le> Suc C - unat sz div unat B" by simp
qed

context replacing_store
begin

lemma truncateBlock_cuts:
  assumes "ready (store st)" and "0 < r" and "unat r \<le> 2 ^ 63"
  shows "\<exists>st'. truncateBlock h key r st = (Inr (), st') \<and> ready (store st') \<and> m_locks st' = m_locks st - {key} \<and>
    obj (store st') = (obj (store st))(key \<mapsto> map (byte_at (content (obj (store st)) key)) [0..<unat r])"
proof -
  obtain st1 where r: "readBlock_object h key 0 r (lock key st) =
      (Inr (take (unat r) (content (obj (store st)) key)), st1)"
    "ready (store st1)" "obj (store st1) = obj (store st)" "m_locks st1 = insert key (m_locks st)"
    using readBlock_object_reads [of "lock key st" r 0 key] assms by auto
  have fill: "fillToSize (take (unat r) b) r = map (byte_at b) [0..<unat r]" for b
    using fillToSize_range [of r 0 b] by simp
  show ?thesis
    using put_replaces [OF r(2), of key "map (byte_at (content (obj (store st)) key)) [0..<unat r]"] r
    by (auto simp: truncateBlock_def fill putObject_state_def)
qed

lemma truncate_truncates:
  fixes f sz currentSize B
  defines "C \<equiv> unat currentSize div unat B" and "N \<equiv> unat sz div unat B"
  assumes "ready (store st)" and B: "0 < B" "unat B \<le> 2 ^ 63" and k0: "getKey f 0 = Inr k0"
    and cur: "sz \<noteq> currentSize" "C < 2 ^ 64 - 1" "C < N + MAX_DELETE_OBJECTS"
  shows "\<exists>st'. truncate_kv h B f sz currentSize st = Some (Inr (), st') \<and> ready (store st') \<and>
    m_locks st' \<subseteq> m_locks st \<and>
    (\<forall>p < 2 ^ 64. (p < unat sz \<longrightarrow> file_byte (obj (store st')) f (unat B) p = file_byte (obj (store st)) f (unat B) p) \<and>
       (unat sz \<le> p \<and> p div unat B \<le> C \<longrightarrow> file_byte (obj (store st')) f (unat B) p = 0))"
proof -
  obtain keyOf where keys: "\<And>i. getKey f i = Inr (keyOf i)" using getKey_total [OF k0] by metis
  define whole where "whole = (getBlockOffset sz B = 0 \<and> getBlockId sz B > 0)"
  define bid where "bid = (if whole then getBlockId sz B - 1 else getBlockId sz B)"
  define r where "r = (if whole then B else getBlockOffset sz B)"
  define del where "del = filter (\<lambda>i. i > getBlockId sz B \<or> i = getBlockId sz B \<and> getBlockOffset sz B = 0)
    (map of_nat [0..<Suc C])"
  have ids: "objectIdLoop 0 (getBlockId currentSize B) = Some (map of_nat [0..<Suc C])"
    using objectIdLoop_upto [of "getBlockId currentSize B" 0] cur(2) by (simp add: word_nat C_def)
  have del: "i \<in> set del \<longleftrightarrow> unat i \<le> C \<and> (N < unat i \<or> unat i = N \<and> unat sz mod unat B = 0)" for i
    using truncate_ids(1) [OF cur(2)] by (simp add: del_def N_def)
  have len: "length (map keyOf del) \<le> MAX_DELETE_OBJECTS"
    using truncate_ids(2) [OF cur(2), of sz B] cur(3) unfolding del_def [symmetric] N_def [symmetric] by simp
  have whole: "whole \<longleftrightarrow> unat sz mod unat B = 0 \<and> 0 < N"
    by (simp add: whole_def N_def word_less_nat_alt getBlockOffset_eq_0 unat_getBlockId)
  have r: "unat r = (if unat sz mod unat B = 0 \<and> 0 < N then unat B else unat sz mod unat B)"
    using whole by (simp add: r_def word_nat)
  have bid: "bid = of_nat (if unat sz mod unat B = 0 \<and> 0 < N then N - 1 else N)"
    using whole by (cases whole) (simp_all add: bid_def N_def unat_getBlockId [symmetric] of_nat_diff)
  have "unat r \<le> unat B" using r B(1) by (simp add: word_less_nat_alt less_imp_le)
  then have r63: "unat r \<le> 2 ^ 63" using B(2) by linarith
  have cond: "r > 0 \<or> getBlockId sz B > 0 \<longleftrightarrow> 0 < r"
    using r B(1) by (auto simp: word_less_nat_alt unat_getBlockId N_def)
  define o1 where "o1 = (if 0 < r then (obj (store st))(keyOf bid \<mapsto> map (byte_at (content (obj (store st)) (keyOf bid))) [0..<unat r])
    else obj (store st))"
  obtain st1 where t: "(if r > 0 \<or> getBlockId sz B > 0 then truncateBlock h (keyOf bid) r st else (Inr (), st)) = (Inr (), st1)"
    and st1: "ready (store st1)" "m_locks st1 \<subseteq> m_locks st" "obj (store st1) = o1"
    using truncateBlock_cuts [OF assms(3) _ r63, of "keyOf bid"] assms(3) unfolding cond o1_def by (cases "0 < r") auto
  obtain st2 where d: "(if map keyOf del \<noteq> [] then deleteObjects_state h (map keyOf del) st1 else (Inr (), st1)) = (Inr (), st2)"
    and st2: "ready (store st2)" "m_locks st2 = m_locks st1"
      "obj (store st2) = (\<lambda>k. if k \<in> set (map keyOf del) then None else o1 k)"
    using delete_law [OF st1(1) len] st1(1,3) by (cases "del = []") (auto simp: deleteObjects_state_def)
  have "truncate_kv h B f sz currentSize st = Some (Inr (), st2)"
    using cur(1) B(1) [unfolded word_gt_0]
    by (simp only: truncate_kv_def Let_def ids Option.bind.simps del_def [symmetric] getKeys_map [OF keys] keys
        sum.case whole_def [symmetric] bid_def [symmetric] r_def [symmetric] t d prod.case if_False) simp
  moreover have "obj (store st2) k =
      (if \<exists>i. k = keyOf i \<and> unat i \<le> C \<and> (N < unat i \<or> unat i = N \<and> unat sz mod unat B = 0) then None
       else if 0 < unat r \<and> k = keyOf bid then Some (map (byte_at (content (obj (store st)) k)) [0..<unat r])
       else obj (store st) k)" for k
    using st2(3) del by (auto simp: o1_def word_less_nat_alt)
  note file_byte_truncated [OF keys _ _ _ this [unfolded r bid N_def]]
  ultimately show ?thesis
    using st2 st1(2) B(1) by (intro exI [of _ st2]) (auto simp: word_less_nat_alt)
qed

end

context in_place_store
begin

text \<open>
  Putting the head of a block back in place changes no byte of it: the bytes past the new
  end stay where they are.
\<close>

lemma truncateBlock_keeps:
  assumes "ready (store st)" and "0 < r" and "unat r \<le> 2 ^ 63"
  shows "\<exists>st'. truncateBlock h key r st = (Inr (), st') \<and> ready (store st') \<and>
    (\<forall>k i. byte_at (content (obj (store st')) k) i = byte_at (content (obj (store st)) k) i)"
proof -
  let ?old = "content (obj (store st)) key"
  obtain st1 where r: "readBlock_object h key 0 r (lock key st) = (Inr (take (unat r) ?old), st1)"
    "ready (store st1)" "obj (store st1) = obj (store st)"
    using readBlock_object_reads [of "lock key st" r 0 key] assms by auto
  have fill: "fillToSize (take (unat r) ?old) r = map (byte_at ?old) [0..<unat r]"
    using fillToSize_range [of r 0 ?old] by simp
  obtain s' c where p: "putObject h key (map (byte_at ?old) [0..<unat r]) 0 (store st1) = (Inr (unat r), s')" "ready s'"
    "obj s' = (obj (store st))(key \<mapsto> c)"
    and c: "\<And>i. byte_at c i = (if i < unat r then byte_at (map (byte_at ?old) [0..<unat r]) i else byte_at ?old i)"
    using put_overlays [OF r(2), of key "map (byte_at ?old) [0..<unat r]" 0] r(3) by auto
  have "byte_at c i = byte_at ?old i" for i by (simp add: c byte_at_def [of "map _ _"])
  then have "byte_at (content (obj s') k) i = byte_at (content (obj (store st)) k) i" for k i
    using p(3) by (cases "k = key") (simp_all add: content_def [of _ k])
  then show ?thesis
    using p(1,2) r(1) by (simp add: truncateBlock_def fill putObject_state_def)
qed

lemma truncate_in_block_keeps:
  assumes "ready (store st)" and B: "0 < B" "unat B \<le> 2 ^ 63" and k0: "getKey f 0 = Inr k0"
    and cur: "sz \<noteq> currentSize" "unat currentSize div unat B < 2 ^ 64 - 1"
      "unat sz div unat B = unat currentSize div unat B" "unat sz mod unat B \<noteq> 0"
  shows "\<exists>st'. truncate_kv h B f sz currentSize st = Some (Inr (), st') \<and> ready (store st') \<and>
    file_byte (obj (store st')) f = file_byte (obj (store st)) f"
proof -
  obtain keyOf where keys: "\<And>i. getKey f i = Inr (keyOf i)" using getKey_total [OF k0] by metis
  let ?C = "unat currentSize div unat B" and ?r = "getBlockOffset sz B"
  have ids: "objectIdLoop 0 (getBlockId currentSize B) = Some (map of_nat [0..<Suc ?C])"
    using objectIdLoop_upto [of "getBlockId currentSize B" 0] cur(2) by (simp add: word_nat)
  define del where "del = filter (\<lambda>i. i > getBlockId sz B \<or> i = getBlockId sz B \<and> getBlockOffset sz B = 0)
    (map of_nat [0..<Suc ?C])"
  have "i \<notin> set del" for i using truncate_ids(1) [OF cur(2), of i sz B] cur(3,4) unfolding del_def [symmetric] by auto
  then have del: "del = []" by (cases del) auto
  have off: "getBlockOffset sz B \<noteq> 0" using cur(4) by (simp add: getBlockOffset_eq_0)
  have "unat ?r < unat B" using B(1) by (simp add: word_nat word_less_nat_alt)
  then have r: "0 < ?r" "unat ?r \<le> 2 ^ 63" using off B(2) by (simp_all add: word_gt_0)
  obtain st1 where t: "truncateBlock h (keyOf (getBlockId sz B)) ?r st = (Inr (), st1)" "ready (store st1)"
    and eq: "\<And>k i. byte_at (content (obj (store st1)) k) i = byte_at (content (obj (store st)) k) i"
    using truncateBlock_keeps [OF assms(1) r] by blast
  have "truncate_kv h B f sz currentSize st = Some (Inr (), st1)"
    unfolding truncate_kv_def Let_def ids Option.bind.simps del_def [symmetric] del getKeys.simps sum.case
    using cur(1) B(1) off t(1) by (simp add: keys word_gt_0)
  moreover have "file_byte (obj (store st1)) f = file_byte (obj (store st)) f"
    by (simp add: file_byte_def fun_eq_iff eq keys)
  ultimately show ?thesis using t(2) by blast
qed

end

end
