(* ===== verification/StorageBase.thy ===== *)
theory StorageBase
  imports Prelude
begin

unbundle bit_operations_syntax

text \<open>
  \<^verbatim>\<open>src/include/helpers/storageHelper.h\<close> and \<^verbatim>\<open>src/src/storageHelper.cc\<close>: what every
  storage helper shares. Retrying an operation, the translation between open flags and
  POSIX masks, the parameters of a helper, the operations a helper does not override,
  and the default \<^verbatim>\<open>FileHandle::multiwrite\<close>.
\<close>

section \<open>Retrying\<close>

definition IO_RETRY_COUNT :: nat where "IO_RETRY_COUNT = 4"
definition IO_RETRY_INITIAL_DELAY :: nat where "IO_RETRY_INITIAL_DELAY = 10"
definition IO_RETRY_DELAY_BACKOFF_FACTOR :: nat where "IO_RETRY_DELAY_BACKOFF_FACTOR = 5"

text \<open>
  The loop of \<^verbatim>\<open>retry\<close> after a call returned \<open>ret\<close>: \<open>left\<close> is \<open>retryCount - retryIt\<close>. It gives
  the value returned, the delays slept (in milliseconds) and the state after the calls.
\<close>

fun retryLoop ::
  "('s \<Rightarrow> 'r \<times> 's) \<Rightarrow> ('r \<Rightarrow> bool) \<Rightarrow> nat \<Rightarrow> nat \<Rightarrow> nat \<Rightarrow> nat \<Rightarrow> 'r \<Rightarrow> 's \<Rightarrow> 'r \<times> nat list \<times> 's" where
  "retryLoop op condition retryInitialDelay retryBackoff retryIt 0 ret s = (ret, [], s)"
| "retryLoop op condition retryInitialDelay retryBackoff retryIt (Suc left) ret s =
     (if condition ret then (ret, [], s)
      else (case op s of (ret', s') \<Rightarrow>
             (case retryLoop op condition retryInitialDelay retryBackoff (Suc retryIt) left ret' s' of
                (r, sleeps, s'') \<Rightarrow>
                  (r, retryInitialDelay * retryBackoff ^ retryIt # sleeps, s''))))"

definition retry ::
  "('s \<Rightarrow> 'r \<times> 's) \<Rightarrow> ('r \<Rightarrow> bool) \<Rightarrow> nat \<Rightarrow> nat \<Rightarrow> nat \<Rightarrow> 's \<Rightarrow> 'r \<times> nat list \<times> 's" where
  "retry op condition retryCount retryInitialDelay retryBackoff s =
     (case op s of (ret, s') \<Rightarrow>
        retryLoop op condition retryInitialDelay retryBackoff 0 retryCount ret s')"

text \<open>The call with the default arguments, as every client makes it: its result and state.\<close>

definition retry_io :: "('s \<Rightarrow> 'r \<times> 's) \<Rightarrow> ('r \<Rightarrow> bool) \<Rightarrow> 's \<Rightarrow> 'r \<times> 's" where
  "retry_io op condition s =
     (case retry op condition IO_RETRY_COUNT IO_RETRY_INITIAL_DELAY IO_RETRY_DELAY_BACKOFF_FACTOR s of
        (ret, _, s') \<Rightarrow> (ret, s'))"

definition makePosixError :: "int \<Rightarrow> int" where
  "makePosixError posixCode = \<bar>posixCode\<bar>"

definition makePosixException :: "int \<Rightarrow> cpp_exn" where
  "makePosixException posixCode = system_error (makePosixError posixCode)"

section \<open>Flags\<close>

datatype Flag =
    NONBLOCK | APPEND | ASYNC | FSYNC | NOFOLLOW | CREAT | TRUNC | EXCL
  | RDONLY | WRONLY | RDWR | IFREG | IFCHR | IFBLK | IFIFO | IFSOCK

text \<open>The values of the POSIX macros on Linux.\<close>

abbreviation O_ACCMODE :: u32 where "O_ACCMODE \<equiv> 0x3"

definition g_flagTranslation :: "(Flag \<times> u32) list" where
  "g_flagTranslation =
     [(NONBLOCK, 0x800), (APPEND, 0x400), (ASYNC, 0x2000), (FSYNC, 0x101000), (NOFOLLOW, 0x20000),
      (CREAT, 0x40), (TRUNC, 0x200), (EXCL, 0x80), (RDONLY, 0x0), (WRONLY, 0x1), (RDWR, 0x2),
      (IFREG, 0x8000), (IFCHR, 0x2000), (IFBLK, 0x6000), (IFIFO, 0x1000), (IFSOCK, 0xC000)]"

text \<open>
  An \<^verbatim>\<open>unordered_map\<close> built from a list with a repeated key keeps the first entry:
  \<open>O_ASYNC\<close> and \<open>S_IFCHR\<close> are both \<open>0x2000\<close>.
\<close>

definition g_maskTranslation_init :: "(u32 \<times> Flag) list" where
  "g_maskTranslation_init =
     [(0x800, NONBLOCK), (0x400, APPEND), (0x2000, ASYNC), (0x101000, FSYNC), (0x20000, NOFOLLOW),
      (0x40, CREAT), (0x200, TRUNC), (0x80, EXCL), (0x0, RDONLY), (0x1, WRONLY), (0x2, RDWR),
      (0x8000, IFREG), (0x2000, IFCHR), (0x6000, IFBLK), (0x1000, IFIFO), (0xC000, IFSOCK)]"

definition g_maskTranslation :: "u32 \<Rightarrow> Flag option" where
  "g_maskTranslation msk = map_of g_maskTranslation_init msk"

text \<open>
  A \<^verbatim>\<open>FlagsSet\<close> is a set; the translation of its elements is or-ed together, in the order
  of the table here (the order in which the set is iterated does not matter to \<open>OR\<close>).
\<close>

definition flagsToMask :: "Flag set \<Rightarrow> u32" where
  "flagsToMask flags =
     foldl (\<lambda>value (flag, m). if flag \<in> flags then value OR m else value) 0 g_flagTranslation"

definition maskToFlags :: "u32 \<Rightarrow> Flag set fut" where
  "maskToFlags msk =
     (case g_maskTranslation (msk AND O_ACCMODE) of
        None \<Rightarrow> Inl out_of_range
      | Some access \<Rightarrow>
          Inr (insert access
            (set (map (\<lambda>(m, _). the (g_maskTranslation m))
              (filter (\<lambda>(entry_mask, _). case g_maskTranslation entry_mask of
                   None \<Rightarrow> False
                 | Some entry_flag \<Rightarrow>
                     entry_flag \<noteq> RDONLY \<and> entry_flag \<noteq> WRONLY \<and> entry_flag \<noteq> RDWR \<and>
                     entry_mask AND msk = entry_mask) g_maskTranslation_init)))))"

section \<open>Parameters\<close>

type_synonym Params = "string \<Rightarrow> string option"

text \<open>\<open>lexical_cast\<close> stands for \<^verbatim>\<open>boost::lexical_cast<Ret>\<close>; \<open>None\<close> is \<^verbatim>\<open>bad_lexical_cast\<close>.\<close>

definition getParam :: "(string \<Rightarrow> 'r option) \<Rightarrow> Params \<Rightarrow> string \<Rightarrow> 'r fut" where
  "getParam lexical_cast params key =
     (case params key of
        None \<Rightarrow> Inl (MissingParameterException key)
      | Some v \<Rightarrow> (case lexical_cast v of
                    None \<Rightarrow> Inl (BadParameterException key v)
                  | Some r \<Rightarrow> Inr r))"

definition getParam_def_val :: "(string \<Rightarrow> 'r option) \<Rightarrow> Params \<Rightarrow> string \<Rightarrow> 'r \<Rightarrow> 'r fut" where
  "getParam_def_val lexical_cast params key dflt =
     (case params key of
        None \<Rightarrow> Inr dflt
      | Some v \<Rightarrow> (case lexical_cast v of
                    None \<Rightarrow> Inl (BadParameterException key v)
                  | Some r \<Rightarrow> Inr r))"

text \<open>The specialisations for strings do not cast.\<close>

definition getParam_string :: "Params \<Rightarrow> string \<Rightarrow> string fut" where
  "getParam_string params key =
     (case params key of None \<Rightarrow> Inl (MissingParameterException key) | Some v \<Rightarrow> Inr v)"

definition getParam_string_def :: "Params \<Rightarrow> string \<Rightarrow> string \<Rightarrow> string" where
  "getParam_string_def params key dflt = (case params key of None \<Rightarrow> dflt | Some v \<Rightarrow> v)"

text \<open>What follows a parameter that could be read.\<close>

definition and_then :: "'a fut \<Rightarrow> ('a \<Rightarrow> 'b fut) \<Rightarrow> 'b fut" where
  "and_then r f = (case r of Inl e \<Rightarrow> Inl e | Inr v \<Rightarrow> f v)"

section \<open>Operations a helper does not override\<close>

datatype storage_op =
    op_getattr | op_access | op_readlink | op_readdir | op_mknod | op_mkdir | op_unlink | op_rmdir
  | op_symlink | op_rename | op_link | op_chmod | op_chown | op_truncate
  | op_getxattr | op_setxattr | op_removexattr | op_listxattr

definition default_op :: "storage_op \<Rightarrow> unit fut" where
  "default_op operation =
     (case operation of op_access \<Rightarrow> Inr () | _ \<Rightarrow> Inl (system_error ENOSYS))"

section \<open>Writing several buffers\<close>

text \<open>
  One continuation per buffer, chained on the future of the total written: \<open>should\<close> is
  \<open>shouldHaveWrittenSoFar\<close> when the continuation was built, \<open>acc\<close> the future so far.
\<close>

fun multiwriteFrom ::
  "(int \<Rightarrow> bytes \<Rightarrow> 's \<Rightarrow> nat fut \<times> 's) \<Rightarrow> nat \<Rightarrow> nat fut \<Rightarrow> (int \<times> bytes) list \<Rightarrow> 's \<Rightarrow> nat fut \<times> 's" where
  "multiwriteFrom write_op should acc [] s = (acc, s)"
| "multiwriteFrom write_op should acc ((offset, buf) # buffs) s =
     (let (acc', s') =
        (case acc of
           Inl e \<Rightarrow> (Inl e, s)
         | Inr wroteSoFar \<Rightarrow>
             (if should < wroteSoFar then (Inr wroteSoFar, s)
              else (case write_op offset buf s of
                      (Inl e, s') \<Rightarrow> (Inl e, s')
                    | (Inr wrote, s') \<Rightarrow> (Inr (wroteSoFar + wrote), s'))))
      in multiwriteFrom write_op (should + length buf) acc' buffs s')"

definition multiwrite ::
  "(int \<Rightarrow> bytes \<Rightarrow> 's \<Rightarrow> nat fut \<times> 's) \<Rightarrow> (int \<times> bytes) list \<Rightarrow> 's \<Rightarrow> nat fut \<times> 's" where
  "multiwrite write_op buffs s = multiwriteFrom write_op 0 (Inr 0) buffs s"

section \<open>Lemmas\<close>

text \<open>The result and the state of the \<open>n\<close>-th call of an operation repeated from state \<open>s\<close>.\<close>

fun nthCall :: "('s \<Rightarrow> 'r \<times> 's) \<Rightarrow> nat \<Rightarrow> 's \<Rightarrow> 'r \<times> 's" where
  "nthCall op 0 s = op s"
| "nthCall op (Suc n) s = op (snd (nthCall op n s))"

lemma retryLoop_calls:
  assumes "(ret, s1) = nthCall op i s"
  shows "\<exists>k. i \<le> k \<and> k \<le> i + n \<and>
    retryLoop op condition d b i n ret s1 = (fst (nthCall op k s), map (\<lambda>j. d * b ^ j) [i..<k], snd (nthCall op k s)) \<and>
    (\<forall>j. i \<le> j \<and> j < k \<longrightarrow> \<not> condition (fst (nthCall op j s))) \<and>
    (k < i + n \<longrightarrow> condition (fst (nthCall op k s)))"
  using assms
proof (induction n arbitrary: i ret s1)
  case 0
  then show ?case by (intro exI [of _ i]) (auto simp: prod_eq_iff)
next
  case (Suc n)
  have ret: "ret = fst (nthCall op i s)" "s1 = snd (nthCall op i s)" using Suc.prems by (auto simp: prod_eq_iff)
  show ?case
  proof (cases "condition ret")
    case True
    then show ?thesis using ret by (intro exI [of _ i]) auto
  next
    case False
    obtain ret' s' where c: "op s1 = (ret', s')" by force
    then have "(ret', s') = nthCall op (Suc i) s" using ret by simp
    from Suc.IH [OF this] obtain k where k: "Suc i \<le> k" "k \<le> Suc i + n"
      "retryLoop op condition d b (Suc i) n ret' s' = (fst (nthCall op k s), map (\<lambda>j. d * b ^ j) [Suc i..<k], snd (nthCall op k s))"
      "\<forall>j. Suc i \<le> j \<and> j < k \<longrightarrow> \<not> condition (fst (nthCall op j s))"
      "k < Suc i + n \<longrightarrow> condition (fst (nthCall op k s))" by blast
    have "\<not> condition (fst (nthCall op j s))" if "i \<le> j" "j < k" for j
      using that False ret k(4) by (cases "j = i") auto
    then show ?thesis using False c k(1-3,5) by (intro exI [of _ k]) (auto simp: upt_conv_Cons)
  qed
qed

lemma retry_io_first:
  assumes "op s = (ret, s')" and "condition ret"
  shows "retry_io op condition s = (ret, s')"
  using assms by (simp add: retry_io_def retry_def IO_RETRY_COUNT_def eval_nat_numeral)

text \<open>A write never reports more than it was given.\<close>

definition bounded_write :: "(int \<Rightarrow> bytes \<Rightarrow> 's \<Rightarrow> nat fut \<times> 's) \<Rightarrow> bool" where
  "bounded_write w \<longleftrightarrow> (\<forall>off buf s n s'. w off buf s = (Inr n, s') \<longrightarrow> n \<le> length buf)"

text \<open>Writing every buffer in turn until one fails, whatever number of bytes each write reports.\<close>

fun write_each :: "(int \<Rightarrow> bytes \<Rightarrow> 's \<Rightarrow> nat fut \<times> 's) \<Rightarrow> nat \<Rightarrow> (int \<times> bytes) list \<Rightarrow> 's \<Rightarrow> nat fut \<times> 's" where
  "write_each w wrote0 [] s = (Inr wrote0, s)"
| "write_each w wrote0 ((off, buf) # bufs) s =
     (case w off buf s of
        (Inl e, s') \<Rightarrow> (Inl e, s')
      | (Inr n, s') \<Rightarrow> write_each w (wrote0 + n) bufs s')"

lemma multiwriteFrom_failed: "multiwriteFrom w should (Inl e) bufs s = (Inl e, s)"
  by (induction bufs arbitrary: should) auto

lemma multiwriteFrom_writes_each:
  assumes "bounded_write w" and "wrote0 \<le> should"
  shows "multiwriteFrom w should (Inr wrote0) bufs s = write_each w wrote0 bufs s"
  using assms(2)
proof (induction bufs arbitrary: should wrote0 s)
  case (Cons b bufs)
  obtain off buf where b: "b = (off, buf)" by force
  obtain r s' where w: "w off buf s = (r, s')" by force
  show ?case
  proof (cases r)
    case (Inl e)
    then show ?thesis using Cons.prems w by (simp add: b multiwriteFrom_failed)
  next
    case (Inr n)
    then have "n \<le> length buf" using assms(1) w unfolding bounded_write_def by blast
    then show ?thesis using Cons.prems w Inr Cons.IH [of "wrote0 + n" "should + length buf" s'] by (simp add: b)
  qed
qed simp

text \<open>A mask holds exactly the bits of the translations of its flags.\<close>

lemma bit_foldl_or:
  "bit (foldl (\<lambda>v (f, m). if f \<in> F then v OR m else v) (v :: u32) tab) n \<longleftrightarrow>
     bit v n \<or> (\<exists>(f, m) \<in> set tab. f \<in> F \<and> bit m n)"
proof (induction tab arbitrary: v)
  case (Cons e tab)
  then show ?case by (cases e) (simp add: bit_or_iff)
qed simp

lemma bit_flagsToMask: "bit (flagsToMask F) n \<longleftrightarrow> (\<exists>(f, m) \<in> set g_flagTranslation. f \<in> F \<and> bit m n)"
  by (simp add: flagsToMask_def bit_foldl_or)

lemma and_eq_iff_bits: "(m :: u32) AND v = m \<longleftrightarrow> (\<forall>n. bit m n \<longrightarrow> bit v n)"
proof
  assume "m AND v = m"
  then have "bit m n \<longleftrightarrow> bit m n \<and> bit v n" for n using bit_and_iff [of m v n] by simp
  then show "\<forall>n. bit m n \<longrightarrow> bit v n" by blast
next
  assume "\<forall>n. bit m n \<longrightarrow> bit v n"
  then show "m AND v = m" by (intro bit_eqI) (auto simp: bit_and_iff)
qed

lemma translation_inverse:
  assumes "m \<in> fst ` set g_maskTranslation_init"
  obtains f where "g_maskTranslation m = Some f" and "(f, m) \<in> set g_flagTranslation"
    and "f \<in> {RDONLY, WRONLY, RDWR} \<longleftrightarrow> m \<in> {0, 1, 2}"
proof -
  have "list_all (\<lambda>(m, _). case g_maskTranslation m of
      None \<Rightarrow> False
    | Some f \<Rightarrow> (f, m) \<in> set g_flagTranslation \<and> (f \<in> {RDONLY, WRONLY, RDWR} \<longleftrightarrow> m \<in> {0, 1, 2}))
    g_maskTranslation_init"
    by code_simp
  then show thesis using assms that by (auto simp: list_all_iff split: option.splits)
qed

lemma translation_tables:
  assumes "(f, m) \<in> set g_flagTranslation"
  shows "m \<in> fst ` set g_maskTranslation_init"
proof -
  have "snd ` set g_flagTranslation \<subseteq> fst ` set g_maskTranslation_init"
    by (simp add: g_maskTranslation_init_def g_flagTranslation_def)
  then show ?thesis using assms by force
qed

lemma translation_functional:
  assumes "(f, m) \<in> set g_flagTranslation" and "(f, m') \<in> set g_flagTranslation"
  shows "m = m'"
proof (rule eq_key_imp_eq_value [OF _ assms])
  show "distinct (map fst g_flagTranslation)" by (simp add: g_flagTranslation_def)
qed

lemma bit_O_ACCMODE: "bit O_ACCMODE n \<longleftrightarrow> n = 0 \<or> n = 1"
proof -
  have "O_ACCMODE = mask 2" by (simp add: mask_eq_exp_minus_1)
  moreover have "bit (mask 2 :: u32) n \<longleftrightarrow> n < 2" by (auto simp: bit_mask_iff)
  ultimately have "bit O_ACCMODE n \<longleftrightarrow> n < 2" by (simp only:)
  then show ?thesis by linarith
qed

lemma flagsToMask_access:
  "flagsToMask F AND O_ACCMODE = (if WRONLY \<in> F then 1 else 0) OR (if RDWR \<in> F then 2 else 0)"
proof (rule bit_eqI)
  fix n
  have bits: "bit (flagsToMask F) 0 \<longleftrightarrow> WRONLY \<in> F" "bit (flagsToMask F) 1 \<longleftrightarrow> RDWR \<in> F"
    by (simp_all add: bit_flagsToMask g_flagTranslation_def)
  have "\<not> bit (1 :: u32) n \<and> \<not> bit (2 :: u32) n" if "n \<noteq> 0" "n \<noteq> 1"
    using that by (auto simp: bit_1_iff bit_2_iff)
  then show "bit (flagsToMask F AND O_ACCMODE) n =
      bit ((if WRONLY \<in> F then 1 else 0) OR (if RDWR \<in> F then 2 else 0) :: u32) n"
    unfolding bit_and_iff bit_O_ACCMODE using bits
    by (cases "n = 0"; cases "n = 1") (auto simp: bit_or_iff)
qed

lemma maskToFlags_value:
  assumes "g_maskTranslation (v AND O_ACCMODE) = Some acc"
  shows "maskToFlags v = Inr (insert acc {f. \<exists>m \<in> fst ` set g_maskTranslation_init.
    g_maskTranslation m = Some f \<and> f \<notin> {RDONLY, WRONLY, RDWR} \<and> m AND v = m})"
  using assms unfolding maskToFlags_def by (force split: option.splits)

text \<open>The flags read back from a mask are written as the same mask.\<close>

lemma flags_mask_flags:
  assumes "\<not> (WRONLY \<in> F \<and> RDWR \<in> F)"
  obtains G where "maskToFlags (flagsToMask F) = Inr G" and "flagsToMask G = flagsToMask F"
proof -
  let ?M = "flagsToMask F"
  have a: "?M AND O_ACCMODE \<in> {0, 1, 2}" using assms by (auto simp: flagsToMask_access)
  then have "?M AND O_ACCMODE \<in> fst ` set g_maskTranslation_init" by (auto simp: g_maskTranslation_init_def)
  then obtain acc where acc: "g_maskTranslation (?M AND O_ACCMODE) = Some acc" "(acc, ?M AND O_ACCMODE) \<in> set g_flagTranslation"
    by (rule translation_inverse)
  define G where "G = insert acc {f. \<exists>m \<in> fst ` set g_maskTranslation_init.
    g_maskTranslation m = Some f \<and> f \<notin> {RDONLY, WRONLY, RDWR} \<and> m AND ?M = m}"
  have "bit (flagsToMask G) n \<longleftrightarrow> bit ?M n" for n
  proof
    assume "bit (flagsToMask G) n"
    then obtain f m where f: "(f, m) \<in> set g_flagTranslation" "f \<in> G" "bit m n" by (auto simp: bit_flagsToMask)
    show "bit ?M n"
    proof (cases "f = acc")
      case True
      then have "m = ?M AND O_ACCMODE" using translation_functional f(1) acc(2) by blast
      then show ?thesis using f(3) by (simp add: bit_and_iff)
    next
      case False
      then obtain m' where "m' \<in> fst ` set g_maskTranslation_init" "g_maskTranslation m' = Some f" "m' AND ?M = m'"
        using f(2) by (auto simp: G_def)
      then show ?thesis using f(1,3) translation_functional and_eq_iff_bits
        by (metis option.inject translation_inverse)
    qed
  next
    assume n: "bit ?M n"
    then obtain f m where f: "(f, m) \<in> set g_flagTranslation" "f \<in> F" "bit m n" by (auto simp: bit_flagsToMask)
    have sub: "m AND ?M = m" using f(1,2) by (auto simp: and_eq_iff_bits bit_flagsToMask)
    obtain f' where f': "g_maskTranslation m = Some f'" "(f', m) \<in> set g_flagTranslation"
        "f' \<in> {RDONLY, WRONLY, RDWR} \<longleftrightarrow> m \<in> {0, 1, 2}"
      using translation_inverse [OF translation_tables [OF f(1)]] by blast
    show "bit (flagsToMask G) n"
    proof (cases "f' \<in> {RDONLY, WRONLY, RDWR}")
      case False
      then have "f' \<in> G" using f'(1) sub translation_tables [OF f(1)] by (auto simp: G_def)
      then show ?thesis using f'(2) f(3) by (auto simp: bit_flagsToMask)
    next
      case True
      then have "n = 0 \<or> n = 1" using f'(3) f(3) by (auto simp: bit_1_iff bit_2_iff)
      then have "bit (?M AND O_ACCMODE) n" using n by (simp only: bit_and_iff bit_O_ACCMODE)
      moreover have "acc \<in> G" by (simp add: G_def)
      ultimately show ?thesis using acc(2) by (auto simp: bit_flagsToMask)
    qed
  qed
  then have "flagsToMask G = ?M" by (intro bit_eqI) simp
  then show thesis using that maskToFlags_value [OF acc(1)] by (auto simp: G_def)
qed

section \<open>Properties\<close>

text \<open>
  C9. \<^verbatim>\<open>retry\<close> makes between one and \<open>retryCount + 1\<close> calls. It returns the result of the
  first call that meets the condition, or of the last call made when none did, and between
  two calls it sleeps the initial delay multiplied by the backoff once more each time.
\<close>

theorem retry_calls:
  "\<exists>k \<le> retryCount.
     retry op condition retryCount retryInitialDelay retryBackoff s =
       (fst (nthCall op k s), map (\<lambda>j. retryInitialDelay * retryBackoff ^ j) [0..<k], snd (nthCall op k s)) \<and>
     (\<forall>j < k. \<not> condition (fst (nthCall op j s))) \<and>
     (k < retryCount \<longrightarrow> condition (fst (nthCall op k s)))"
proof -
  have "(fst (op s), snd (op s)) = nthCall op 0 s" by simp
  from retryLoop_calls [OF this, of retryCount condition retryInitialDelay retryBackoff]
  show ?thesis by (auto simp: retry_def split: prod.splits)
qed

theorem retry_calls_witness:
  "retry (\<lambda>n. (n, n + 1)) (\<lambda>r. r = (2 :: nat)) 4 10 5 0 = (2, [10, 50], 3)"
proof -
  let ?op = "\<lambda>n :: nat. (n, n + 1)"
  have call: "nthCall ?op k 0 = (k, k + 1)" for k by (induction k) simp_all
  obtain k where k: "retry ?op (\<lambda>r. r = 2) 4 10 5 0 = (fst (nthCall ?op k 0), map (\<lambda>j. 10 * 5 ^ j) [0..<k], snd (nthCall ?op k 0))"
    "\<forall>j < k. \<not> fst (nthCall ?op j 0) = 2" "k < 4 \<longrightarrow> fst (nthCall ?op k 0) = 2"
    using retry_calls [of 4 ?op "\<lambda>r. r = 2" 10 5 0] by blast
  have "\<not> 2 < k" using k(2) unfolding call fst_conv by blast
  then have "k = 2" using k(3) unfolding call fst_conv by linarith
  moreover have "map (\<lambda>j. 10 * 5 ^ j) [0..<2] = [10, 50 :: nat]" by (simp add: numeral_2_eq_2)
  ultimately show ?thesis using k(1) unfolding call by simp
qed

text \<open>
  Translating flags to a mask and reading the mask back gives flags that stand for the
  same mask, for every set of flags with a consistent access mode; reading it never throws.
\<close>

lemma flags_roundtrip:
  assumes "\<not> (WRONLY \<in> F \<and> RDWR \<in> F)"
  shows "\<exists>G. maskToFlags (flagsToMask F) = Inr G \<and> flagsToMask G = flagsToMask F"
  using flags_mask_flags [OF assms] by blast

text \<open>
  C11. \<^verbatim>\<open>FileHandle::multiwrite\<close> on a handle whose writes never report more than they were
  given writes every buffer in turn until one fails, and returns the sum of what they
  reported: a short write does not stop it, its guard never holds.
\<close>

theorem multiwrite_writes_each:
  assumes "bounded_write w"
  shows "multiwrite w buffs s = write_each w 0 buffs s"
  unfolding multiwrite_def by (rule multiwriteFrom_writes_each [OF assms order_refl])

theorem multiwrite_writes_each_witness:
  "multiwrite (\<lambda>off buf s. (Inr (min 1 (length buf)), s @ [off])) [(0, [1, 2]), (2, [3, 4])] [] = (Inr 2, [0, 2])"
proof -
  have "bounded_write (\<lambda>off buf s. (Inr (min 1 (length buf)), s @ [off]))" by (simp add: bounded_write_def)
  then show ?thesis by (simp add: multiwrite_writes_each)
qed

section \<open>Parameters that were read\<close>

lemma map_sum_Inr: "map_sum f g r = Inr y \<longleftrightarrow> (\<exists>x. r = Inr x \<and> y = g x)"
  by (cases r) auto

lemma and_then_Inr: "and_then r f = Inr y \<longleftrightarrow> (\<exists>x. r = Inr x \<and> f x = Inr y)"
  by (cases r) (simp_all add: and_then_def)

lemma getParam_string_Inr: "getParam_string params key = Inr v \<longleftrightarrow> params key = Some v"
  by (simp add: getParam_string_def split: option.split)

end
