(* ===== verification/ObjectStorages.thy ===== *)
theory ObjectStorages
  imports KvRefine StorageBase
begin

text \<open>
  The object storages behind the key-value adapter: \<^verbatim>\<open>src/src/s3Helper.cc\<close>,
  \<^verbatim>\<open>src/src/swiftHelper.cc\<close> and \<^verbatim>\<open>src/src/cephRadosHelper.cc\<close>. The client library of each
  service is a parameter: a record of the calls the helper makes.
\<close>

section \<open>Batches of deletions\<close>

text \<open>
  The loops \<^verbatim>\<open>for (offset = 0u; offset < keys.size(); offset += MAX_DELETE_OBJECTS)\<close>: the
  offsets they visit, and the batch each iteration takes. The batch starts at
  \<^verbatim>\<open>keys.begin()\<close> whatever the offset is. The 32-bit offset does not wrap for fewer than
  \<open>2^32\<close> keys.
\<close>

definition batchOffsets :: "nat \<Rightarrow> nat list" where
  "batchOffsets n = filter (\<lambda>offset. offset mod MAX_DELETE_OBJECTS = 0) [0..<n]"

definition deleteBatch :: "string list \<Rightarrow> nat \<Rightarrow> string list" where
  "deleteBatch keys offset =
     (let batchSize = min (length keys - offset) MAX_DELETE_OBJECTS in take batchSize keys)"

text \<open>Running calls one after the other until one throws.\<close>

fun for_each :: "('x \<Rightarrow> 's \<Rightarrow> unit fut \<times> 's) \<Rightarrow> 'x list \<Rightarrow> 's \<Rightarrow> unit fut \<times> 's" where
  "for_each f [] s = (Inr (), s)"
| "for_each f (x # xs) s =
     (case f x s of (Inl e, s') \<Rightarrow> (Inl e, s') | (Inr _, s') \<Rightarrow> for_each f xs s')"

section \<open>S3\<close>

text \<open>The error types of the AWS SDK the helper names, and any other.\<close>

datatype S3Errors =
    INVALID_PARAMETER_VALUE | MISSING_ACTION | SERVICE_UNAVAILABLE | NETWORK_CONNECTION
  | REQUEST_EXPIRED | ACCESS_DENIED | UNKNOWN | NO_SUCH_BUCKET | NO_SUCH_KEY | RESOURCE_NOT_FOUND
  | INTERNAL_FAILURE | INVALID_QUERY_PARAMETER | INVALID_PARAMETER_COMBINATION | SLOW_DOWN
  | THROTTLING | other_error nat

definition g_errors :: "S3Errors \<Rightarrow> int option" where
  "g_errors e =
     (case e of
        INVALID_PARAMETER_VALUE \<Rightarrow> Some EINVAL
      | MISSING_ACTION \<Rightarrow> Some EOPNOTSUPP
      | SERVICE_UNAVAILABLE \<Rightarrow> Some EHOSTUNREACH
      | NETWORK_CONNECTION \<Rightarrow> Some ENETUNREACH
      | REQUEST_EXPIRED \<Rightarrow> Some ETIMEDOUT
      | ACCESS_DENIED \<Rightarrow> Some EACCES
      | UNKNOWN \<Rightarrow> Some ENOENT
      | NO_SUCH_BUCKET \<Rightarrow> Some ENOENT
      | NO_SUCH_KEY \<Rightarrow> Some ENOENT
      | RESOURCE_NOT_FOUND \<Rightarrow> Some ENOENT
      | _ \<Rightarrow> None)"

definition S3_RETRY_ERRORS :: "S3Errors set" where
  "S3_RETRY_ERRORS =
     {INTERNAL_FAILURE, INVALID_QUERY_PARAMETER, INVALID_PARAMETER_COMBINATION,
      INVALID_PARAMETER_VALUE, REQUEST_EXPIRED, SERVICE_UNAVAILABLE, SLOW_DOWN, THROTTLING,
      NETWORK_CONNECTION}"

text \<open>The outcome of a call of the SDK: an error type or the result.\<close>

type_synonym 'a outcome = "S3Errors + 'a"

definition s3_getReturnCode :: "'a outcome \<Rightarrow> int" where
  "s3_getReturnCode outcome =
     (case outcome of
        Inr _ \<Rightarrow> 0
      | Inl e \<Rightarrow> (case g_errors e of None \<Rightarrow> EIO | Some err \<Rightarrow> err))"

definition s3_throwOnError :: "'a outcome \<Rightarrow> 'a fut" where
  "s3_throwOnError outcome =
     (case outcome of
        Inr v \<Rightarrow> Inr v
      | Inl _ \<Rightarrow> Inl (system_error (s3_getReturnCode outcome)))"

definition S3RetryCondition :: "'a outcome \<Rightarrow> bool" where
  "S3RetryCondition outcome = (case outcome of Inr _ \<Rightarrow> True | Inl e \<Rightarrow> e \<notin> S3_RETRY_ERRORS)"

text \<open>The requests: bucket, key and range; bucket, key and body; bucket and keys.\<close>

record 's s3_client =
  GetObject :: "string \<Rightarrow> string \<Rightarrow> string \<Rightarrow> 's \<Rightarrow> bytes outcome \<times> 's"
  PutObject :: "string \<Rightarrow> string \<Rightarrow> bytes \<Rightarrow> 's \<Rightarrow> unit outcome \<times> 's"
  DeleteObjects :: "string \<Rightarrow> string list \<Rightarrow> 's \<Rightarrow> unit outcome \<times> 's"

record 's s3_helper =
  m_client :: "'s s3_client"
  m_bucket :: string

definition s3_getObject :: "'s s3_helper \<Rightarrow> string \<Rightarrow> u64 \<Rightarrow> u64 \<Rightarrow> 's \<Rightarrow> bytes fut \<times> 's" where
  "s3_getObject h key offset sz s =
     (case retry_io (GetObject (m_client h) (m_bucket h) key
              (rangeToString (sint offset) (sint (offset + sz - 1)))) S3RetryCondition s of
        (outcome, s') \<Rightarrow> (s3_throwOnError outcome, s'))"

definition s3_putObject :: "'s s3_helper \<Rightarrow> string \<Rightarrow> bytes \<Rightarrow> u64 \<Rightarrow> 's \<Rightarrow> nat fut \<times> 's" where
  "s3_putObject h key buf offset s =
     (if offset \<noteq> 0 then (Inl assertion_failed, s)
      else (case retry_io (PutObject (m_client h) (m_bucket h) key buf) S3RetryCondition s of
              (outcome, s') \<Rightarrow> (map_sum id (\<lambda>_. length buf) (s3_throwOnError outcome), s')))"

text \<open>
  The request is moved into the first call: the later iterations send the bucket name a
  moved-from string holds, \<open>moved\<close>, which C++ leaves unspecified.
\<close>

definition s3_deleteObjects :: "string \<Rightarrow> 's s3_helper \<Rightarrow> string list \<Rightarrow> 's \<Rightarrow> unit fut \<times> 's" where
  "s3_deleteObjects moved h keys s =
     for_each (\<lambda>offset s.
       case retry_io (DeleteObjects (m_client h) (if offset = 0 then m_bucket h else moved)
              (deleteBatch keys offset)) S3RetryCondition s of
         (outcome, s') \<Rightarrow> (s3_throwOnError outcome, s')) (batchOffsets (length keys)) s"

definition S3Helper :: "string \<Rightarrow> 's s3_helper \<Rightarrow> 's kv_helper" where
  "S3Helper moved h =
     \<lparr>hasRandomAccess = False, getObject = s3_getObject h, putObject = s3_putObject h,
      deleteObjects = s3_deleteObjects moved h\<rparr>"

definition s3_regions :: "string list" where
  "s3_regions =
     [''us-east-2'', ''us-east-1'', ''us-west-1'', ''us-west-2'', ''ca-central-1'', ''ap-south-1'',
      ''ap-northeast-2'', ''ap-southeast-1'', ''ap-southeast-2'', ''ap-northeast-1'',
      ''eu-central-1'', ''eu-west-1'', ''eu-west-2'', ''sa-east-1'']"

definition getRegion :: "string \<Rightarrow> string" where
  "getRegion hostname =
     (case filter (\<lambda>region. contains region hostname) s3_regions of
        [] \<Rightarrow> ''us-east-1''
      | region # _ \<Rightarrow> region)"

section \<open>Swift\<close>

definition swift_errors :: "int \<Rightarrow> int option" where
  "swift_errors = map_of [(404, ENOENT), (416, ENOENT), (408, ETIMEDOUT), (411, EINVAL), (401, EACCES)]"

definition SWIFT_RETRY_ERRORS :: "int set" where
  "SWIFT_RETRY_ERRORS = {408, 410, 500, 502, 503, 504}"

record 'p swift_result =
  status :: int
  err_code :: int
  payload :: 'p

text \<open>The calls of the Swift SDK; \<open>SWIFT_OK\<close> is its success code.\<close>

record 's swift_client =
  SWIFT_OK :: int
  authenticate :: "'s \<Rightarrow> unit swift_result \<times> 's"
  swiftGetObjectContent :: "string \<Rightarrow> string \<Rightarrow> string \<Rightarrow> 's \<Rightarrow> bytes swift_result \<times> 's"
  swiftCreateReplaceObject :: "string \<Rightarrow> string \<Rightarrow> bytes \<Rightarrow> 's \<Rightarrow> unit swift_result \<times> 's"
  swiftDeleteObjects :: "string \<Rightarrow> string list \<Rightarrow> 's \<Rightarrow> unit swift_result \<times> 's"

record 's swift_helper =
  m_swift :: "'s swift_client"
  m_containerName :: string

record 's swift_state =
  m_account :: bool
  service :: 's

definition swift_getReturnCode :: "'p swift_result \<Rightarrow> int" where
  "swift_getReturnCode outcome =
     (case swift_errors (status outcome) of None \<Rightarrow> EIO | Some err \<Rightarrow> err)"

definition swift_throwOnError :: "int \<Rightarrow> 'p swift_result \<Rightarrow> 'p fut" where
  "swift_throwOnError ok outcome =
     (if err_code outcome = ok then Inr (payload outcome)
      else Inl (system_error (swift_getReturnCode outcome)))"

definition SWIFTRetryCondition :: "int \<Rightarrow> 'p swift_result \<Rightarrow> bool" where
  "SWIFTRetryCondition ok outcome =
     (status outcome = ok \<or> status outcome \<notin> SWIFT_RETRY_ERRORS)"

definition getAccount :: "'s swift_client \<Rightarrow> 's swift_state \<Rightarrow> unit fut \<times> 's swift_state" where
  "getAccount c st =
     (if m_account st then (Inr (), st)
      else (case authenticate c (service st) of
              (authResponse, s') \<Rightarrow>
                (case swift_throwOnError (SWIFT_OK c) authResponse of
                   Inl e \<Rightarrow> (Inl e, st\<lparr>service := s'\<rparr>)
                 | Inr _ \<Rightarrow> (Inr (), \<lparr>m_account = True, service = s'\<rparr>))))"

text \<open>A call made with the account: retried, its error thrown.\<close>

definition swift_call ::
  "'s swift_client \<Rightarrow> ('s \<Rightarrow> 'p swift_result \<times> 's) \<Rightarrow> 's swift_state \<Rightarrow> 'p fut \<times> 's swift_state" where
  "swift_call c op st =
     (case retry_io op (SWIFTRetryCondition (SWIFT_OK c)) (service st) of
        (response, s') \<Rightarrow> (swift_throwOnError (SWIFT_OK c) response, st\<lparr>service := s'\<rparr>))"

definition swift_getObject ::
  "'s swift_helper \<Rightarrow> string \<Rightarrow> u64 \<Rightarrow> u64 \<Rightarrow> 's swift_state \<Rightarrow> bytes fut \<times> 's swift_state" where
  "swift_getObject h key offset sz st =
     (case getAccount (m_swift h) st of
        (Inl e, st1) \<Rightarrow> (Inl e, st1)
      | (Inr _, st1) \<Rightarrow>
          swift_call (m_swift h) (swiftGetObjectContent (m_swift h) (m_containerName h) key
            (rangeToString (sint offset) (sint (offset + sz - 1)))) st1)"

definition swift_putObject ::
  "'s swift_helper \<Rightarrow> string \<Rightarrow> bytes \<Rightarrow> u64 \<Rightarrow> 's swift_state \<Rightarrow> nat fut \<times> 's swift_state" where
  "swift_putObject h key buf offset st =
     (if offset \<noteq> 0 then (Inl assertion_failed, st)
      else (case getAccount (m_swift h) st of
              (Inl e, st1) \<Rightarrow> (Inl e, st1)
            | (Inr _, st1) \<Rightarrow>
                (case swift_call (m_swift h)
                        (swiftCreateReplaceObject (m_swift h) (m_containerName h) key buf) st1 of
                   (r, st2) \<Rightarrow> (map_sum id (\<lambda>_. length buf) r, st2))))"

text \<open>
  The batch is moved into the first call: a retry sends what a moved-from vector holds,
  \<open>moved\<close>. The flag beside the service state says whether the batch was moved yet.
\<close>

definition swift_delete_op ::
  "'s swift_client \<Rightarrow> string \<Rightarrow> string list \<Rightarrow> string list \<Rightarrow> bool \<times> 's \<Rightarrow> unit swift_result \<times> (bool \<times> 's)" where
  "swift_delete_op c container keyBatch moved = (\<lambda>(was_moved, s).
     case swiftDeleteObjects c container (if was_moved then moved else keyBatch) s of
       (r, s') \<Rightarrow> (r, (True, s')))"

definition swift_deleteObjects ::
  "string list \<Rightarrow> 's swift_helper \<Rightarrow> string list \<Rightarrow> 's swift_state \<Rightarrow> unit fut \<times> 's swift_state" where
  "swift_deleteObjects moved h keys st =
     (case getAccount (m_swift h) st of
        (Inl e, st1) \<Rightarrow> (Inl e, st1)
      | (Inr _, st1) \<Rightarrow>
          for_each (\<lambda>offset st.
            case retry_io (swift_delete_op (m_swift h) (m_containerName h) (deleteBatch keys offset) moved)
                   (SWIFTRetryCondition (SWIFT_OK (m_swift h))) (False, service st) of
              (response, (_, s')) \<Rightarrow>
                (swift_throwOnError (SWIFT_OK (m_swift h)) response, st\<lparr>service := s'\<rparr>))
            (batchOffsets (length keys)) st1)"

definition SwiftHelper :: "string list \<Rightarrow> 's swift_helper \<Rightarrow> 's swift_state kv_helper" where
  "SwiftHelper moved h =
     \<lparr>hasRandomAccess = False, getObject = swift_getObject h, putObject = swift_putObject h,
      deleteObjects = swift_deleteObjects moved h\<rparr>"

section \<open>Ceph RADOS\<close>

text \<open>
  The errors after which a call is made again, by their Linux numbers: \<^verbatim>\<open>EINTR, EIO, EAGAIN,
  EACCES, EBUSY, EMFILE, ETXTBSY, ESPIPE, EMLINK, EPIPE, EDEADLK, EWOULDBLOCK, ENONET,
  ENOLINK, EADDRINUSE, EADDRNOTAVAIL, ENETDOWN, ENETUNREACH, ECONNABORTED, ECONNRESET,
  ENOTCONN, EHOSTDOWN, EHOSTUNREACH, EREMOTEIO, ENOMEDIUM, ECANCELED\<close>.
\<close>

definition CEPHRADOS_RETRY_ERRORS :: "int set" where
  "CEPHRADOS_RETRY_ERRORS =
     {4, EIO, EAGAIN, EACCES, 16, 24, 26, 29, 31, 32, 35, 11, 64, 67, 98, 99, 100, ENETUNREACH,
      ECONNABORTED, 104, 107, 112, EHOSTUNREACH, 121, 123, ECANCELED}"

definition CephRadosRetryCondition :: "int \<Rightarrow> bool" where
  "CephRadosRetryCondition result = (- result \<notin> CEPHRADOS_RETRY_ERRORS)"

definition ceph_throwOnError :: "int \<Rightarrow> unit fut" where
  "ceph_throwOnError code = (if code = 0 then Inr () else Inl (system_error code))"

text \<open>The calls of librados; a read gives its return value and the bytes it stored.\<close>

record 's rados_client =
  init2 :: "string \<Rightarrow> string \<Rightarrow> 's \<Rightarrow> int \<times> 's"
  conf_set :: "string \<Rightarrow> string \<Rightarrow> 's \<Rightarrow> int \<times> 's"
  connect_cluster :: "'s \<Rightarrow> int \<times> 's"
  ioctx_create :: "string \<Rightarrow> 's \<Rightarrow> int \<times> 's"
  io_read :: "string \<Rightarrow> u64 \<Rightarrow> u64 \<Rightarrow> 's \<Rightarrow> (int \<times> bytes) \<times> 's"
  io_write :: "string \<Rightarrow> bytes \<Rightarrow> u64 \<Rightarrow> 's \<Rightarrow> int \<times> 's"
  io_remove :: "string \<Rightarrow> 's \<Rightarrow> int \<times> 's"

record 's ceph_helper =
  m_rados :: "'s rados_client"
  m_clusterName :: string
  m_monHost :: string
  m_poolName :: string
  m_userName :: string
  m_key :: string

record 's ceph_state =
  connected :: bool
  rados :: 's

text \<open>The calls of \<^verbatim>\<open>connect\<close> in their order; the first negative result is thrown.\<close>

definition connectCalls :: "'s ceph_helper \<Rightarrow> ('s \<Rightarrow> int \<times> 's) list" where
  "connectCalls h =
     [init2 (m_rados h) (m_userName h) (m_clusterName h),
      conf_set (m_rados h) ''mon host'' (m_monHost h),
      conf_set (m_rados h) ''key'' (m_key h),
      connect_cluster (m_rados h),
      ioctx_create (m_rados h) (m_poolName h)]"

definition connectCall :: "('s \<Rightarrow> int \<times> 's) \<Rightarrow> 's \<Rightarrow> unit fut \<times> 's" where
  "connectCall call s =
     (case call s of (ret, s') \<Rightarrow> (if ret < 0 then Inl (makePosixException ret) else Inr (), s'))"

definition ceph_connect :: "'s ceph_helper \<Rightarrow> 's ceph_state \<Rightarrow> unit fut \<times> 's ceph_state" where
  "ceph_connect h st =
     (if connected st then (Inr (), st)
      else (case for_each connectCall (connectCalls h) (rados st) of
              (Inl e, s') \<Rightarrow> (Inl e, st\<lparr>rados := s'\<rparr>)
            | (Inr _, s') \<Rightarrow> (Inr (), \<lparr>connected = True, rados = s'\<rparr>)))"

definition ceph_getObject ::
  "'s ceph_helper \<Rightarrow> string \<Rightarrow> u64 \<Rightarrow> u64 \<Rightarrow> 's ceph_state \<Rightarrow> bytes fut \<times> 's ceph_state" where
  "ceph_getObject h key offset sz st =
     (case ceph_connect h st of
        (Inl e, st1) \<Rightarrow> (Inl e, st1)
      | (Inr _, st1) \<Rightarrow>
          (case retry_io (io_read (m_rados h) key sz offset)
                  (\<lambda>(result, _). CephRadosRetryCondition result) (rados st1) of
             ((ret0, raw), s') \<Rightarrow>
               (let ret = (if ret0 = - ENOENT then 0 else ret0);
                    st2 = st1\<lparr>rados := s'\<rparr>
                in if ret < 0 then (map_sum id (\<lambda>_. []) (ceph_throwOnError ret), st2)
                   else (Inr (take (nat ret) raw), st2))))"

definition ceph_putObject ::
  "'s ceph_helper \<Rightarrow> string \<Rightarrow> bytes \<Rightarrow> u64 \<Rightarrow> 's ceph_state \<Rightarrow> nat fut \<times> 's ceph_state" where
  "ceph_putObject h key buf offset st =
     (case ceph_connect h st of
        (Inl e, st1) \<Rightarrow> (Inl e, st1)
      | (Inr _, st1) \<Rightarrow>
          (case retry_io (io_write (m_rados h) key buf offset) CephRadosRetryCondition (rados st1) of
             (ret, s') \<Rightarrow> (map_sum id (\<lambda>_. length buf) (ceph_throwOnError ret), st1\<lparr>rados := s'\<rparr>)))"

definition ceph_removeObject :: "'s ceph_helper \<Rightarrow> string \<Rightarrow> 's \<Rightarrow> unit fut \<times> 's" where
  "ceph_removeObject h key s =
     (case retry_io (io_remove (m_rados h) key) CephRadosRetryCondition s of
        (ret0, s') \<Rightarrow>
          (let ret = (if ret0 = - ENOENT then 0 else ret0)
           in (if ret < 0 then ceph_throwOnError ret else Inr (), s')))"

definition ceph_deleteObjects ::
  "'s ceph_helper \<Rightarrow> string list \<Rightarrow> 's ceph_state \<Rightarrow> unit fut \<times> 's ceph_state" where
  "ceph_deleteObjects h keys st =
     (case ceph_connect h st of
        (Inl e, st1) \<Rightarrow> (Inl e, st1)
      | (Inr _, st1) \<Rightarrow>
          (case for_each (\<lambda>offset. for_each (ceph_removeObject h) (deleteBatch keys offset))
                  (batchOffsets (length keys)) (rados st1) of
             (r, s') \<Rightarrow> (r, st1\<lparr>rados := s'\<rparr>)))"

definition CephRadosHelper :: "'s ceph_helper \<Rightarrow> 's ceph_state kv_helper" where
  "CephRadosHelper h =
     \<lparr>hasRandomAccess = True, getObject = ceph_getObject h, putObject = ceph_putObject h,
      deleteObjects = ceph_deleteObjects h\<rparr>"

section \<open>Lemmas\<close>

lemma sint_range:
  fixes off n :: u64
  assumes "0 < n" and "unat off + unat n \<le> 2 ^ 63"
  shows "sint off = int (unat off)" and "sint (off + n - 1) = int (unat off + unat n - 1)"
proof -
  have n: "1 \<le> unat n" using assms(1) by (simp add: word_less_nat_alt)
  then have n1: "unat (n - 1) = unat n - 1" by (subst unat_sub_le) (simp_all add: word_le_nat_alt)
  have "unat off + unat (n - 1) < 2 ^ 64" using n1 n assms(2) by simp
  then have "unat (off + n - 1) = unat off + unat n - 1"
    using n n1 unat_add_small [of off "n - 1"] by (simp add: add_diff_eq)
  then show "sint (off + n - 1) = int (unat off + unat n - 1)"
    using assms(2) n by (subst sint_nat) linarith+
  show "sint off = int (unat off)" using assms(2) n by (intro sint_nat) linarith
qed

lemma batchOffsets_small:
  assumes "n \<le> MAX_DELETE_OBJECTS"
  shows "batchOffsets n = (if n = 0 then [] else [0])"
proof (cases "n = 0")
  case False
  have "k mod MAX_DELETE_OBJECTS \<noteq> 0" if "1 \<le> k" "k < n" for k
  proof -
    have "k mod MAX_DELETE_OBJECTS = k" using that assms by (intro mod_less) linarith
    then show ?thesis using that(1) by linarith
  qed
  then have "filter (\<lambda>k. k mod MAX_DELETE_OBJECTS = 0) [1..<n] = []"
    unfolding filter_empty_conv by (metis atLeastLessThan_iff set_upt)
  moreover have "[0..<n] = 0 # [1..<n]" using False upt_conv_Cons [of 0 n] by (simp only: One_nat_def neq0_conv)
  ultimately show ?thesis using False by (simp only: batchOffsets_def filter.simps mod_0 if_True if_False refl)
qed (simp add: batchOffsets_def)

lemma deleteBatch_all: "length keys \<le> MAX_DELETE_OBJECTS \<Longrightarrow> deleteBatch keys 0 = keys"
  by (simp add: deleteBatch_def)

lemma deleteBatch_prefix: "set (deleteBatch keys offset) \<subseteq> set (take MAX_DELETE_OBJECTS keys)"
  unfolding deleteBatch_def Let_def by (rule set_take_subset_set_take) simp

text \<open>
  A storage whose operations each do one call that succeeds at once.
\<close>

lemma for_each_single: "for_each f [x] s = f x s"
  by (auto split: prod.splits sum.splits)

section \<open>What the services document\<close>

text \<open>
  The S3 service: a ranged \<open>GET\<close> returns the bytes of the range that exist, an absent key is
  \<open>NoSuchKey\<close>, a range past the end is refused with an error the SDK has no type for; a
  \<open>PUT\<close> replaces the object; a multi-object delete of up to 1000 keys removes them.
\<close>

locale s3_service =
  fixes client :: "'s s3_client" and bucket moved :: string
    and obj :: "'s \<Rightarrow> string \<Rightarrow> bytes option" and ready :: "'s \<Rightarrow> bool"
  assumes get_object: "ready s \<Longrightarrow> lo \<le> hi \<Longrightarrow>
      \<exists>r s'. GetObject client bucket k (rangeToString (int lo) (int hi)) s = (r, s') \<and> ready s' \<and> obj s' = obj s \<and>
        (case obj s k of
           None \<Rightarrow> r = Inl NO_SUCH_KEY
         | Some b \<Rightarrow> (if lo < length b then r = Inr (take (Suc (hi - lo)) (drop lo b)) else r = Inl UNKNOWN \<or> r = Inr []))"
    and put_object: "ready s \<Longrightarrow>
      \<exists>s'. PutObject client bucket k b s = (Inr (), s') \<and> ready s' \<and> obj s' = (obj s)(k \<mapsto> b)"
    and delete_objects: "ready s \<Longrightarrow> length ks \<le> MAX_DELETE_OBJECTS \<Longrightarrow>
      \<exists>s'. DeleteObjects client bucket ks s = (Inr (), s') \<and> ready s' \<and>
        obj s' = (\<lambda>k. if k \<in> set ks then None else obj s k)"

sublocale s3_service \<subseteq> replacing_store "S3Helper moved \<lparr>m_client = client, m_bucket = bucket\<rparr>" obj ready
proof unfold_locales
  let ?h = "\<lparr>m_client = client, m_bucket = bucket\<rparr>"
  fix s k and off n :: u64
  assume s: "ready s" and n: "0 < n" and fits: "unat off + unat n \<le> 2 ^ 63"
  have pos: "1 \<le> unat n" using n by (simp add: word_less_nat_alt)
  then have le: "unat off \<le> unat off + unat n - 1" and len: "Suc (unat off + unat n - 1 - unat off) = unat n"
    by linarith+
  obtain r s' where g: "GetObject client bucket k (rangeToString (sint off) (sint (off + n - 1))) s = (r, s')"
    "ready s'" "obj s' = obj s" and r: "case obj s k of
           None \<Rightarrow> r = Inl NO_SUCH_KEY
         | Some b \<Rightarrow> (if unat off < length b then r = Inr (take (unat n) (drop (unat off) b)) else r = Inl UNKNOWN \<or> r = Inr [])"
    using get_object [OF s le, of k] unfolding sint_range [OF n fits] len by blast
  have "S3RetryCondition r" using r by (auto simp: S3RetryCondition_def S3_RETRY_ERRORS_def split: option.splits if_splits)
  then have "retry_io (GetObject client bucket k (rangeToString (sint off) (sint (off + n - 1)))) S3RetryCondition s = (r, s')"
    using g(1) by (intro retry_io_first)
  then have "s3_getObject ?h k off n s = (s3_throwOnError r, s')" by (simp add: s3_getObject_def)
  then show "\<exists>r s'. getObject (S3Helper moved ?h) k off n s = (r, s') \<and> ready s' \<and> obj s' = obj s \<and>
      (case obj s k of
         None \<Rightarrow> r = Inl (system_error ENOENT) \<or> r = Inr []
       | Some b \<Rightarrow> r = Inr (take (unat n) (drop (unat off) b)) \<or>
           length b \<le> unat off \<and> r = Inl (system_error ENOENT))"
    using g(2,3) r
    by (auto simp: S3Helper_def s3_throwOnError_def s3_getReturnCode_def g_errors_def split: option.splits if_splits)
next
  fix s and ks :: "string list"
  assume "ready s" and ks: "length ks \<le> MAX_DELETE_OBJECTS"
  then obtain s' where d: "DeleteObjects client bucket ks s = (Inr (), s')" "ready s'"
    "obj s' = (\<lambda>k. if k \<in> set ks then None else obj s k)" using delete_objects by blast
  have "retry_io (DeleteObjects client bucket ks) S3RetryCondition s = (Inr (), s')"
    using d(1) by (intro retry_io_first) (simp_all add: S3RetryCondition_def)
  then show "\<exists>s'. deleteObjects (S3Helper moved \<lparr>m_client = client, m_bucket = bucket\<rparr>) ks s = (Inr (), s') \<and> ready s' \<and>
      obj s' = (\<lambda>k. if k \<in> set ks then None else obj s k)"
    using d(2,3) ks \<open>ready s\<close>
    by (cases "ks = []") (auto simp: S3Helper_def s3_deleteObjects_def batchOffsets_small deleteBatch_all s3_throwOnError_def)
next
  fix s k and b :: bytes
  assume "ready s"
  then obtain s' where p: "PutObject client bucket k b s = (Inr (), s')" "ready s'" "obj s' = (obj s)(k \<mapsto> b)"
    using put_object by blast
  have "retry_io (PutObject client bucket k b) S3RetryCondition s = (Inr (), s')"
    using p(1) by (intro retry_io_first) (simp_all add: S3RetryCondition_def)
  then show "\<exists>s'. putObject (S3Helper moved \<lparr>m_client = client, m_bucket = bucket\<rparr>) k b 0 s = (Inr (length b), s') \<and>
      ready s' \<and> obj s' = (obj s)(k \<mapsto> b)"
    using p(2,3) by (simp add: S3Helper_def s3_putObject_def s3_throwOnError_def)
qed (simp add: S3Helper_def)

text \<open>
  The Swift service: success carries a 2xx status; a missing object is 404 and a range past
  its end 416, both with an error code.
\<close>

locale swift_service =
  fixes client :: "'s swift_client" and container :: string and moved :: "string list"
    and obj :: "'s \<Rightarrow> string \<Rightarrow> bytes option" and ready :: "'s \<Rightarrow> bool"
  assumes authenticates: "ready s \<Longrightarrow>
      \<exists>r s'. authenticate client s = (r, s') \<and> err_code r = SWIFT_OK client \<and> ready s' \<and> obj s' = obj s"
    and get_content: "ready s \<Longrightarrow> lo \<le> hi \<Longrightarrow>
      \<exists>r s'. swiftGetObjectContent client container k (rangeToString (int lo) (int hi)) s = (r, s') \<and>
        ready s' \<and> obj s' = obj s \<and>
        (case obj s k of
           None \<Rightarrow> status r = 404 \<and> err_code r \<noteq> SWIFT_OK client
         | Some b \<Rightarrow>
             (if lo < length b
              then status r = 206 \<and> err_code r = SWIFT_OK client \<and> payload r = take (Suc (hi - lo)) (drop lo b)
              else status r = 416 \<and> err_code r \<noteq> SWIFT_OK client))"
    and create_replace: "ready s \<Longrightarrow>
      \<exists>r s'. swiftCreateReplaceObject client container k b s = (r, s') \<and> status r = 201 \<and>
        err_code r = SWIFT_OK client \<and> ready s' \<and> obj s' = (obj s)(k \<mapsto> b)"
    and bulk_delete: "ready s \<Longrightarrow> length ks \<le> MAX_DELETE_OBJECTS \<Longrightarrow>
      \<exists>r s'. swiftDeleteObjects client container ks s = (r, s') \<and> status r = 200 \<and>
        err_code r = SWIFT_OK client \<and> ready s' \<and> obj s' = (\<lambda>k. if k \<in> set ks then None else obj s k)"

context swift_service
begin

lemma getAccount_ok:
  assumes "ready (service st)"
  shows "\<exists>st'. getAccount client st = (Inr (), st') \<and> ready (service st') \<and> obj (service st') = obj (service st)"
proof (cases "m_account st")
  case False
  obtain r s' where "authenticate client (service st) = (r, s')" "err_code r = SWIFT_OK client"
    "ready s'" "obj s' = obj (service st)" using authenticates [OF assms] by blast
  then show ?thesis using False by (simp add: getAccount_def swift_throwOnError_def)
qed (use assms in \<open>simp add: getAccount_def\<close>)

lemma swift_call_once:
  assumes "op (service st) = (r, s')" and "status r \<notin> SWIFT_RETRY_ERRORS"
  shows "swift_call client op st = (swift_throwOnError (SWIFT_OK client) r, st\<lparr>service := s'\<rparr>)"
proof -
  have "retry_io op (SWIFTRetryCondition (SWIFT_OK client)) (service st) = (r, s')"
    using assms by (intro retry_io_first) (simp_all add: SWIFTRetryCondition_def)
  then show ?thesis by (simp add: swift_call_def)
qed

end

sublocale swift_service \<subseteq> replacing_store "SwiftHelper moved \<lparr>m_swift = client, m_containerName = container\<rparr>"
  "\<lambda>st. obj (service st)" "\<lambda>st. ready (service st)"
proof unfold_locales
  let ?h = "\<lparr>m_swift = client, m_containerName = container\<rparr>"
  fix st :: "'s swift_state" and k and off n :: u64
  assume s: "ready (service st)" and n: "0 < n" and fits: "unat off + unat n \<le> 2 ^ 63"
  have pos: "1 \<le> unat n" using n by (simp add: word_less_nat_alt)
  then have le: "unat off \<le> unat off + unat n - 1" and len: "Suc (unat off + unat n - 1 - unat off) = unat n"
    by linarith+
  obtain st1 where a: "getAccount client st = (Inr (), st1)" "ready (service st1)" "obj (service st1) = obj (service st)"
    using getAccount_ok [OF s] by blast
  obtain r s' where g: "swiftGetObjectContent client container k (rangeToString (sint off) (sint (off + n - 1))) (service st1) = (r, s')"
    "ready s'" "obj s' = obj (service st)" and r: "case obj (service st) k of
           None \<Rightarrow> status r = 404 \<and> err_code r \<noteq> SWIFT_OK client
         | Some b \<Rightarrow>
             (if unat off < length b
              then status r = 206 \<and> err_code r = SWIFT_OK client \<and> payload r = take (unat n) (drop (unat off) b)
              else status r = 416 \<and> err_code r \<noteq> SWIFT_OK client)"
    using get_content [OF a(2) le, of k] unfolding sint_range [OF n fits] len a(3) by blast
  have "status r \<notin> SWIFT_RETRY_ERRORS" using r by (auto simp: SWIFT_RETRY_ERRORS_def split: option.splits if_splits)
  with g(1) have "swift_getObject ?h k off n st = (swift_throwOnError (SWIFT_OK client) r, st1\<lparr>service := s'\<rparr>)"
    using a(1) swift_call_once by (simp add: swift_getObject_def)
  then show "\<exists>r s'. getObject (SwiftHelper moved ?h) k off n st = (r, s') \<and> ready (service s') \<and>
      obj (service s') = obj (service st) \<and>
      (case obj (service st) k of
         None \<Rightarrow> r = Inl (system_error ENOENT) \<or> r = Inr []
       | Some b \<Rightarrow> r = Inr (take (unat n) (drop (unat off) b)) \<or>
           length b \<le> unat off \<and> r = Inl (system_error ENOENT))"
    using g(2,3) r
    by (auto simp: SwiftHelper_def swift_throwOnError_def swift_getReturnCode_def swift_errors_def split: option.splits if_splits)
next
  let ?h = "\<lparr>m_swift = client, m_containerName = container\<rparr>"
  fix st :: "'s swift_state" and ks :: "string list"
  assume s: "ready (service st)" and ks: "length ks \<le> MAX_DELETE_OBJECTS"
  obtain st1 where a: "getAccount client st = (Inr (), st1)" "ready (service st1)" "obj (service st1) = obj (service st)"
    using getAccount_ok [OF s] by blast
  obtain r s' where d: "swiftDeleteObjects client container ks (service st1) = (r, s')" "status r = 200"
    "err_code r = SWIFT_OK client" "ready s'" "obj s' = (\<lambda>k. if k \<in> set ks then None else obj (service st) k)"
    using bulk_delete [OF a(2) ks] unfolding a(3) by blast
  have "retry_io (swift_delete_op client container ks moved) (SWIFTRetryCondition (SWIFT_OK client)) (False, service st1) = (r, (True, s'))"
    using d(1,2) by (intro retry_io_first) (simp_all add: swift_delete_op_def SWIFTRetryCondition_def SWIFT_RETRY_ERRORS_def)
  then show "\<exists>s'. deleteObjects (SwiftHelper moved ?h) ks st = (Inr (), s') \<and> ready (service s') \<and>
      obj (service s') = (\<lambda>k. if k \<in> set ks then None else obj (service st) k)"
    using a d ks
    by (cases "ks = []") (auto simp: SwiftHelper_def swift_deleteObjects_def batchOffsets_small deleteBatch_all swift_throwOnError_def)
next
  let ?h = "\<lparr>m_swift = client, m_containerName = container\<rparr>"
  fix st :: "'s swift_state" and k and b :: bytes
  assume s: "ready (service st)"
  obtain st1 where a: "getAccount client st = (Inr (), st1)" "ready (service st1)" "obj (service st1) = obj (service st)"
    using getAccount_ok [OF s] by blast
  obtain r s' where p: "swiftCreateReplaceObject client container k b (service st1) = (r, s')" "status r = 201"
    "err_code r = SWIFT_OK client" "ready s'" "obj s' = (obj (service st))(k \<mapsto> b)"
    using create_replace [OF a(2), of k b] unfolding a(3) by blast
  have "swift_call client (swiftCreateReplaceObject client container k b) st1 = (Inr (payload r), st1\<lparr>service := s'\<rparr>)"
    using p(1-3) swift_call_once [of _ st1 r s'] by (simp add: swift_throwOnError_def SWIFT_RETRY_ERRORS_def)
  then show "\<exists>s'. putObject (SwiftHelper moved ?h) k b 0 st = (Inr (length b), s') \<and> ready (service s') \<and>
      obj (service s') = (obj (service st))(k \<mapsto> b)"
    using a p(4,5) by (simp add: SwiftHelper_def swift_putObject_def)
qed (simp add: SwiftHelper_def)

text \<open>
  The RADOS cluster: connecting succeeds; a read returns the bytes of the range that exist
  and their number, a write overlays the object, growing it with zeros, and returns 0, a
  removal of an absent object is \<^verbatim>\<open>-ENOENT\<close>.
\<close>

locale rados_service =
  fixes helper :: "'s ceph_helper"
    and obj :: "'s \<Rightarrow> string \<Rightarrow> bytes option" and ready :: "'s \<Rightarrow> bool"
  assumes connects: "ready s \<Longrightarrow> call \<in> set (connectCalls helper) \<Longrightarrow>
      \<exists>r s'. call s = (r, s') \<and> 0 \<le> r \<and> ready s' \<and> obj s' = obj s"
    and reads: "ready s \<Longrightarrow>
      \<exists>r s'. io_read (m_rados helper) k n off s = (r, s') \<and> ready s' \<and> obj s' = obj s \<and>
        (case obj s k of
           None \<Rightarrow> fst r = - ENOENT
         | Some b \<Rightarrow> r = (int (length (take (unat n) (drop (unat off) b))), take (unat n) (drop (unat off) b)))"
    and writes: "ready s \<Longrightarrow>
      \<exists>s' c. io_write (m_rados helper) k b off s = (0, s') \<and> ready s' \<and> obj s' = (obj s)(k \<mapsto> c) \<and>
        length c = max (length (content (obj s) k)) (unat off + length b) \<and>
        (\<forall>i. byte_at c i =
          (if unat off \<le> i \<and> i < unat off + length b then byte_at b (i - unat off)
           else byte_at (content (obj s) k) i))"
    and removes: "ready s \<Longrightarrow>
      \<exists>s'. io_remove (m_rados helper) k s = (if obj s k = None then - ENOENT else 0, s') \<and> ready s' \<and>
        obj s' = (obj s)(k := None)"

lemma retry_not_needed: "0 \<le> r \<or> r = - ENOENT \<Longrightarrow> CephRadosRetryCondition r"
  by (auto simp: CephRadosRetryCondition_def CEPHRADOS_RETRY_ERRORS_def)

context rados_service
begin

lemma connect_calls_ok:
  assumes "ready s" and "set calls \<subseteq> set (connectCalls helper)"
  shows "\<exists>s'. for_each connectCall calls s = (Inr (), s') \<and> ready s' \<and> obj s' = obj s"
  using assms
proof (induction calls arbitrary: s)
  case (Cons call calls)
  obtain r s1 where "call s = (r, s1)" "0 \<le> r" "ready s1" "obj s1 = obj s"
    using connects [OF Cons.prems(1), of call] Cons.prems(2) by auto
  then show ?case using Cons.IH [of s1] Cons.prems(2) by (auto simp: connectCall_def)
qed simp

lemma ceph_connect_ok:
  assumes "ready (rados st)"
  shows "\<exists>st'. ceph_connect helper st = (Inr (), st') \<and> ready (rados st') \<and> obj (rados st') = obj (rados st)"
  using connect_calls_ok [OF assms subset_refl] assms by (auto simp: ceph_connect_def)

lemma removes_each:
  assumes "ready s"
  shows "\<exists>s'. for_each (ceph_removeObject helper) ks s = (Inr (), s') \<and> ready s' \<and>
    obj s' = (\<lambda>k. if k \<in> set ks then None else obj s k)"
  using assms
proof (induction ks arbitrary: s)
  case (Cons k ks)
  obtain s1 where d: "io_remove (m_rados helper) k s = (if obj s k = None then - ENOENT else 0, s1)"
    "ready s1" "obj s1 = (obj s)(k := None)" using removes [OF Cons.prems] by blast
  have "retry_io (io_remove (m_rados helper) k) CephRadosRetryCondition s = (if obj s k = None then - ENOENT else 0, s1)"
    using d(1) by (intro retry_io_first retry_not_needed) auto
  then have "ceph_removeObject helper k s = (Inr (), s1)" by (simp add: ceph_removeObject_def)
  then show ?case using Cons.IH [OF d(2)] d(3) by (auto simp: fun_eq_iff)
qed simp

text \<open>
  Every batch starts from the first key, so the keys past the first batch stay: the loop
  removes what its batches name, and these are prefixes of the keys.
\<close>

lemma removes_batches:
  assumes "ready s"
  shows "\<exists>s'. for_each (\<lambda>offset. for_each (ceph_removeObject helper) (deleteBatch keys offset)) offsets s = (Inr (), s') \<and>
    ready s' \<and> obj s' = (\<lambda>k. if \<exists>offset \<in> set offsets. k \<in> set (deleteBatch keys offset) then None else obj s k)"
  using assms
proof (induction offsets arbitrary: s)
  case (Cons offset offsets)
  obtain s1 where "for_each (ceph_removeObject helper) (deleteBatch keys offset) s = (Inr (), s1)" "ready s1"
    "obj s1 = (\<lambda>k. if k \<in> set (deleteBatch keys offset) then None else obj s k)"
    using removes_each [OF Cons.prems] by blast
  then show ?case using Cons.IH [of s1] by (auto simp: fun_eq_iff)
qed simp

lemma ceph_deletes_batches:
  assumes "ready (rados st)"
  shows "\<exists>st'. ceph_deleteObjects helper keys st = (Inr (), st') \<and> ready (rados st') \<and>
    obj (rados st') = (\<lambda>k. if \<exists>offset \<in> set (batchOffsets (length keys)). k \<in> set (deleteBatch keys offset) then None
                          else obj (rados st) k)"
proof -
  obtain st1 where c: "ceph_connect helper st = (Inr (), st1)" "ready (rados st1)" "obj (rados st1) = obj (rados st)"
    using ceph_connect_ok [OF assms] by blast
  obtain s' where "for_each (\<lambda>offset. for_each (ceph_removeObject helper) (deleteBatch keys offset))
      (batchOffsets (length keys)) (rados st1) = (Inr (), s')" "ready s'"
    "obj s' = (\<lambda>k. if \<exists>offset \<in> set (batchOffsets (length keys)). k \<in> set (deleteBatch keys offset) then None else obj (rados st) k)"
    using removes_batches [OF c(2), of keys "batchOffsets (length keys)"] unfolding c(3) by blast
  then show ?thesis using c(1) by (simp add: ceph_deleteObjects_def)
qed

end

sublocale rados_service \<subseteq> in_place_store "CephRadosHelper helper" "\<lambda>st. obj (rados st)" "\<lambda>st. ready (rados st)"
proof unfold_locales
  fix st :: "'s ceph_state" and k and off n :: u64
  assume s: "ready (rados st)"
  obtain st1 where c: "ceph_connect helper st = (Inr (), st1)" "ready (rados st1)" "obj (rados st1) = obj (rados st)"
    using ceph_connect_ok [OF s] by blast
  obtain r s' where g: "io_read (m_rados helper) k n off (rados st1) = (r, s')" "ready s'" "obj s' = obj (rados st)"
    and r: "case obj (rados st) k of
           None \<Rightarrow> fst r = - ENOENT
         | Some b \<Rightarrow> r = (int (length (take (unat n) (drop (unat off) b))), take (unat n) (drop (unat off) b))"
    using reads [OF c(2), of k n off] unfolding c(3) by blast
  have "retry_io (io_read (m_rados helper) k n off) (\<lambda>(result, _). CephRadosRetryCondition result) (rados st1) = (r, s')"
    using g(1) r by (intro retry_io_first) (auto split: option.splits intro!: retry_not_needed)
  then show "\<exists>r s'. getObject (CephRadosHelper helper) k off n st = (r, s') \<and> ready (rados s') \<and>
      obj (rados s') = obj (rados st) \<and>
      (case obj (rados st) k of
         None \<Rightarrow> r = Inl (system_error ENOENT) \<or> r = Inr []
       | Some b \<Rightarrow> r = Inr (take (unat n) (drop (unat off) b)) \<or>
           length b \<le> unat off \<and> r = Inl (system_error ENOENT))"
    using c(1) g(2,3) r by (auto simp: CephRadosHelper_def ceph_getObject_def Let_def min_def split: option.splits prod.splits)
next
  fix st :: "'s ceph_state" and ks :: "string list"
  assume "ready (rados st)" and "length ks \<le> MAX_DELETE_OBJECTS"
  then show "\<exists>s'. deleteObjects (CephRadosHelper helper) ks st = (Inr (), s') \<and> ready (rados s') \<and>
      obj (rados s') = (\<lambda>k. if k \<in> set ks then None else obj (rados st) k)"
    using ceph_deletes_batches [of st ks] by (cases "ks = []") (auto simp: CephRadosHelper_def batchOffsets_small deleteBatch_all)
next
  fix st :: "'s ceph_state" and k and b :: bytes and off :: u64
  assume s: "ready (rados st)"
  obtain st1 where c: "ceph_connect helper st = (Inr (), st1)" "ready (rados st1)" "obj (rados st1) = obj (rados st)"
    using ceph_connect_ok [OF s] by blast
  obtain s' d where w: "io_write (m_rados helper) k b off (rados st1) = (0, s')" "ready s'" "obj s' = (obj (rados st))(k \<mapsto> d)"
    "length d = max (length (content (obj (rados st)) k)) (unat off + length b)"
    "\<forall>i. byte_at d i = (if unat off \<le> i \<and> i < unat off + length b then byte_at b (i - unat off)
           else byte_at (content (obj (rados st)) k) i)"
    using writes [OF c(2), of k b off] unfolding c(3) by blast
  have "retry_io (io_write (m_rados helper) k b off) CephRadosRetryCondition (rados st1) = (0, s')"
    using w(1) by (intro retry_io_first retry_not_needed) auto
  then have "putObject (CephRadosHelper helper) k b off st = (Inr (length b), st1\<lparr>rados := s'\<rparr>)"
    using c(1) by (simp add: CephRadosHelper_def ceph_putObject_def ceph_throwOnError_def)
  then show "\<exists>s' c. putObject (CephRadosHelper helper) k b off st = (Inr (length b), s') \<and> ready (rados s') \<and>
      obj (rados s') = (obj (rados st))(k \<mapsto> c) \<and>
      length c = max (length (content (obj (rados st)) k)) (unat off + length b) \<and>
      (\<forall>i. byte_at c i =
        (if unat off \<le> i \<and> i < unat off + length b then byte_at b (i - unat off)
         else byte_at (content (obj (rados st)) k) i))"
    using w(2-5) by auto
qed (simp add: CephRadosHelper_def)

section \<open>The contracts a file relies on\<close>

context s3_service
begin

lemma s3_replacing: "replacing_store (S3Helper moved \<lparr>m_client = client, m_bucket = bucket\<rparr>) obj ready"
  by unfold_locales

lemma s3_block: "block_store (S3Helper moved \<lparr>m_client = client, m_bucket = bucket\<rparr>) obj ready"
  by unfold_locales

end

context swift_service
begin

lemma swift_replacing:
  "replacing_store (SwiftHelper moved \<lparr>m_swift = client, m_containerName = container\<rparr>)
     (\<lambda>st. obj (service st)) (\<lambda>st. ready (service st))"
  by unfold_locales

end

context rados_service
begin

lemma ceph_block: "block_store (CephRadosHelper helper) (\<lambda>st. obj (rados st)) (\<lambda>st. ready (rados st))"
  by unfold_locales

lemma ceph_object: "object_store (CephRadosHelper helper) (\<lambda>st. obj (rados st)) (\<lambda>st. ready (rados st))"
  by unfold_locales

lemma ceph_in_place: "in_place_store (CephRadosHelper helper) (\<lambda>st. obj (rados st)) (\<lambda>st. ready (rados st))"
  by unfold_locales

end

context rados_service
begin

text \<open>Removing a file of more blocks than one batch holds leaves the blocks past the first batch.\<close>

lemma ceph_unlink_leaks:
  assumes "ready (rados (store st))" and B: "0 < B" and k0: "getKey f 0 = Inr k0"
    and cur: "0 < currentSize" "unat currentSize div unat B < 2 ^ 64 - 1"
    and i: "MAX_DELETE_OBJECTS \<le> unat i" "getKey f i = Inr k"
  shows "\<exists>st'. unlink (CephRadosHelper helper) B f currentSize st = Some (Inr (), st') \<and>
    obj (rados (store st')) k = obj (rados (store st)) k"
proof -
  obtain keyOf where keys: "\<And>i. getKey f i = Inr (keyOf i)" using getKey_total [OF k0] by metis
  let ?ks = "map keyOf (map of_nat [0..<Suc (unat currentSize div unat B)])"
  have ids: "objectIdLoop 0 (currentSize div B) = Some (map of_nat [0..<Suc (unat currentSize div unat B)])"
    using objectIdLoop_upto [of "currentSize div B" 0] cur(2) by (simp add: unat_div)
  obtain st' where d: "ceph_deleteObjects helper ?ks (store st) = (Inr (), st')"
    "obj (rados st') = (\<lambda>k. if \<exists>offset \<in> set (batchOffsets (length ?ks)). k \<in> set (deleteBatch ?ks offset) then None
                          else obj (rados (store st)) k)"
    using ceph_deletes_batches [OF assms(1)] by blast
  have "k \<notin> set (take MAX_DELETE_OBJECTS ?ks)"
  proof
    assume "k \<in> set (take MAX_DELETE_OBJECTS ?ks)"
    then obtain n where n: "k = keyOf (of_nat n)" "n < MAX_DELETE_OBJECTS"
      by (auto simp: take_map simp del: upt_Suc dest: in_set_take_upt)
    then have "i = of_nat n" using getKey_inj [OF i(2)] keys by metis
    moreover have "unat (of_nat n :: u64) = n"
      using n(2) by (intro unat_of_nat_u64) (simp add: MAX_DELETE_OBJECTS_def)
    ultimately show False using n(2) i(1) by simp
  qed
  then have "obj (rados st') k = obj (rados (store st)) k"
    using d(2) deleteBatch_prefix [of ?ks] by auto
  then show ?thesis
    using cur(1) B d(1) ids
    by (simp add: unlink_def getKeys_map [OF keys] deleteObjects_state_def CephRadosHelper_def word_gt_0 del: upt_Suc)
qed

end

end
