(* ===== verification/MemoryServices.thy ===== *)
theory MemoryServices
  imports ObjectStorages
begin

text \<open>
  In-memory services with the documented behaviour of S3, Swift and RADOS: the helpers of
  \<^verbatim>\<open>src/src\<close> run on them in concrete examples, and the laws assumed of the services
  hold for them.
\<close>

section \<open>The services\<close>

type_synonym objects = "string \<Rightarrow> bytes option"

definition mem_s3 :: "objects s3_client" where
  "mem_s3 =
     \<lparr>GetObject = (\<lambda>bucket k rng s.
        (if bucket \<noteq> ''bucket'' then Inl NO_SUCH_BUCKET
         else case s k of
           None \<Rightarrow> Inl NO_SUCH_KEY
         | Some b \<Rightarrow> (case parseRange rng of (lo, hi) \<Rightarrow>
             if lo < length b then Inr (take (Suc (hi - lo)) (drop lo b)) else Inl UNKNOWN), s)),
      PutObject = (\<lambda>bucket k b s. if bucket \<noteq> ''bucket'' then (Inl NO_SUCH_BUCKET, s) else (Inr (), s(k \<mapsto> b))),
      DeleteObjects = (\<lambda>bucket ks s. if bucket \<noteq> ''bucket'' then (Inl NO_SUCH_BUCKET, s)
        else (Inr (), \<lambda>k. if k \<in> set ks then None else s k))\<rparr>"

definition mem_swift :: "objects swift_client" where
  "mem_swift =
     \<lparr>SWIFT_OK = 0,
      authenticate = (\<lambda>s. (\<lparr>status = 200, err_code = 0, payload = ()\<rparr>, s)),
      swiftGetObjectContent = (\<lambda>container k rng s.
        (case s k of
           None \<Rightarrow> \<lparr>status = 404, err_code = 1, payload = []\<rparr>
         | Some b \<Rightarrow> (case parseRange rng of (lo, hi) \<Rightarrow>
             if lo < length b then \<lparr>status = 206, err_code = 0, payload = take (Suc (hi - lo)) (drop lo b)\<rparr>
             else \<lparr>status = 416, err_code = 1, payload = []\<rparr>), s)),
      swiftCreateReplaceObject = (\<lambda>container k b s. (\<lparr>status = 201, err_code = 0, payload = ()\<rparr>, s(k \<mapsto> b))),
      swiftDeleteObjects = (\<lambda>container ks s.
        (\<lparr>status = 200, err_code = 0, payload = ()\<rparr>, \<lambda>k. if k \<in> set ks then None else s k))\<rparr>"

definition overlay :: "bytes \<Rightarrow> nat \<Rightarrow> bytes \<Rightarrow> bytes" where
  "overlay old off b =
     map (\<lambda>i. if off \<le> i \<and> i < off + length b then byte_at b (i - off) else byte_at old i)
       [0..<max (length old) (off + length b)]"

definition mem_rados :: "objects rados_client" where
  "mem_rados =
     \<lparr>init2 = (\<lambda>_ _ s. (0, s)), conf_set = (\<lambda>_ _ s. (0, s)), connect_cluster = (\<lambda>s. (0, s)),
      ioctx_create = (\<lambda>_ s. (0, s)),
      io_read = (\<lambda>k n off s.
        (case s k of
           None \<Rightarrow> (- ENOENT, [])
         | Some b \<Rightarrow> (let d = take (unat n) (drop (unat off) b) in (int (length d), d)), s)),
      io_write = (\<lambda>k b off s. (0, s(k \<mapsto> overlay (content s k) (unat off) b))),
      io_remove = (\<lambda>k s. (if s k = None then - ENOENT else 0, s(k := None)))\<rparr>"

definition mem_ceph :: "objects ceph_helper" where
  "mem_ceph =
     \<lparr>m_rados = mem_rados, m_clusterName = ''ceph'', m_monHost = ''mon'', m_poolName = ''pool'',
      m_userName = ''client.admin'', m_key = ''secret''\<rparr>"

section \<open>The laws hold\<close>

interpretation memory_s3: s3_service mem_s3 "''bucket''" "''''" "\<lambda>s. s" "\<lambda>_. True"
  by unfold_locales (auto simp: mem_s3_def parseRange_rangeToString split: option.splits)

interpretation memory_swift: swift_service mem_swift "''container''" "[]" "\<lambda>s. s" "\<lambda>_. True"
  by unfold_locales (auto simp: mem_swift_def parseRange_rangeToString split: option.splits)

lemma length_overlay: "length (overlay old off b) = max (length old) (off + length b)"
  by (simp add: overlay_def)

lemma byte_at_overlay:
  "byte_at (overlay old off b) i =
     (if off \<le> i \<and> i < off + length b then byte_at b (i - off) else byte_at old i)"
proof (cases "i < max (length old) (off + length b)")
  case True
  then show ?thesis by (simp add: overlay_def byte_at_def [of "map _ _"])
next
  case False
  then show ?thesis by (auto simp: byte_at_beyond length_overlay)
qed

interpretation memory_rados: rados_service mem_ceph "\<lambda>s. s" "\<lambda>_. True"
  by unfold_locales
    (auto simp: mem_ceph_def mem_rados_def connectCalls_def Let_def length_overlay byte_at_overlay split: option.splits)

end
