(* ===== verification/KvFiles.thy ===== *)
theory KvFiles
  imports MemoryServices
begin

text \<open>
  Files kept on an object storage by the key-value adapter, over the helpers of S3, Swift
  and Ceph RADOS: what the operations of a file do to its bytes, to the objects of other
  files and to the locks.
\<close>

section \<open>Helper lemmas\<close>

definition valid_file_id :: "string \<Rightarrow> bool" where
  "valid_file_id f = (\<exists>c \<in> set f. c \<noteq> CHR ''/'')"

lemma valid_file_id_key: "valid_file_id f \<Longrightarrow> \<exists>k. getKey f i = Inr k"
  using getKey_fails_iff [of f i] unfolding valid_file_id_def by (cases "getKey f i") auto

lemma open_file_simps [simp]:
  "m_fileId (open_file h B f) = f" "m_helper (open_file h B f) = h" "m_blockSize (open_file h B f) = B"
  by (simp_all add: open_file_def)

text \<open>Every operation gives back the locks it takes, whether it succeeds or fails.\<close>

lemma readBlock_object_locks: "readBlock_object h k off n st = (r, st') \<Longrightarrow> m_locks st' = m_locks st"
  by (auto simp: readBlock_object_def split: prod.splits)

lemma putObject_state_locks: "putObject_state h k b off st = (r, st') \<Longrightarrow> m_locks st' = m_locks st"
  by (auto simp: putObject_state_def split: prod.splits)

lemma deleteObjects_state_locks: "deleteObjects_state h ks st = (r, st') \<Longrightarrow> m_locks st' = m_locks st"
  by (auto simp: deleteObjects_state_def split: prod.splits)

lemmas op_locks = readBlock_object_locks putObject_state_locks deleteObjects_state_locks

lemma readBlock_locks: "m_locks (snd (readBlock fh bid bo n st)) \<subseteq> m_locks st"
  by (auto simp: readBlock_def split: sum.splits prod.splits dest!: op_locks)

lemma writeBlock_locks: "m_locks (snd (writeBlock fh buf bid bo st)) \<subseteq> m_locks st"
  by (auto simp: writeBlock_def Let_def split: sum.splits prod.splits if_splits dest!: op_locks)

lemma truncateBlock_locks: "m_locks (snd (truncateBlock h key n st)) \<subseteq> m_locks st"
  by (auto simp: truncateBlock_def split: sum.splits prod.splits dest!: op_locks)

lemma runTasks_locks:
  assumes "\<And>t s. m_locks (snd (f t s)) \<subseteq> m_locks s"
  shows "m_locks (snd (runTasks f ts st)) \<subseteq> m_locks st"
proof (induction ts arbitrary: st)
  case (Cons t ts)
  obtain r s1 where f: "f t st = (r, s1)" by force
  then have "m_locks s1 \<subseteq> m_locks st" using assms [of t st] by simp
  then show ?case using f Cons.IH [of s1] by (auto split: prod.splits)
qed simp

lemma write_kv_locks:
  assumes "write_kv order fh off buf st = Some (r, st')"
  shows "m_locks st' \<subseteq> m_locks st"
proof -
  let ?f = "\<lambda>c. writeBlock fh (chunkData buf c) (c_blockId c) (c_blockOffset c)"
  have tasks: "m_locks (snd (runTasks ?f ts st)) \<subseteq> m_locks st" for ts
    by (rule runTasks_locks) (rule writeBlock_locks)
  consider "st' = st" | cs rs where "runTasks ?f (order cs) st = (rs, st')"
    using assms by (cases "chunks (m_blockSize fh) off (of_nat (length buf))")
      (auto simp: write_kv_def split: if_split_asm prod.split_asm)
  then show ?thesis
  proof cases
    case (2 cs rs)
    then show ?thesis using tasks [of "order cs"] by simp
  qed simp
qed

lemma readBlocks_locks:
  assumes "readBlocks order fh off n st = Some (r, st')"
  shows "m_locks st' \<subseteq> m_locks st"
proof -
  let ?f = "\<lambda>c s. case readBlock fh (c_blockId c) (c_blockOffset c) (c_blockSize c) s of
       (r, s') \<Rightarrow> (map_sum id (\<lambda>b. fillToSize b (c_blockSize c)) r, s')"
  have "m_locks (snd (?f c s)) \<subseteq> m_locks s" for c s
    using readBlock_locks [of fh "c_blockId c" "c_blockOffset c" "c_blockSize c" s] by (auto split: prod.splits)
  then have tasks: "m_locks (snd (runTasks ?f ts st)) \<subseteq> m_locks st" for ts by (rule runTasks_locks)
  consider "st' = st" | cs rs where "runTasks ?f (order cs) st = (rs, st')"
    using assms by (cases "chunks (m_blockSize fh) off n") (auto simp: readBlocks_def split: if_split_asm prod.split_asm)
  then show ?thesis
  proof cases
    case (2 cs rs)
    then show ?thesis using tasks [of "order cs"] by simp
  qed simp
qed

lemma unlink_locks:
  assumes "unlink h B f n st = Some (r, st')"
  shows "m_locks st' \<subseteq> m_locks st"
proof -
  consider "st' = st" | ks where "deleteObjects_state h ks st = (r, st')"
    using assms by (cases "objectIdLoop 0 (n div B)") (auto simp: unlink_def split: if_split_asm sum.split_asm)
  then show ?thesis by cases (auto dest: op_locks)
qed

lemma truncate_locks:
  assumes "truncate_kv h B f n m st = Some (r, st')"
  shows "m_locks st' \<subseteq> m_locks st"
proof -
  consider "st' = st" | k sz q where "truncateBlock h k sz st = (q, st')"
    | k sz q st1 ks where "truncateBlock h k sz st = (q, st1)" "deleteObjects_state h ks st1 = (r, st')"
    | ks where "deleteObjects_state h ks st = (r, st')"
    using assms
    by (cases "objectIdLoop 0 (getBlockId m B)")
      (auto simp: truncate_kv_def Let_def split: if_split_asm sum.split_asm prod.split_asm)
  then show ?thesis
  proof cases
    case (2 k sz q)
    then show ?thesis using truncateBlock_locks [of h k sz st] by simp
  next
    case (3 k sz q st1 ks)
    then show ?thesis using truncateBlock_locks [of h k sz st] op_locks(3) [of h ks st1 r st'] by simp
  qed (auto dest: op_locks)
qed

lemma runs_each_once_rev: "runs_each_once rev"
  by (simp add: runs_each_once_def)

section \<open>Files on S3\<close>

abbreviation s3_file :: "'s s3_client \<Rightarrow> string \<Rightarrow> string \<Rightarrow> u64 \<Rightarrow> string \<Rightarrow> 's kv_handle" where
  "s3_file client bucket moved B f \<equiv> open_file (S3Helper moved \<lparr>m_client = client, m_bucket = bucket\<rparr>) B f"

abbreviation empty_store :: "objects kv_state" where
  "empty_store \<equiv> \<lparr>store = (\<lambda>_. None), m_locks = {}\<rparr>"

text \<open>
  C1. A write to a file kept on S3 refines a write to one flat sequence of bytes: it ends
  and reports the whole buffer written, in whatever order the executor runs the block tasks;
  the buffer is then at its offset, every other byte of the file is as before, and so is
  every object of another file.
\<close>

theorem s3_write_refines:
  assumes "s3_service client bucket obj ready" and "ready (store st)" and "runs_each_once order"
    and "0 < B" and "unat B \<le> 2 ^ 63" and "valid_file_id f" and "unat off + length buf < 2 ^ 64"
  shows "\<exists>st'. write_kv order (s3_file client bucket moved B f) off buf st = Some (Inr (length buf), st') \<and>
    ready (store st') \<and>
    (\<forall>p < 2 ^ 64. file_byte (obj (store st')) f (unat B) p =
       written (file_byte (obj (store st)) f (unat B)) (unat off) buf p) \<and>
    (\<forall>k. (\<forall>i. getKey f i \<noteq> Inr k) \<longrightarrow> obj (store st') k = obj (store st) k)"
proof -
  obtain k0 where k0: "getKey f 0 = Inr k0" using valid_file_id_key [OF assms(6)] by blast
  have "\<exists>st'. write_kv order (s3_file client bucket moved B f) off buf st = Some (Inr (length buf), st') \<and>
      ready (store st') \<and> m_locks st' \<subseteq> m_locks st \<and>
      (\<forall>k. (\<forall>i. getKey f i \<noteq> Inr k) \<longrightarrow> obj (store st') k = obj (store st) k) \<and>
      (\<forall>p < 2 ^ 64. file_byte (obj (store st')) f (unat B) p =
         written (file_byte (obj (store st)) f (unat B)) (unat off) buf p)"
    using block_store.write_kv_writes [OF s3_service.s3_block [OF assms(1), of moved] assms(2) _ assms(3), of "s3_file client bucket moved B f" k0 off buf]
      assms(4,5,7) k0
    by (simp only: open_file_simps simp_thms)
  then show ?thesis by blast
qed

theorem s3_write_refines_witness:
  "\<exists>st'. write_kv rev (s3_file mem_s3 ''bucket'' '''' 4 ''f'') 3 [1, 2, 3] empty_store = Some (Inr 3, st') \<and>
     file_byte (store st') ''f'' 4 4 = 2 \<and> file_byte (store st') ''f'' 4 6 = 0"
proof -
  have empty: "file_byte (\<lambda>_. None) ''f'' 4 = (\<lambda>_. 0)"
    by (rule ext) (simp add: file_byte_def content_def split: sum.splits)
  have "\<exists>st'. write_kv rev (s3_file mem_s3 ''bucket'' '''' 4 ''f'') 3 [1, 2, 3] empty_store = Some (Inr (length [1, 2, 3 :: byte]), st') \<and>
      (\<forall>p < 2 ^ 64. file_byte (store st') ''f'' (unat (4 :: u64)) p =
         written (file_byte (store empty_store) ''f'' (unat (4 :: u64))) (unat (3 :: u64)) [1, 2, 3] p)"
    using s3_write_refines [OF memory_s3.s3_service_axioms, where st = empty_store and order = rev and B = 4 and f = "''f''" and off = 3 and buf = "[1, 2, 3]" and moved = "''''"] runs_each_once_rev
    by (auto simp: valid_file_id_def)
  then obtain st' where "write_kv rev (s3_file mem_s3 ''bucket'' '''' 4 ''f'') 3 [1, 2, 3] empty_store = Some (Inr 3, st')"
    and "\<And>p. p < 2 ^ 64 \<Longrightarrow> file_byte (store st') ''f'' 4 p = written (\<lambda>_. 0) 3 [1, 2, 3] p"
    by (auto simp: empty)
  then show ?thesis by (auto simp: written_def byte_at_def)
qed

section \<open>Files on Ceph RADOS\<close>

abbreviation ceph_file :: "'s ceph_helper \<Rightarrow> u64 \<Rightarrow> string \<Rightarrow> 's ceph_state kv_handle" where
  "ceph_file helper B f \<equiv> open_file (CephRadosHelper helper) B f"

abbreviation ceph_store :: "objects \<Rightarrow> objects ceph_state kv_state" where
  "ceph_store objs \<equiv> \<lparr>store = \<lparr>connected = False, rados = objs\<rparr>, m_locks = {}\<rparr>"

text \<open>
  C2. What is read from a file on Ceph RADOS after a write is the range of the file with
  the buffer written into it, zeros where nothing was ever written; both calls end, for
  any orders in which the executor runs their tasks, and the read changes no object.
\<close>

theorem ceph_read_after_write:
  assumes "rados_service helper obj ready" and "ready (rados (store st))"
    and "runs_each_once order" and "runs_each_once order'"
    and "0 < B" and "unat B \<le> 2 ^ 63" and "valid_file_id f"
    and "unat off + length buf < 2 ^ 64" and "unat off' + unat n \<le> 2 ^ 64"
  shows "\<exists>st' st''. write_kv order (ceph_file helper B f) off buf st = Some (Inr (length buf), st') \<and>
    readBlocks order' (ceph_file helper B f) off' n st' =
      Some (Inr (map (written (file_byte (obj (rados (store st))) f (unat B)) (unat off) buf)
        [unat off'..<unat off' + unat n]), st'') \<and>
    obj (rados (store st'')) = obj (rados (store st'))"
proof -
  obtain k0 where k0: "getKey f 0 = Inr k0" using valid_file_id_key [OF assms(7)] by blast
  obtain st' where w: "write_kv order (ceph_file helper B f) off buf st = Some (Inr (length buf), st')"
    "ready (rados (store st'))"
    and b: "\<forall>p < 2 ^ 64. file_byte (obj (rados (store st'))) f (unat B) p =
      written (file_byte (obj (rados (store st))) f (unat B)) (unat off) buf p"
    using block_store.write_kv_writes [OF rados_service.ceph_block [OF assms(1)] assms(2) _ assms(3), of "ceph_file helper B f" k0 off buf]
      assms(5,6,8) k0 by (simp only: open_file_simps simp_thms) blast
  have "map (file_byte (obj (rados (store st'))) f (unat B)) [unat off'..<unat off' + unat n] =
      map (written (file_byte (obj (rados (store st))) f (unat B)) (unat off) buf) [unat off'..<unat off' + unat n]"
    using b assms(9) by auto
  then show ?thesis
    using object_store.readBlocks_reads [OF rados_service.ceph_object [OF assms(1)] w(2) _ assms(4), of "ceph_file helper B f" k0 off' n]
      assms(5,6,9) k0 w(1) by (simp only: open_file_simps simp_thms) blast
qed

theorem ceph_read_after_write_witness:
  "\<exists>st' st''. write_kv rev (ceph_file mem_ceph 2 ''f'') 1 [7, 8, 9] (ceph_store (\<lambda>_. None)) = Some (Inr 3, st') \<and>
     readBlocks rev (ceph_file mem_ceph 2 ''f'') 0 5 st' = Some (Inr [0, 7, 8, 9, 0], st'')"
proof -
  have empty: "file_byte (\<lambda>_. None) ''f'' 2 = (\<lambda>_. 0)"
    by (rule ext) (simp add: file_byte_def content_def split: sum.splits)
  have "[0..<5] = [0, 1, 2, 3, 4 :: nat]" by (simp add: upt_rec)
  then have bytes: "map (written (\<lambda>_. 0) (Suc 0) [7, 8, 9]) [0..<5] = [0, 7, 8, 9, 0]"
    by (simp add: written_def byte_at_def)
  show ?thesis
    using ceph_read_after_write [OF memory_rados.rados_service_axioms, where st = "ceph_store (\<lambda>_. None)" and order = rev
        and order' = rev and B = 2 and f = "''f''" and off = 1 and buf = "[7, 8, 9]" and off' = 0 and n = 5]
      runs_each_once_rev
    by (auto simp: valid_file_id_def empty bytes numeral_3_eq_3)
qed



text \<open>
  C4. Shortening a file on Ceph RADOS within its last block leaves every byte of the file
  as it was, those past the new end included: the block is put back in place, and the
  object is not cut.
\<close>

theorem ceph_truncate_keeps_tail:
  assumes "rados_service helper obj ready" and "ready (rados (store st))"
    and "0 < B" and "unat B \<le> 2 ^ 63" and "valid_file_id f" and "sz \<noteq> currentSize"
    and "unat currentSize div unat B < 2 ^ 64 - 1"
    and "unat sz div unat B = unat currentSize div unat B" and "unat sz mod unat B \<noteq> 0"
  shows "\<exists>st'. truncate_kv (CephRadosHelper helper) B f sz currentSize st = Some (Inr (), st') \<and>
    (\<forall>p. file_byte (obj (rados (store st'))) f (unat B) p = file_byte (obj (rados (store st))) f (unat B) p)"
proof -
  obtain k0 where k0: "getKey f 0 = Inr k0" using valid_file_id_key [OF assms(5)] by blast
  show ?thesis
    using in_place_store.truncate_in_block_keeps [OF rados_service.ceph_in_place [OF assms(1)] assms(2-4) k0 assms(6-9)] by auto
qed

theorem ceph_truncate_keeps_tail_witness:
  "\<exists>st'. truncate_kv (CephRadosHelper mem_ceph) 4 ''f'' 1 3 (ceph_store [''f/999999'' \<mapsto> [1, 2, 3]]) = Some (Inr (), st') \<and>
     file_byte (rados (store st')) ''f'' 4 2 = 3"
proof -
  have "getKey ''f'' 0 = Inr ''f/999999''" by (simp add: key_eval)
  then have "file_byte [''f/999999'' \<mapsto> [1, 2, 3]] ''f'' 4 2 = 3" by (simp add: file_byte_def content_def byte_at_def)
  then show ?thesis
    using ceph_truncate_keeps_tail [OF memory_rados.rados_service_axioms,
        where st = "ceph_store [''f/999999'' \<mapsto> [1, 2, 3]]" and B = 4 and f = "''f''" and sz = 1 and currentSize = 3]
    by (auto simp: valid_file_id_def)
qed

section \<open>Truncating and removing on storages that replace objects\<close>

abbreviation swift_kv :: "'s swift_client \<Rightarrow> string \<Rightarrow> string list \<Rightarrow> 's swift_state kv_helper" where
  "swift_kv client container moved \<equiv> SwiftHelper moved \<lparr>m_swift = client, m_containerName = container\<rparr>"

abbreviation swift_store :: "objects \<Rightarrow> objects swift_state kv_state" where
  "swift_store objs \<equiv> \<lparr>store = \<lparr>m_account = False, service = objs\<rparr>, m_locks = {}\<rparr>"

text \<open>
  C5. Truncating a file on Swift ends and keeps exactly the bytes before the new end: every
  byte from there to the end of the file's last block reads as zero afterwards, whether
  its block was deleted or cut.
\<close>

theorem swift_truncate_truncates:
  assumes "swift_service client container obj ready" and "ready (service (store st))"
    and "0 < B" and "unat B \<le> 2 ^ 63" and "valid_file_id f" and "sz \<noteq> currentSize"
    and "unat currentSize div unat B < 2 ^ 64 - 1"
    and "unat currentSize div unat B < unat sz div unat B + MAX_DELETE_OBJECTS"
  shows "\<exists>st'. truncate_kv (swift_kv client container moved) B f sz currentSize st = Some (Inr (), st') \<and>
    (\<forall>p < 2 ^ 64.
       (p < unat sz \<longrightarrow> file_byte (obj (service (store st'))) f (unat B) p = file_byte (obj (service (store st))) f (unat B) p) \<and>
       (unat sz \<le> p \<and> p div unat B \<le> unat currentSize div unat B \<longrightarrow>
          file_byte (obj (service (store st'))) f (unat B) p = 0))"
proof -
  obtain k0 where k0: "getKey f 0 = Inr k0" using valid_file_id_key [OF assms(5)] by blast
  show ?thesis
    using replacing_store.truncate_truncates [OF swift_service.swift_replacing [OF assms(1), of moved] assms(2-4) k0 assms(6-8)] by blast
qed

theorem swift_truncate_truncates_witness:
  "\<exists>st'. truncate_kv (swift_kv mem_swift ''container'' []) 4 ''f'' 1 3 (swift_store [''f/999999'' \<mapsto> [1, 2, 3]]) = Some (Inr (), st') \<and>
     file_byte (service (store st')) ''f'' 4 0 = 1 \<and> file_byte (service (store st')) ''f'' 4 2 = 0"
proof -
  have "getKey ''f'' 0 = Inr ''f/999999''" by (simp add: key_eval)
  then have one: "file_byte [''f/999999'' \<mapsto> [1, 2, 3]] ''f'' 4 0 = 1" by (simp add: file_byte_def content_def byte_at_def)
  obtain st' where t: "truncate_kv (swift_kv mem_swift ''container'' []) 4 ''f'' 1 3 (swift_store [''f/999999'' \<mapsto> [1, 2, 3]]) = Some (Inr (), st')"
    and bytes: "\<And>p. p < 2 ^ 64 \<Longrightarrow>
       (p < 1 \<longrightarrow> file_byte (service (store st')) ''f'' 4 p = file_byte [''f/999999'' \<mapsto> [1, 2, 3]] ''f'' 4 p) \<and>
       (1 \<le> p \<and> p div 4 \<le> 3 div 4 \<longrightarrow> file_byte (service (store st')) ''f'' 4 p = 0)"
    using swift_truncate_truncates [OF memory_swift.swift_service_axioms,
        where st = "swift_store [''f/999999'' \<mapsto> [1, 2, 3]]" and B = 4 and f = "''f''" and sz = 1 and currentSize = 3 and moved = "[]"]
    by (auto simp: valid_file_id_def MAX_DELETE_OBJECTS_def)
  show ?thesis using t bytes [of 0] bytes [of 2] one by simp
qed

text \<open>
  Removing a file of up to 1000 blocks from S3 deletes exactly the objects of its
  blocks: none of them is left, and no other object is touched.
\<close>

lemma s3_unlink_removes:
  assumes "s3_service client bucket obj ready" and "ready (store st)" and "0 < B" and "valid_file_id f"
    and "0 < currentSize" and "unat currentSize div unat B < MAX_DELETE_OBJECTS"
  shows "\<exists>st'. unlink (S3Helper moved \<lparr>m_client = client, m_bucket = bucket\<rparr>) B f currentSize st = Some (Inr (), st') \<and>
    obj (store st') = (\<lambda>k. if \<exists>i. getKey f i = Inr k \<and> unat i \<le> unat currentSize div unat B then None
                           else obj (store st) k)"
proof -
  obtain k0 where k0: "getKey f 0 = Inr k0" using valid_file_id_key [OF assms(4)] by blast
  have "object_store (S3Helper moved \<lparr>m_client = client, m_bucket = bucket\<rparr>) obj ready"
    using s3_service.s3_replacing [OF assms(1)] by (rule replacing_store.axioms)
  from object_store.unlink_removes [OF this assms(2,3) k0 assms(5,6)] show ?thesis by blast
qed

section \<open>Keys and locks\<close>





end
