(* ===== verification/Protocol.thy ===== *)
theory Protocol
  imports Prelude
begin

text \<open>
  The messages the communication layers exchange, with the fields of the generated
  \<^verbatim>\<open>clproto\<close> classes the sources read and set, the constants of
  \<^verbatim>\<open>src/src/communication/declarations.h\<close>, and the contract of
  \<^verbatim>\<open>tbb::concurrent_priority_queue\<close>, which two of the components keep messages in.
\<close>

section \<open>Messages\<close>

record stream_tag =
  stream_id :: u64
  sequence_number :: u64

datatype client_body =
    MessageRequest u64 u64 u64
  | MessageAcknowledgement u64 u64
  | MessageStreamReset
  | EndOfStream
  | ClientBody bytes

record client_msg =
  c_message_id :: string
  c_message_stream :: "stream_tag option"
  c_body :: client_body

text \<open>
  What a server message carries: a request to send messages again (stream, lower and upper
  number), an acknowledgement (stream, number), a reset (of one stream or of all), the end
  of the stream, a processing status, or anything else.
\<close>

datatype server_body =
    s_message_request u64 u64 u64
  | s_message_acknowledgement u64 u64
  | s_message_stream_reset "u64 option"
  | s_end_of_stream
  | s_processing_status
  | ServerBody bytes

record server_msg =
  s_message_id :: string
  s_message_stream :: "stream_tag option"
  s_body :: server_body

definition DEFAULT_RETRY_NUMBER :: int where "DEFAULT_RETRY_NUMBER = 5"
definition STREAM_MSG_ACK_WINDOW :: u64 where "STREAM_MSG_ACK_WINDOW = 100"

text \<open>\<^verbatim>\<open>msg.message_stream()\<close> of a message without the field is the default instance.\<close>

definition s_seq :: "server_msg \<Rightarrow> u64" where
  "s_seq msg = (case s_message_stream msg of None \<Rightarrow> 0 | Some t \<Rightarrow> sequence_number t)"

definition c_seq :: "client_msg \<Rightarrow> u64" where
  "c_seq msg = (case c_message_stream msg of None \<Rightarrow> 0 | Some t \<Rightarrow> sequence_number t)"

section \<open>Priority queues\<close>

text \<open>
  \<^verbatim>\<open>tbb::concurrent_priority_queue\<close>: \<open>lower a b\<close> is its comparison, \<^verbatim>\<open>emplace\<close> adds an
  element, \<^verbatim>\<open>try_pop\<close> fails on an empty queue only and else removes an element that is
  lower than no other. The queue is a list of its elements.
\<close>

locale priority_queue =
  fixes lower :: "'m \<Rightarrow> 'm \<Rightarrow> bool"
    and try_pop :: "'m list \<Rightarrow> ('m \<times> 'm list) option"
  assumes pop_empty: "try_pop [] = None"
    and pop_highest: "q \<noteq> [] \<Longrightarrow>
      \<exists>m q'. try_pop q = Some (m, q') \<and> mset q = add_mset m (mset q') \<and> (\<forall>x \<in> set q. \<not> lower m x)"

context priority_queue
begin

lemma pop_cases:
  obtains "q = []" and "try_pop q = None"
  | m q' where "try_pop q = Some (m, q')" and "mset q = add_mset m (mset q')"
      and "\<And>x. x \<in> set q \<Longrightarrow> \<not> lower m x" and "length q = Suc (length q')" and "set q = insert m (set q')"
proof (cases "q = []")
  case False
  from pop_highest [OF this] obtain m q' where p: "try_pop q = Some (m, q')" "mset q = add_mset m (mset q')"
    "\<forall>x \<in> set q. \<not> lower m x" by blast
  moreover have "length q = Suc (length q')" using p(2) by (metis size_add_mset size_mset)
  moreover have "set q = insert m (set q')" using p(2) by (metis set_mset_add_mset_insert set_mset_mset)
  ultimately show ?thesis using that by blast
qed (use pop_empty that in simp)

end

text \<open>
  A queue that keeps its elements in the order they were added and takes out the first
  one that is lower than no other.
\<close>

fun pick :: "('m \<Rightarrow> 'm \<Rightarrow> bool) \<Rightarrow> 'm \<Rightarrow> 'm list \<Rightarrow> 'm" where
  "pick lower m [] = m"
| "pick lower m (x # xs) = (if lower m x then pick lower x xs else pick lower m xs)"

definition list_try_pop :: "('m \<Rightarrow> 'm \<Rightarrow> bool) \<Rightarrow> 'm list \<Rightarrow> ('m \<times> 'm list) option" where
  "list_try_pop lower q =
     (case q of [] \<Rightarrow> None | x # xs \<Rightarrow> (let m = pick lower x xs in Some (m, remove1 m q)))"

text \<open>The order by a number, and the reverse order.\<close>

lemma pick_by_key:
  fixes key :: "'m \<Rightarrow> 'k :: linorder"
  assumes "lower = (\<lambda>a b. key a < key b) \<or> lower = (\<lambda>a b. key a > key b)"
  shows "pick lower m xs \<in> set (m # xs) \<and> (\<forall>x \<in> set (m # xs). \<not> lower (pick lower m xs) x)"
proof (induction xs arbitrary: m)
  case Nil
  then show ?case using assms by auto
next
  case (Cons x xs)
  show ?case
  proof (cases "lower m x")
    case True
    then show ?thesis using Cons.IH [of x] assms by (auto intro: less_trans)
  next
    case False
    then have "\<not> lower (pick lower m xs) x" using Cons.IH [of m] assms by auto
    then show ?thesis using False Cons.IH [of m] by auto
  qed
qed

lemma list_priority_queue:
  fixes key :: "'m \<Rightarrow> 'k :: linorder"
  assumes "lower = (\<lambda>a b. key a < key b) \<or> lower = (\<lambda>a b. key a > key b)"
  shows "priority_queue lower (list_try_pop lower)"
proof
  fix q :: "'m list"
  assume "q \<noteq> []"
  then obtain x xs where q: "q = x # xs" by (cases q) auto
  let ?m = "pick lower x xs"
  have "?m \<in> set q" and "\<forall>y \<in> set q. \<not> lower ?m y" using pick_by_key [OF assms, of x xs] by (auto simp: q)
  moreover have "list_try_pop lower q = Some (?m, remove1 ?m q)" by (simp only: list_try_pop_def q list.case Let_def)
  ultimately show "\<exists>m q'. list_try_pop lower q = Some (m, q') \<and> mset q = add_mset m (mset q') \<and> (\<forall>x \<in> set q. \<not> lower m x)"
    by (intro exI [of _ ?m] exI [of _ "remove1 ?m q"]) simp
qed (simp add: list_try_pop_def)

end
