(* ===== verification/TypedStream.thy ===== *)
theory TypedStream
  imports Protocol
begin

text \<open>
  \<^verbatim>\<open>src/src/communication/streaming/typedStream.h\<close> and \<^verbatim>\<open>streamManager.h\<close>: outgoing
  streams. A stream numbers its messages and keeps them until they are acknowledged, to
  send them again on request; the manager creates streams and hands them the server's
  messages. The priority queue is the parameter \<open>try_pop\<close>.
\<close>

section \<open>The buffer mutex\<close>

text \<open>
  A \<^verbatim>\<open>std::shared_timed_mutex\<close> locked by the one thread that runs the call: a lock that
  conflicts with one the thread itself holds is never granted (\<open>None\<close>).
\<close>

datatype mutex_state = Free | Shared nat | Exclusive

fun lock_shared :: "mutex_state \<Rightarrow> mutex_state option" where
  "lock_shared Free = Some (Shared 1)"
| "lock_shared (Shared n) = Some (Shared (Suc n))"
| "lock_shared Exclusive = None"

fun unlock_shared :: "mutex_state \<Rightarrow> mutex_state" where
  "unlock_shared (Shared (Suc (Suc n))) = Shared (Suc n)"
| "unlock_shared _ = Free"

fun lock_exclusive :: "mutex_state \<Rightarrow> mutex_state option" where
  "lock_exclusive Free = Some Exclusive"
| "lock_exclusive _ = None"

section \<open>Streams\<close>

definition StreamLess :: "client_msg \<Rightarrow> client_msg \<Rightarrow> bool" where
  "StreamLess a b = (c_seq a < c_seq b)"

record typed_stream =
  m_streamId :: u64
  m_sequenceId :: u64
  m_bufferMutex :: mutex_state
  ts_buffer :: "client_msg list"

type_synonym pop_client = "client_msg list \<Rightarrow> (client_msg \<times> client_msg list) option"

text \<open>
  What a call does: the messages it sends through the communicator, in order, and the
  stream it leaves; \<open>None\<close> is a call that never returns.
\<close>

type_synonym stream_call = "(client_msg list \<times> typed_stream) option"

definition new_stream :: "u64 \<Rightarrow> typed_stream" where
  "new_stream streamId =
     \<lparr>m_streamId = streamId, m_sequenceId = 0, m_bufferMutex = Free, ts_buffer = []\<rparr>"

definition saveAndPass :: "client_msg \<Rightarrow> typed_stream \<Rightarrow> stream_call" where
  "saveAndPass msg ts =
     (case lock_shared (m_bufferMutex ts) of
        None \<Rightarrow> None
      | Some mx \<Rightarrow>
          Some ([msg], ts\<lparr>ts_buffer := msg # ts_buffer ts, m_bufferMutex := unlock_shared mx\<rparr>))"

definition ts_send :: "client_msg \<Rightarrow> typed_stream \<Rightarrow> stream_call" where
  "ts_send msg ts =
     saveAndPass
       (msg\<lparr>c_message_stream := Some \<lparr>stream_id = m_streamId ts, sequence_number = m_sequenceId ts\<rparr>\<rparr>)
       (ts\<lparr>m_sequenceId := m_sequenceId ts + 1\<rparr>)"

definition ts_close :: "typed_stream \<Rightarrow> stream_call" where
  "ts_close ts =
     ts_send \<lparr>c_message_id = [], c_message_stream = None, c_body = EndOfStream\<rparr> ts"

text \<open>Running calls one after the other.\<close>

fun each_call :: "('x \<Rightarrow> typed_stream \<Rightarrow> stream_call) \<Rightarrow> 'x list \<Rightarrow> typed_stream \<Rightarrow> stream_call" where
  "each_call f [] ts = Some ([], ts)"
| "each_call f (x # xs) ts =
     Option.bind (f x ts) (\<lambda>(ev, ts1).
       Option.bind (each_call f xs ts1) (\<lambda>(ev', ts2). Some (ev @ ev', ts2)))"

text \<open>The loop that takes every message out of the buffer, in the order of the queue.\<close>

partial_function (option) popAll :: "pop_client \<Rightarrow> client_msg list \<Rightarrow> client_msg list option" where
  "popAll try_pop q =
     (case try_pop q of
        None \<Rightarrow> Some []
      | Some (it, rest) \<Rightarrow> Option.bind (popAll try_pop rest) (\<lambda>ms. Some (it # ms)))"

text \<open>\<^verbatim>\<open>it->mutable_message_stream()->set_sequence_number(m_sequenceId++)\<close> on each, from 0.\<close>

fun renumber :: "u64 \<Rightarrow> client_msg list \<Rightarrow> client_msg list" where
  "renumber n [] = []"
| "renumber n (m # ms) =
     m\<lparr>c_message_stream := Some
         \<lparr>stream_id = (case c_message_stream m of None \<Rightarrow> 0 | Some t \<Rightarrow> stream_id t), sequence_number = n\<rparr>\<rparr>
     # renumber (n + 1) ms"

definition ts_reset :: "pop_client \<Rightarrow> typed_stream \<Rightarrow> stream_call" where
  "ts_reset try_pop ts =
     Option.bind (lock_exclusive (m_bufferMutex ts)) (\<lambda>mx.
     Option.bind (popAll try_pop (ts_buffer ts)) (\<lambda>popped.
       (let processed = renumber 0 popped;
            ts1 = ts\<lparr>m_bufferMutex := mx, m_sequenceId := of_nat (length processed), ts_buffer := []\<rparr>
        in Option.bind (each_call saveAndPass processed ts1)
             (\<lambda>(ev, ts2). Some (ev, ts2\<lparr>m_bufferMutex := Free\<rparr>)))))"

text \<open>The loop of \<^verbatim>\<open>handleMessageRequest\<close>: messages up to \<open>upper\<close>, until one is past it.\<close>

partial_function (option) popUpTo ::
  "pop_client \<Rightarrow> u64 \<Rightarrow> client_msg list \<Rightarrow> (client_msg list \<times> client_msg list) option" where
  "popUpTo try_pop upper q =
     (case try_pop q of
        None \<Rightarrow> Some ([], q)
      | Some (it, rest) \<Rightarrow>
          (if c_seq it \<le> upper
           then Option.bind (popUpTo try_pop upper rest) (\<lambda>(ps, q'). Some (it # ps, q'))
           else Some ([], it # rest)))"

text \<open>
  \<^verbatim>\<open>processed.reserve(upper - lower + 1)\<close> throws for more elements than a vector of
  pointers can hold.
\<close>

definition max_reserve :: u64 where "max_reserve = 1152921504606846975"

definition resendOrKeep :: "u64 \<Rightarrow> client_msg \<Rightarrow> typed_stream \<Rightarrow> stream_call" where
  "resendOrKeep lower m ts =
     (if c_seq m \<ge> lower then saveAndPass m ts else Some ([], ts\<lparr>ts_buffer := m # ts_buffer ts\<rparr>))"

definition ts_handleMessageRequest ::
  "pop_client \<Rightarrow> u64 \<Rightarrow> u64 \<Rightarrow> typed_stream \<Rightarrow> (client_msg list fut \<times> typed_stream) option" where
  "ts_handleMessageRequest try_pop lower upper ts =
     (if upper - lower + 1 > max_reserve then Some (Inl length_error, ts)
      else
        Option.bind (lock_shared (m_bufferMutex ts)) (\<lambda>mx.
        Option.bind (popUpTo try_pop upper (ts_buffer ts)) (\<lambda>(processed, q).
        Option.bind
          (each_call (resendOrKeep lower) processed (ts\<lparr>m_bufferMutex := mx, ts_buffer := q\<rparr>))
          (\<lambda>(ev, ts2). Some (Inr ev, ts2\<lparr>m_bufferMutex := unlock_shared (m_bufferMutex ts2)\<rparr>)))))"

text \<open>The loop of \<^verbatim>\<open>handleMessageAcknowledgement\<close>.\<close>

partial_function (option) dropAcked :: "pop_client \<Rightarrow> u64 \<Rightarrow> client_msg list \<Rightarrow> client_msg list option" where
  "dropAcked try_pop num q =
     (case try_pop q of
        None \<Rightarrow> Some q
      | Some (it, rest) \<Rightarrow> (if c_seq it > num then Some (it # rest) else dropAcked try_pop num rest))"

definition ts_handleMessageAcknowledgement :: "pop_client \<Rightarrow> u64 \<Rightarrow> typed_stream \<Rightarrow> typed_stream option" where
  "ts_handleMessageAcknowledgement try_pop num ts =
     Option.bind (lock_shared (m_bufferMutex ts)) (\<lambda>mx.
     Option.bind (dropAcked try_pop num (ts_buffer ts)) (\<lambda>q.
       Some (ts\<lparr>ts_buffer := q, m_bufferMutex := unlock_shared mx\<rparr>)))"

section \<open>The manager\<close>

text \<open>
  \<open>streams\<close> holds the stream objects alive, by stream id: what a \<^verbatim>\<open>weak_ptr\<close> can be
  locked to. \<open>m_idMap\<close> maps an id to the weak pointer, \<open>m_streams\<close> is the vector of
  weak pointers and \<open>m_streamsSlots\<close> the queue of its free slots.
\<close>

record stream_manager =
  m_nextStreamId :: u64
  m_idMap :: "u64 \<Rightarrow> u64 option"
  m_streams :: "u64 option list"
  m_streamsSlots :: "nat list"
  streams :: "u64 \<Rightarrow> typed_stream option"
  slots :: "u64 \<Rightarrow> nat"

definition new_manager :: stream_manager where
  "new_manager =
     \<lparr>m_nextStreamId = 0, m_idMap = (\<lambda>_. None), m_streams = [], m_streamsSlots = [],
      streams = (\<lambda>_. None), slots = (\<lambda>_. 0)\<rparr>"

definition create_stream :: "stream_manager \<Rightarrow> u64 \<times> stream_manager" where
  "create_stream sm =
     (let (it, slots0, vec) =
            (case m_streamsSlots sm of
               [] \<Rightarrow> (length (m_streams sm), [], m_streams sm @ [None])
             | i # is \<Rightarrow> (i, is, m_streams sm));
          streamId = m_nextStreamId sm
      in (streamId,
          sm\<lparr>m_nextStreamId := streamId + 1,
             m_streamsSlots := slots0,
             m_streams := vec[it := Some streamId],
             m_idMap := (m_idMap sm)(streamId \<mapsto> streamId),
             streams := (streams sm)(streamId \<mapsto> new_stream streamId),
             slots := (slots sm)(streamId := it)\<rparr>))"

text \<open>The destructor of a stream: it closes the stream, then runs \<open>unregister\<close>.\<close>

definition destroy_stream :: "u64 \<Rightarrow> stream_manager \<Rightarrow> (client_msg list \<times> stream_manager) option" where
  "destroy_stream streamId sm =
     (case streams sm streamId of
        None \<Rightarrow> Some ([], sm)
      | Some ts \<Rightarrow>
          Option.bind (ts_close ts) (\<lambda>(ev, _).
            Some (ev, sm\<lparr>m_idMap := (m_idMap sm)(streamId := None),
                         m_streamsSlots := m_streamsSlots sm @ [slots sm streamId],
                         streams := (streams sm)(streamId := None)\<rparr>)))"

text \<open>
  A call on the manager: the messages sent, or the exception that leaves the call, and
  the manager it leaves; \<open>None\<close> is a call that never returns.
\<close>

type_synonym manager_call = "(client_msg list fut \<times> stream_manager) option"

text \<open>A handler run on the stream an id names, when that stream is registered and alive.\<close>

definition with_stream ::
  "u64 \<Rightarrow> (typed_stream \<Rightarrow> (client_msg list fut \<times> typed_stream) option) \<Rightarrow> stream_manager \<Rightarrow> manager_call" where
  "with_stream streamId f sm =
     (case m_idMap sm streamId of
        None \<Rightarrow> Some (Inr [], sm)
      | Some w \<Rightarrow>
          (case streams sm w of
             None \<Rightarrow> Some (Inr [], sm)
           | Some ts \<Rightarrow> Option.bind (f ts) (\<lambda>(r, ts'). Some (r, sm\<lparr>streams := (streams sm)(w \<mapsto> ts')\<rparr>))))"

definition sm_handleMessageRequest ::
  "pop_client \<Rightarrow> u64 \<Rightarrow> u64 \<Rightarrow> u64 \<Rightarrow> stream_manager \<Rightarrow> manager_call" where
  "sm_handleMessageRequest try_pop sid lower upper sm =
     with_stream sid (ts_handleMessageRequest try_pop lower upper) sm"

definition sm_handleMessageAcknowledgement :: "pop_client \<Rightarrow> u64 \<Rightarrow> u64 \<Rightarrow> stream_manager \<Rightarrow> manager_call" where
  "sm_handleMessageAcknowledgement try_pop sid num sm =
     with_stream sid (\<lambda>ts. map_option (\<lambda>ts'. (Inr [], ts')) (ts_handleMessageAcknowledgement try_pop num ts)) sm"

fun resetEach :: "pop_client \<Rightarrow> u64 option list \<Rightarrow> stream_manager \<Rightarrow> (client_msg list \<times> stream_manager) option" where
  "resetEach try_pop [] sm = Some ([], sm)"
| "resetEach try_pop (w # ws) sm =
     (case Option.bind w (streams sm) of
        None \<Rightarrow> resetEach try_pop ws sm
      | Some ts \<Rightarrow>
          Option.bind (ts_reset try_pop ts) (\<lambda>(ev, ts').
          Option.bind (resetEach try_pop ws (sm\<lparr>streams := (streams sm)(the w \<mapsto> ts')\<rparr>)) (\<lambda>(ev', sm').
            Some (ev @ ev', sm'))))"

definition sm_handleMessageStreamReset :: "pop_client \<Rightarrow> u64 option \<Rightarrow> stream_manager \<Rightarrow> manager_call" where
  "sm_handleMessageStreamReset try_pop sid sm =
     (case sid of
        Some i \<Rightarrow> with_stream i (\<lambda>ts. map_option (\<lambda>(ev, ts'). (Inr ev, ts')) (ts_reset try_pop ts)) sm
      | None \<Rightarrow> map_option (\<lambda>(ev, sm'). (Inr ev, sm')) (resetEach try_pop (m_streams sm) sm))"

definition sm_predicate :: "server_msg \<Rightarrow> bool \<Rightarrow> bool" where
  "sm_predicate msg handled =
     (case s_body msg of
        s_message_request _ _ _ \<Rightarrow> True
      | s_message_acknowledgement _ _ \<Rightarrow> True
      | _ \<Rightarrow> False)"

definition sm_callback ::
  "pop_client \<Rightarrow> server_msg \<Rightarrow> stream_manager \<Rightarrow> manager_call" where
  "sm_callback try_pop msg sm =
     (case s_body msg of
        s_message_request sid lower upper \<Rightarrow> sm_handleMessageRequest try_pop sid lower upper sm
      | s_message_acknowledgement sid num \<Rightarrow> sm_handleMessageAcknowledgement try_pop sid num sm
      | s_message_stream_reset sid \<Rightarrow> sm_handleMessageStreamReset try_pop sid sm
      | _ \<Rightarrow> Some (Inr [], sm))"

text \<open>A server message as the inbox hands it to the subscription.\<close>

definition sm_deliver ::
  "pop_client \<Rightarrow> server_msg \<Rightarrow> bool \<Rightarrow> stream_manager \<Rightarrow> manager_call" where
  "sm_deliver try_pop msg handled sm =
     (if sm_predicate msg handled then sm_callback try_pop msg sm else Some (Inr [], sm))"

section \<open>What the queue's order makes of the handlers\<close>

text \<open>The loops over a queue that pops its highest number first.\<close>

locale stream_queue = priority_queue StreamLess try_pop
  for try_pop :: pop_client

context stream_queue
begin

lemma popAll_returns: "\<exists>ms. popAll try_pop q = Some ms \<and> mset ms = mset q"
proof (induction "length q" arbitrary: q)
  case 0
  then have "q = []" by simp
  then show ?case by (subst popAll.simps) (simp add: pop_empty)
next
  case (Suc n)
  show ?case
  proof (cases rule: pop_cases [of q])
    case 1
    then show ?thesis using Suc.hyps(2) by simp
  next
    case (2 m q')
    then obtain ms where "popAll try_pop q' = Some ms" "mset ms = mset q'"
      using Suc.hyps(1) [of q'] Suc.hyps(2) by auto
    then show ?thesis using 2(1,2) by (subst popAll.simps) simp
  qed
qed

lemma popUpTo_all:
  assumes "\<forall>m \<in> set q. c_seq m \<le> upper"
  shows "\<exists>ps. popUpTo try_pop upper q = Some (ps, []) \<and> mset ps = mset q"
  using assms
proof (induction "length q" arbitrary: q)
  case 0
  then have "q = []" by simp
  then show ?case by (subst popUpTo.simps) (simp add: pop_empty)
next
  case (Suc n)
  show ?case
  proof (cases rule: pop_cases [of q])
    case 1
    then show ?thesis using Suc.hyps(2) by simp
  next
    case (2 m q')
    then obtain ps where "popUpTo try_pop upper q' = Some (ps, [])" "mset ps = mset q'"
      using Suc.hyps(1) [of q'] Suc.hyps(2) Suc.prems by auto
    moreover have "c_seq m \<le> upper" using 2(5) Suc.prems by simp
    ultimately show ?thesis using 2(1,2) by (subst popUpTo.simps) simp
  qed
qed

lemma popUpTo_none:
  assumes "\<not> (\<forall>m \<in> set q. c_seq m \<le> upper)"
  shows "\<exists>q'. popUpTo try_pop upper q = Some ([], q') \<and> mset q' = mset q"
proof (cases rule: pop_cases [of q])
  case 1
  then show ?thesis using assms by simp
next
  case (2 m q')
  obtain x where "x \<in> set q" "\<not> c_seq x \<le> upper" using assms by blast
  then have "\<not> c_seq m \<le> upper" using 2(3) [of x] by (auto simp: StreamLess_def)
  then show ?thesis using 2(1,2) by (subst popUpTo.simps) simp
qed

lemma dropAcked_all:
  assumes "\<forall>m \<in> set q. c_seq m \<le> num"
  shows "dropAcked try_pop num q = Some []"
  using assms
proof (induction "length q" arbitrary: q)
  case 0
  then have "q = []" by simp
  then show ?case by (subst dropAcked.simps) (simp add: pop_empty)
next
  case (Suc n)
  show ?case
  proof (cases rule: pop_cases [of q])
    case 1
    then show ?thesis using Suc.hyps(2) by simp
  next
    case (2 m q')
    then have "dropAcked try_pop num q' = Some []" 
      using Suc.hyps(1) [of q'] Suc.hyps(2) Suc.prems by auto
    moreover have "\<not> num < c_seq m" using 2(5) Suc.prems by (simp add: not_less)
    ultimately show ?thesis using 2(1) by (subst dropAcked.simps) simp
  qed
qed

lemma dropAcked_none:
  assumes "\<not> (\<forall>m \<in> set q. c_seq m \<le> num)"
  shows "\<exists>q'. dropAcked try_pop num q = Some q' \<and> mset q' = mset q"
proof (cases rule: pop_cases [of q])
  case 1
  then show ?thesis using assms by simp
next
  case (2 m q')
  obtain x where "x \<in> set q" "\<not> c_seq x \<le> num" using assms by blast
  then have "c_seq m > num" using 2(3) [of x] by (auto simp: StreamLess_def)
  then show ?thesis using 2(1,2) by (subst dropAcked.simps) simp
qed

end

interpretation list_stream_queue: stream_queue "list_try_pop StreamLess"
  unfolding stream_queue_def
  by (rule list_priority_queue [where key = c_seq]) (auto simp: StreamLess_def fun_eq_iff)

section \<open>Shared locks\<close>

lemma saveAndPass_unlocked:
  assumes "m_bufferMutex ts \<noteq> Exclusive" and "m_bufferMutex ts \<noteq> Shared 0"
  shows "saveAndPass msg ts = Some ([msg], ts\<lparr>ts_buffer := msg # ts_buffer ts\<rparr>)"
proof (cases "m_bufferMutex ts")
  case (Shared n)
  then obtain k where "n = Suc k" using assms(2) by (cases n) auto
  then show ?thesis using Shared by (simp add: saveAndPass_def)
qed (use assms in \<open>simp_all add: saveAndPass_def\<close>)

lemma resend_each:
  fixes ts :: typed_stream
  assumes "m_bufferMutex ts = Shared 1"
  shows "\<exists>b. each_call (resendOrKeep lower) ps ts
         = Some (filter (\<lambda>m. c_seq m \<ge> lower) ps, ts\<lparr>ts_buffer := b\<rparr>)
         \<and> mset b = mset ps + mset (ts_buffer ts)"
  using assms
proof (induction ps arbitrary: ts)
  case Nil
  then show ?case by (intro exI [of _ "ts_buffer ts"]) simp
next
  case (Cons p ps)
  from Cons.IH [of "ts\<lparr>ts_buffer := p # ts_buffer ts\<rparr>"] Cons.prems show ?case
    by (auto simp: resendOrKeep_def saveAndPass_unlocked)
qed

lemma saveAndPass_exclusive: "m_bufferMutex ts = Exclusive \<Longrightarrow> saveAndPass msg ts = None"
  by (simp add: saveAndPass_def)

lemma renumber_Nil [simp]: "renumber n ms = [] \<longleftrightarrow> ms = []"
  by (cases ms) simp_all

text \<open>The messages of a run of \<^verbatim>\<open>send\<close> calls as they leave the stream.\<close>

fun stamped :: "u64 \<Rightarrow> u64 \<Rightarrow> client_msg list \<Rightarrow> client_msg list" where
  "stamped sid n [] = []"
| "stamped sid n (m # ms) =
     m\<lparr>c_message_stream := Some \<lparr>stream_id = sid, sequence_number = n\<rparr>\<rparr> # stamped sid (n + 1) ms"

lemma c_seq_stamp [simp]: "c_seq (m\<lparr>c_message_stream := Some t\<rparr>) = sequence_number t"
  by (simp add: c_seq_def)

lemma stamped_seq: "map c_seq (stamped sid n ms) = map (\<lambda>i. n + of_nat i) [0..<length ms]"
proof (induction ms arbitrary: n)
  case (Cons m ms)
  have "map c_seq (stamped sid (n + 1) ms) = map (\<lambda>i. n + of_nat (Suc i)) [0..<length ms]"
    by (simp add: Cons.IH add.assoc)
  also have "\<dots> = map (\<lambda>i. n + of_nat i) [Suc 0..<Suc (length ms)]"
    by (simp only: map_Suc_upt [symmetric] map_map o_def)
  finally show ?case by (simp add: upt_conv_Cons del: upt_Suc)
qed simp

lemma each_send:
  assumes "m_bufferMutex ts = Free"
  shows "each_call ts_send ms ts =
    Some (stamped (m_streamId ts) (m_sequenceId ts) ms,
          ts\<lparr>m_sequenceId := m_sequenceId ts + of_nat (length ms),
             ts_buffer := rev (stamped (m_streamId ts) (m_sequenceId ts) ms) @ ts_buffer ts\<rparr>)"
  using assms
proof (induction ms arbitrary: ts)
  case (Cons m ms)
  then show ?case by (simp add: ts_send_def saveAndPass_unlocked algebra_simps)
qed simp

section \<open>Properties\<close>

text \<open>
  C15. A new stream numbers the messages it is given 0, 1, 2, \<dots> in the order of the calls,
  stamps its own id on them, passes every one to the communicator in that order, and keeps
  a copy of every one in its buffer.
\<close>

theorem stream_numbers_messages:
  "\<exists>sent ts'. each_call ts_send ms (new_stream sid) = Some (sent, ts') \<and>
     map c_seq sent = map of_nat [0..<length ms] \<and>
     map c_body sent = map c_body ms \<and>
     map (map_option stream_id \<circ> c_message_stream) sent = map (\<lambda>_. Some sid) ms \<and>
     mset (ts_buffer ts') = mset sent \<and> m_sequenceId ts' = of_nat (length ms)"
proof -
  have b: "map c_body (stamped sid n ms) = map c_body ms" for n
    by (induction ms arbitrary: n) simp_all
  have i: "map (map_option stream_id \<circ> c_message_stream) (stamped sid n ms) = map (\<lambda>_. Some sid) ms" for n
    by (induction ms arbitrary: n) simp_all
  show ?thesis
    using each_send [of "new_stream sid" ms] by (simp add: new_stream_def stamped_seq b i)
qed

text \<open>
  An acknowledgement of the messages up to \<open>num\<close> empties the buffer when every
  message in it is covered, and else leaves every message in it, also those acknowledged:
  the queue hands out the highest number first, and the handler stops at a number past
  \<open>num\<close>.
\<close>

lemma stream_acknowledgement:
  assumes "stream_queue try_pop" and "m_bufferMutex ts = Free"
  shows "\<exists>ts'. ts_handleMessageAcknowledgement try_pop num ts = Some ts' \<and>
    mset (ts_buffer ts') =
      (if \<forall>m \<in> set (ts_buffer ts). c_seq m \<le> num then {#} else mset (ts_buffer ts))"
proof (cases "\<forall>m \<in> set (ts_buffer ts). c_seq m \<le> num")
  case True
  then show ?thesis using stream_queue.dropAcked_all [OF assms(1) True] assms(2)
    by (simp add: ts_handleMessageAcknowledgement_def)
next
  case False
  then show ?thesis using stream_queue.dropAcked_none [OF assms(1) False] assms(2)
    unfolding ts_handleMessageAcknowledgement_def by auto
qed

text \<open>
  A request for the messages \<open>lower\<close> to \<open>upper\<close> keeps the buffer as it is. It sends
  the requested messages again when no buffered message is past \<open>upper\<close>; when one is, it
  sends nothing.
\<close>

lemma stream_request:
  assumes "stream_queue try_pop" and "m_bufferMutex ts = Free"
    and "upper - lower + 1 \<le> max_reserve"
  shows "\<exists>sent ts'. ts_handleMessageRequest try_pop lower upper ts = Some (Inr sent, ts') \<and>
    mset (ts_buffer ts') = mset (ts_buffer ts) \<and> m_bufferMutex ts' = Free \<and>
    mset sent = (if \<forall>m \<in> set (ts_buffer ts). c_seq m \<le> upper
                 then filter_mset (\<lambda>m. lower \<le> c_seq m) (mset (ts_buffer ts)) else {#})"
proof (cases "\<forall>m \<in> set (ts_buffer ts). c_seq m \<le> upper")
  case True
  from stream_queue.popUpTo_all [OF assms(1) True] obtain ps where
    p: "popUpTo try_pop upper (ts_buffer ts) = Some (ps, [])" "mset ps = mset (ts_buffer ts)" by blast
  from resend_each [of "ts\<lparr>m_bufferMutex := Shared 1, ts_buffer := []\<rparr>" lower ps] p assms True show ?thesis
    by (auto simp: ts_handleMessageRequest_def not_less)
next
  case False
  from stream_queue.popUpTo_none [OF assms(1) False] obtain q where
    "popUpTo try_pop upper (ts_buffer ts) = Some ([], q)" "mset q = mset (ts_buffer ts)" by blast
  then show ?thesis using assms(2,3) by (simp add: ts_handleMessageRequest_def not_less if_not_P [OF False])
qed


text \<open>A stream with the messages 0 and 1 in its buffer.\<close>

abbreviation (input) numbered :: "u64 \<Rightarrow> client_msg" where
  "numbered n \<equiv> \<lparr>c_message_id = [], c_message_stream = Some \<lparr>stream_id = 4, sequence_number = n\<rparr>,
                 c_body = ClientBody []\<rparr>"

abbreviation (input) two_sent :: typed_stream where
  "two_sent \<equiv> \<lparr>m_streamId = 4, m_sequenceId = 2, m_bufferMutex = Free, ts_buffer = [numbered 1, numbered 0]\<rparr>"


section \<open>The manager's bookkeeping\<close>

text \<open>What the owner of a stream does with it: a message sent, or an explicit close.\<close>

definition use_stream ::
  "u64 \<Rightarrow> (typed_stream \<Rightarrow> stream_call) \<Rightarrow> stream_manager \<Rightarrow> (client_msg list \<times> stream_manager) option" where
  "use_stream i f sm =
     (case streams sm i of
        None \<Rightarrow> None
      | Some ts \<Rightarrow> Option.bind (f ts) (\<lambda>(ev, ts'). Some (ev, sm\<lparr>streams := (streams sm)(i \<mapsto> ts')\<rparr>)))"

text \<open>The managers reached after \<open>n\<close> calls of \<^verbatim>\<open>create\<close>, any number of the other calls between.\<close>

inductive managed :: "pop_client \<Rightarrow> nat \<Rightarrow> stream_manager \<Rightarrow> bool" for try_pop where
  managed_new: "managed try_pop 0 new_manager"
| managed_create: "managed try_pop n sm \<Longrightarrow> managed try_pop (Suc n) (snd (create_stream sm))"
| managed_destroy: "managed try_pop n sm \<Longrightarrow> destroy_stream i sm = Some (ev, sm') \<Longrightarrow> managed try_pop n sm'"
| managed_send: "managed try_pop n sm \<Longrightarrow> use_stream i (ts_send msg) sm = Some (ev, sm') \<Longrightarrow> managed try_pop n sm'"
| managed_close: "managed try_pop n sm \<Longrightarrow> use_stream i ts_close sm = Some (ev, sm') \<Longrightarrow> managed try_pop n sm'"
| managed_deliver: "managed try_pop n sm \<Longrightarrow> sm_deliver try_pop msg handled sm = Some (r, sm') \<Longrightarrow> managed try_pop n sm'"

definition registered :: "stream_manager \<Rightarrow> u64 \<Rightarrow> bool" where
  "registered sm i \<longleftrightarrow>
     m_idMap sm i = Some i \<and> slots sm i < length (m_streams sm) \<and>
     m_streams sm ! slots sm i = Some i \<and> slots sm i \<notin> set (m_streamsSlots sm)"

definition manager_inv :: "nat \<Rightarrow> stream_manager \<Rightarrow> bool" where
  "manager_inv n sm \<longleftrightarrow>
     m_nextStreamId sm = of_nat n \<and>
     (\<forall>i ts. streams sm i = Some ts \<longrightarrow> unat i < n \<and> m_streamId ts = i \<and> registered sm i) \<and>
     (\<forall>i w. m_idMap sm i = Some w \<longrightarrow> w = i \<and> streams sm i \<noteq> None) \<and>
     distinct (m_streamsSlots sm) \<and> set (m_streamsSlots sm) \<subseteq> {..<length (m_streams sm)}"

lemma manager_new: "manager_inv 0 new_manager"
  by (simp add: manager_inv_def new_manager_def)

text \<open>The slot a new stream takes: a free one, or a new one at the end.\<close>

lemma create_slot:
  assumes "manager_inv n sm"
  obtains it ks vec where
    "create_stream sm = (m_nextStreamId sm,
       sm\<lparr>m_nextStreamId := m_nextStreamId sm + 1, m_streamsSlots := ks,
          m_streams := vec[it := Some (m_nextStreamId sm)],
          m_idMap := (m_idMap sm)(m_nextStreamId sm \<mapsto> m_nextStreamId sm),
          streams := (streams sm)(m_nextStreamId sm \<mapsto> new_stream (m_nextStreamId sm)),
          slots := (slots sm)(m_nextStreamId sm := it)\<rparr>)"
    and "it < length vec" and "it \<notin> set ks" and "distinct ks" and "set ks \<subseteq> {..<length vec}"
    and "\<And>j. registered sm j \<Longrightarrow>
      slots sm j \<noteq> it \<and> slots sm j < length vec \<and> vec ! slots sm j = Some j \<and> slots sm j \<notin> set ks"
proof (cases "m_streamsSlots sm")
  case Nil
  show ?thesis
    by (rule that [of "length (m_streams sm)" "m_streams sm @ [None]" "[]"])
      (simp_all add: create_stream_def Let_def Nil registered_def nth_append)
next
  case (Cons k ks)
  have "distinct (k # ks)" "set (k # ks) \<subseteq> {..<length (m_streams sm)}"
    using assms unfolding manager_inv_def Cons by blast+
  then show ?thesis
    by (intro that [of k "m_streams sm" ks]) (auto simp: create_stream_def Let_def Cons registered_def)
qed

lemma manager_create:
  assumes inv: "manager_inv n sm" and n: "n < 2 ^ 64"
  shows "manager_inv (Suc n) (snd (create_stream sm))"
proof -
  let ?i = "m_nextStreamId sm" and ?sm = "snd (create_stream sm)"
  obtain it ks vec where c: "create_stream sm = (?i,
       sm\<lparr>m_nextStreamId := ?i + 1, m_streamsSlots := ks, m_streams := vec[it := Some ?i],
          m_idMap := (m_idMap sm)(?i \<mapsto> ?i), streams := (streams sm)(?i \<mapsto> new_stream ?i),
          slots := (slots sm)(?i := it)\<rparr>)"
    and s: "it < length vec" "it \<notin> set ks" "distinct ks" "set ks \<subseteq> {..<length vec}"
    and o: "\<And>j. registered sm j \<Longrightarrow>
      slots sm j \<noteq> it \<and> slots sm j < length vec \<and> vec ! slots sm j = Some j \<and> slots sm j \<notin> set ks"
    by (rule create_slot [OF inv]) blast
  have nx: "?i = of_nat n" using inv unfolding manager_inv_def by blast
  then have i: "unat ?i = n" using n by (simp only: unat_of_nat_u64)
  have old: "unat j < n \<and> m_streamId ts = j \<and> registered sm j" if "streams sm j = Some ts" for j ts
    using inv that unfolding manager_inv_def by blast
  have "unat j < Suc n \<and> m_streamId ts = j \<and> registered ?sm j" if "streams ?sm j = Some ts" for j ts
  proof (cases "j = ?i")
    case True
    then show ?thesis using that s i by (auto simp: c registered_def new_stream_def)
  next
    case False
    then have "streams sm j = Some ts" using that by (simp add: c)
    with old [OF this] o [of j] False show ?thesis by (auto simp: c registered_def)
  qed
  moreover have "w = j \<and> streams ?sm j \<noteq> None" if "m_idMap ?sm j = Some w" for j w
    using that inv by (cases "j = ?i") (auto simp: c manager_inv_def)
  moreover have "m_nextStreamId ?sm = of_nat (Suc n)" by (simp add: c nx add.commute)
  moreover have "distinct (m_streamsSlots ?sm)" "set (m_streamsSlots ?sm) \<subseteq> {..<length (m_streams ?sm)}"
    using s by (simp_all add: c)
  ultimately show ?thesis unfolding manager_inv_def by blast
qed

lemma manager_update:
  assumes "manager_inv n sm" and "streams sm i = Some ts" and "m_streamId ts' = m_streamId ts"
  shows "manager_inv n (sm\<lparr>streams := (streams sm)(i \<mapsto> ts')\<rparr>)"
  using assms by (auto simp: manager_inv_def registered_def)

lemma manager_destroy:
  assumes "manager_inv n sm" and "destroy_stream i sm = Some (ev, sm')"
  shows "manager_inv n sm'"
proof (cases "streams sm i")
  case (Some ts)
  then obtain ev' ts' where "ts_close ts = Some (ev', ts')" using assms(2)
    by (cases "ts_close ts") (auto simp: destroy_stream_def)
  then have sm': "sm' = sm\<lparr>m_idMap := (m_idMap sm)(i := None),
      m_streamsSlots := m_streamsSlots sm @ [slots sm i], streams := (streams sm)(i := None)\<rparr>"
    using assms(2) Some by (simp add: destroy_stream_def)
  have r: "registered sm i" using assms(1) Some unfolding manager_inv_def by blast
  have other: "slots sm j \<noteq> slots sm i" if "streams sm j = Some tj" "j \<noteq> i" for j tj
    using assms(1) that r unfolding manager_inv_def registered_def by (metis option.inject)
  show ?thesis using assms(1) r other unfolding sm' by (auto simp: manager_inv_def registered_def)
qed (use assms in \<open>simp add: destroy_stream_def\<close>)

text \<open>No call changes the id of a stream.\<close>

lemma saveAndPass_id: "saveAndPass m ts = Some (ev, ts') \<Longrightarrow> m_streamId ts' = m_streamId ts"
  by (auto simp: saveAndPass_def split: option.splits)

lemma ts_send_id: "ts_send m ts = Some (ev, ts') \<Longrightarrow> m_streamId ts' = m_streamId ts"
  unfolding ts_send_def by (drule saveAndPass_id) simp

lemma ts_close_id: "ts_close ts = Some (ev, ts') \<Longrightarrow> m_streamId ts' = m_streamId ts"
  unfolding ts_close_def by (rule ts_send_id)

lemma each_call_id:
  assumes "\<And>x ts ev ts'. f x ts = Some (ev, ts') \<Longrightarrow> m_streamId ts' = m_streamId ts"
  shows "each_call f xs ts = Some (ev, ts') \<Longrightarrow> m_streamId ts' = m_streamId ts"
proof (induction xs arbitrary: ts ev)
  case (Cons x xs)
  then show ?case using assms by (fastforce simp: bind_eq_Some_conv)
qed simp

lemma resendOrKeep_id: "resendOrKeep lower m ts = Some (ev, ts') \<Longrightarrow> m_streamId ts' = m_streamId ts"
  by (auto simp: resendOrKeep_def split: if_split_asm dest: saveAndPass_id)

lemma ts_request_id:
  assumes "ts_handleMessageRequest try_pop lower upper ts = Some (r, ts')"
  shows "m_streamId ts' = m_streamId ts"
proof (cases "upper - lower + 1 > max_reserve")
  case False
  from assms obtain mx a where "lock_shared (m_bufferMutex ts) = Some mx"
    and "popUpTo try_pop upper (ts_buffer ts) = Some a"
    unfolding ts_handleMessageRequest_def if_not_P [OF False]
    by (cases "lock_shared (m_bufferMutex ts)"; cases "popUpTo try_pop upper (ts_buffer ts)") simp_all
  with assms False obtain ev t where
    "each_call (resendOrKeep lower) (fst a) (ts\<lparr>m_bufferMutex := mx, ts_buffer := snd a\<rparr>) = Some (ev, t)"
    "ts' = t\<lparr>m_bufferMutex := unlock_shared (m_bufferMutex t)\<rparr>"
    by (cases "each_call (resendOrKeep lower) (fst a) (ts\<lparr>m_bufferMutex := mx, ts_buffer := snd a\<rparr>)")
      (auto simp: ts_handleMessageRequest_def case_prod_beta)
  then show ?thesis using each_call_id [of "resendOrKeep lower", OF resendOrKeep_id] by fastforce
qed (use assms in \<open>simp add: ts_handleMessageRequest_def\<close>)

lemma ts_acknowledgement_id:
  "ts_handleMessageAcknowledgement try_pop num ts = Some ts' \<Longrightarrow> m_streamId ts' = m_streamId ts"
  by (auto simp: ts_handleMessageAcknowledgement_def bind_eq_Some_conv)

lemma manager_use:
  assumes "manager_inv n sm" and "use_stream i f sm = Some (ev, sm')"
    and "\<And>ts ev ts'. f ts = Some (ev, ts') \<Longrightarrow> m_streamId ts' = m_streamId ts"
  shows "manager_inv n sm'"
  using assms manager_update by (auto simp: use_stream_def bind_eq_Some_conv split: option.split_asm)

lemma manager_with:
  assumes "manager_inv n sm" and "with_stream i f sm = Some (r, sm')"
    and "\<And>ts r ts'. f ts = Some (r, ts') \<Longrightarrow> m_streamId ts' = m_streamId ts"
  shows "manager_inv n sm'"
  using assms manager_update by (auto simp: with_stream_def bind_eq_Some_conv split: option.split_asm)

lemma manager_deliver:
  assumes "manager_inv n sm" and "sm_deliver try_pop msg handled sm = Some (r, sm')"
  shows "manager_inv n sm'"
proof (cases "s_body msg")
  case (s_message_request sid lower upper)
  then have "with_stream sid (ts_handleMessageRequest try_pop lower upper) sm = Some (r, sm')"
    using assms(2) by (simp add: sm_deliver_def sm_predicate_def sm_callback_def sm_handleMessageRequest_def)
  then show ?thesis by (rule manager_with [OF assms(1)]) (rule ts_request_id)
next
  case (s_message_acknowledgement sid num)
  then have "with_stream sid (\<lambda>ts. map_option (\<lambda>ts'. (Inr [], ts')) (ts_handleMessageAcknowledgement try_pop num ts)) sm
      = Some (r, sm')"
    using assms(2) by (simp add: sm_deliver_def sm_predicate_def sm_callback_def sm_handleMessageAcknowledgement_def)
  then show ?thesis by (rule manager_with [OF assms(1)]) (auto dest: ts_acknowledgement_id)
qed (use assms in \<open>simp_all add: sm_deliver_def sm_predicate_def\<close>)

lemma managed_inv: "managed try_pop n sm \<Longrightarrow> n \<le> 2 ^ 64 \<Longrightarrow> manager_inv n sm"
proof (induction rule: managed.induct)
  case managed_new
  show ?case by (rule manager_new)
next
  case (managed_create n sm)
  have "n < 2 ^ 64" using managed_create.prems by (rule Suc_le_lessD)
  with managed_create.IH show ?case by (simp add: manager_create less_imp_le)
qed (blast intro: manager_destroy manager_use ts_send_id ts_close_id manager_deliver)+

text \<open>
  C19. As long as fewer than \<open>2 ^ 64\<close> streams have been created, whatever streams were
  created, used and destroyed and whatever the server sent: an alive stream is the one its
  id is mapped to and the one its slot of the vector points to, the slot is not free for
  reuse, and two alive streams never share a slot.
\<close>

theorem manager_keeps_streams_apart:
  assumes "managed try_pop n sm" and "n \<le> 2 ^ 64"
    and "streams sm i = Some ts" and "streams sm j = Some ts'"
  shows "registered sm i \<and> m_streamId ts = i \<and> (slots sm i = slots sm j \<longleftrightarrow> i = j)"
proof -
  have inv: "manager_inv n sm" using assms(1,2) by (rule managed_inv)
  then have "registered sm i" "registered sm j" "m_streamId ts = i"
    using assms(3,4) unfolding manager_inv_def by blast+
  then show ?thesis unfolding registered_def by (metis option.inject)
qed

text \<open>Two streams created, the first destroyed, its slot taken by a third.\<close>

abbreviation (input) three_created :: stream_manager where
  "three_created \<equiv>
     snd (create_stream (snd (the (destroy_stream 0 (snd (create_stream (snd (create_stream new_manager))))))))"

theorem manager_keeps_streams_apart_witness: "registered three_created 2 \<and> slots three_created 2 \<noteq> slots three_created 1"
proof -
  let ?two = "snd (create_stream (snd (create_stream new_manager)))"
  have "managed (list_try_pop StreamLess) (Suc (Suc 0)) ?two"
    by (intro managed.intros)
  moreover have "destroy_stream 0 ?two = Some (fst (the (destroy_stream 0 ?two)), snd (the (destroy_stream 0 ?two)))"
    by code_simp
  ultimately have m: "managed (list_try_pop StreamLess) (Suc (Suc (Suc 0))) three_created"
    by (blast intro: managed_destroy managed_create)
  have s: "streams three_created 2 = Some (new_stream 2)" "streams three_created 1 = Some (new_stream 1)"
    by code_simp+
  show ?thesis using manager_keeps_streams_apart [OF m _ s] by simp
qed

end
