(* ===== verification/Codec.thy ===== *)
theory Codec
  imports Prelude
begin

text \<open>
  The handlers of a connection's pipeline, \<^verbatim>\<open>src/src/communication/codec/\<close> and
  \<^verbatim>\<open>clprotoPipelineFactory.cc\<close>: length-prefixed packets, the protocol upgrade, the handshake
  and the message handler. A \<^verbatim>\<open>folly::IOBuf\<close> chain is the list of the byte strings of its
  buffers, the read queue the list of its bytes.
\<close>

unbundle bit_operations_syntax

section \<open>Packets\<close>

definition lengthFieldLength :: u32 where "lengthFieldLength = 4"

text \<open>The four bytes of a 32-bit word in network byte order, and the word read from them.\<close>

definition writeBE :: "u32 \<Rightarrow> bytes" where
  "writeBE w = [ucast (drop_bit 24 w), ucast (drop_bit 16 w), ucast (drop_bit 8 w), ucast w]"

definition readBE :: "bytes \<Rightarrow> u32" where
  "readBE bs =
     push_bit 24 (ucast (bs ! 0)) OR push_bit 16 (ucast (bs ! 1)) OR push_bit 8 (ucast (bs ! 2)) OR ucast (bs ! 3)"

definition encode_write :: "bytes list \<Rightarrow> bytes" where
  "encode_write buf = take (unat lengthFieldLength) (writeBE (of_nat (length (hd buf)))) @ concat buf"

text \<open>
  \<^verbatim>\<open>decode\<close>: \<open>None\<close> when it waits for more bytes, else the packet and the rest of the
  queue. \<^verbatim>\<open>split\<close> of more bytes than the queue holds throws.
\<close>

definition decode :: "bytes \<Rightarrow> (bytes \<times> bytes) option fut" where
  "decode buf =
     (if length buf < unat lengthFieldLength then Inr None
      else
        (let messageLength = readBE buf
         in if length buf \<ge> unat (messageLength + lengthFieldLength)
            then (let rest = drop (unat lengthFieldLength) buf
                  in if length rest < unat messageLength then Inl underflow_error
                     else Inr (Some (take (unat messageLength) rest, drop (unat messageLength) rest)))
            else Inr None))"

lemma decode_shorter: "decode buf = Inr (Some (p, rest)) \<Longrightarrow> length rest < length buf"
  by (auto simp: decode_def Let_def lengthFieldLength_def split: if_splits)

text \<open>
  \<^verbatim>\<open>wangle::ByteToByteDecoder\<close> calls \<^verbatim>\<open>decode\<close> on the bytes received so far until it
  returns false, and hands on every packet.
\<close>

function decode_all :: "bytes \<Rightarrow> (bytes list \<times> bytes) fut" where
  "decode_all buf =
     (case decode buf of
        Inl e \<Rightarrow> Inl e
      | Inr None \<Rightarrow> Inr ([], buf)
      | Inr (Some (p, rest)) \<Rightarrow>
          (case decode_all rest of Inl e \<Rightarrow> Inl e | Inr (ps, q) \<Rightarrow> Inr (p # ps, q)))"
  by pat_completeness auto

termination by (relation "measure length") (auto dest: decode_shorter)

declare decode_all.simps [simp del]

text \<open>The packets of the chunks a socket delivers one after the other.\<close>

fun read_chunks :: "bytes list \<Rightarrow> bytes \<Rightarrow> (bytes list \<times> bytes) fut" where
  "read_chunks [] q = Inr ([], q)"
| "read_chunks (c # cs) q =
     (case decode_all (q @ c) of
        Inl e \<Rightarrow> Inl e
      | Inr (ps, q') \<Rightarrow> (case read_chunks cs q' of Inl e \<Rightarrow> Inl e | Inr (ps', q'') \<Rightarrow> Inr (ps @ ps', q'')))"

section \<open>Protocol upgrade\<close>

definition CLPROTO_UPGRADE_ENDPOINT :: string where "CLPROTO_UPGRADE_ENDPOINT = ''/clproto''"
definition CLPROTO_UPGRADE_RESPONSE_STATUS :: string where
  "CLPROTO_UPGRADE_RESPONSE_STATUS = ''HTTP/1.1 101 Switching Protocols''"

definition to_bytes :: "string \<Rightarrow> bytes" where
  "to_bytes s = map of_char s"

definition crlf :: string where "crlf = [CHR 0x0D, CHR 0x0A]"

text \<open>The state of the handler's promise, the queue left, and the bytes handed on.\<close>

definition upgrade_read :: "bytes \<Rightarrow> unit fut option \<Rightarrow> unit fut option \<times> bytes \<times> bytes option" where
  "upgrade_read buf promise =
     (case promise of
        Some r \<Rightarrow> (Some r, buf, Some buf)
      | None \<Rightarrow>
          (if \<not> contains (to_bytes (crlf @ crlf)) buf then (None, buf, None)
           else if \<not> starts_with (to_bytes CLPROTO_UPGRADE_RESPONSE_STATUS) buf
           then (Some (Inl runtime_error), buf, None)
           else (Some (Inr ()), [], Some [])))"

definition makeUpgradeRequest :: "string \<Rightarrow> string" where
  "makeUpgradeRequest host =
     ''GET '' @ CLPROTO_UPGRADE_ENDPOINT @ '' HTTP/1.1'' @ crlf @
     ''Host: '' @ host @ crlf @ ''Connection: upgrade'' @ crlf @ ''Upgrade: clproto'' @ crlf @ crlf"

section \<open>Handshake\<close>

datatype handshake_event = HandshakeDone int | FireRead bytes

text \<open>
  A \<^verbatim>\<open>folly::Promise\<close> that is already fulfilled throws when it is fulfilled again. The
  result is the exception that leaves \<^verbatim>\<open>read\<close>, if any, with the promise and the calls made.
\<close>

definition setPromise :: "'a fut \<Rightarrow> 'a fut option \<Rightarrow> 'a fut option fut" where
  "setPromise v promise = (case promise of None \<Rightarrow> Inr (Some v) | Some _ \<Rightarrow> Inl PromiseAlreadySatisfied)"

definition handshake_read ::
  "(bytes \<Rightarrow> int) \<Rightarrow> bytes \<Rightarrow> unit fut option \<Rightarrow> unit fut \<times> unit fut option \<times> handshake_event list" where
  "handshake_read onHandshakeResponse message promise =
     (case promise of
        Some r \<Rightarrow> (Inr (), promise, [FireRead message])
      | None \<Rightarrow>
          (let promise1 = Some (Inr ());
               handshakeResponseError = onHandshakeResponse message
           in if handshakeResponseError = 0
              then (Inr (), promise1, [HandshakeDone 0, FireRead message])
              else (case setPromise (Inl runtime_error) promise1 of
                      Inl e \<Rightarrow> (Inl e, promise1, [])
                    | Inr promise2 \<Rightarrow>
                        (Inr (), promise2, [HandshakeDone handshakeResponseError, FireRead message]))))"

section \<open>Message handler\<close>

text \<open>The events of \<^verbatim>\<open>CLProtoMessageHandler\<close>: a message for the callback, or the EOF callback.\<close>

datatype message_event = OnMessage bytes | OnEOF

definition message_read :: "bytes \<Rightarrow> message_event list" where
  "message_read msg = [OnMessage msg]"

definition readEOF :: "bool \<Rightarrow> message_event list" where
  "readEOF has_eofCallback = (if has_eofCallback then [OnEOF] else [])"

section \<open>The pipeline\<close>

datatype handler =
    AsyncSocketHandler | OutputBufferingHandler | EventBaseHandler | PacketLogger
  | CLProtoUpgradeResponseHandler | PacketDecoder | PacketEncoder | StringCodec
  | CLProtoHandshakeResponseHandler | CLProtoMessageHandler

definition newPipeline :: "bool \<Rightarrow> bool \<Rightarrow> bool \<Rightarrow> handler list" where
  "newPipeline vlog4 clprotoUpgrade has_getHandshake =
     [AsyncSocketHandler, OutputBufferingHandler, EventBaseHandler] @
     (if vlog4 then [PacketLogger] else []) @
     (if clprotoUpgrade then [CLProtoUpgradeResponseHandler] else []) @
     [PacketDecoder, PacketEncoder, StringCodec] @
     (if has_getHandshake then [CLProtoHandshakeResponseHandler] else []) @
     [CLProtoMessageHandler]"

section \<open>Encoding and decoding\<close>

lemma readBE_writeBE [simp]: "readBE (writeBE w @ xs) = w"
proof (rule bit_word_eqI)
  fix n assume n: "n < LENGTH(32)"
  then consider "n < 8" | "8 \<le> n" "n < 16" | "16 \<le> n" "n < 24" | "24 \<le> n" "n < 32" by fastforce
  then show "bit (readBE (writeBE w @ xs)) n = bit w n"
    by cases (auto simp: readBE_def writeBE_def bit_simps)
qed

lemma writeBE_length [simp]: "length (writeBE w) = 4"
  by (simp add: writeBE_def)

lemma lengthField [simp]: "unat lengthFieldLength = 4"
  by (simp add: lengthFieldLength_def)

lemma encode_one: "encode_write [m] = writeBE (of_nat (length m)) @ m"
  by (simp add: encode_write_def)

text \<open>When the length a packet announces leaves room for the length field in 32 bits.\<close>

lemma announced_length:
  assumes "unat w < 2 ^ 32 - 4"
  shows "unat (w + lengthFieldLength) = unat w + 4"
  using assms by (subst unat_add_lem [THEN iffD1]) (simp_all add: lengthFieldLength_def)

lemma announced_length_wraps:
  assumes "2 ^ 32 - 4 \<le> unat w"
  shows "unat (w + lengthFieldLength) < 4"
proof -
  have "unat w < 2 ^ 32" using unsigned_less [of w] by simp
  then have "(unat w + 4) mod 2 ^ 32 = unat w + 4 - 2 ^ 32" using assms by (simp add: mod_if)
  then have "unat (w + lengthFieldLength) = unat w + 4 - 2 ^ 32"
    by (simp add: unat_word_ariths(1) lengthFieldLength_def)
  then show ?thesis using \<open>unat w < 2 ^ 32\<close> by linarith
qed

lemma decode_announced:
  "decode (writeBE w @ xs) =
     (if length xs \<ge> unat w then Inr (Some (take (unat w) xs, drop (unat w) xs))
      else if 2 ^ 32 - 4 \<le> unat w then Inl underflow_error else Inr None)"
proof (cases "2 ^ 32 - 4 \<le> unat w")
  case True
  then show ?thesis using announced_length_wraps [OF True] by (simp add: decode_def Let_def)
next
  case False
  then have "unat (w + lengthFieldLength) = unat w + 4" by (intro announced_length) simp
  then show ?thesis using False by (simp add: decode_def Let_def)
qed

lemma unat_u32_length: "length (m :: bytes) < 2 ^ 32 - 4 \<Longrightarrow> unat (of_nat (length m) :: u32) = length m"
  by (simp add: unat_of_nat)

lemma decode_packet:
  "length m < 2 ^ 32 - 4 \<Longrightarrow> decode (encode_write [m] @ xs) = Inr (Some (m, xs))"
  using decode_announced [of "of_nat (length m)" "m @ xs"] unat_u32_length [of m] by (simp add: encode_one)

lemma decode_partial:
  assumes "length m < 2 ^ 32 - 4" and "q @ r = encode_write [m] @ xs" and "length q < length (encode_write [m])"
  shows "decode q = Inr None"
proof (cases "length q < 4")
  case False
  let ?w = "of_nat (length m) :: u32"
  have "q = take (length q) (writeBE ?w @ m @ xs)" using assms(2) unfolding encode_one
    by (metis append.assoc append_eq_conv_conj)
  then have "q = writeBE ?w @ take (length q - 4) (m @ xs)" using False by simp
  then obtain y where y: "q = writeBE ?w @ y" by blast
  have "length y < length m" using assms(3) y by (simp add: encode_one)
  then show ?thesis unfolding y decode_announced using unat_u32_length [OF assms(1)] assms(1) by simp
qed (simp add: decode_def)

section \<open>A stream of packets\<close>

definition packets :: "bytes list \<Rightarrow> bytes" where
  "packets ms = concat (map (\<lambda>m. encode_write [m]) ms)"

text \<open>Decoding what has arrived of a stream of packets: the whole packets, and a part of the next.\<close>

lemma decode_all_prefix:
  assumes "\<forall>m \<in> set ms. length m < 2 ^ 32 - 4" and "q @ r = packets ms"
  shows "\<exists>j q'. decode_all q = Inr (take j ms, q') \<and> q' @ r = packets (drop j ms) \<and> decode q' = Inr None"
  using assms
proof (induction ms arbitrary: q)
  case Nil
  then have "q = []" by (simp add: packets_def)
  then show ?case using Nil by (subst decode_all.simps) (simp add: decode_def)
next
  case (Cons m ms)
  have m: "length m < 2 ^ 32 - 4" and q: "q @ r = encode_write [m] @ packets ms"
    using Cons.prems by (simp_all add: packets_def)
  show ?case
  proof (cases "length q < length (encode_write [m])")
    case True
    then have "decode q = Inr None" by (rule decode_partial [OF m q])
    then show ?thesis using Cons.prems(2) by (subst decode_all.simps) (auto intro: exI [of _ 0])
  next
    case False
    then have "take (length (encode_write [m])) (q @ r) = take (length (encode_write [m])) q" by simp
    then have "encode_write [m] = take (length (encode_write [m])) q" unfolding q by simp
    then obtain q1 where q1: "q = encode_write [m] @ q1" by (metis append_take_drop_id)
    then have q1r: "q1 @ r = packets ms" using q by simp
    obtain j q' where "decode_all q1 = Inr (take j ms, q')" "q' @ r = packets (drop j ms)" "decode q' = Inr None"
      using Cons.IH [OF _ q1r] Cons.prems(1) by auto
    then show ?thesis using decode_packet [OF m, of q1]
      by (subst decode_all.simps) (auto simp: q1 intro: exI [of _ "Suc j"])
  qed
qed

lemma read_chunks_stream:
  assumes "\<forall>m \<in> set ms. length m < 2 ^ 32 - 4" and "q @ concat cs = packets ms" and "decode q = Inr None"
  shows "read_chunks cs q = Inr (ms, [])"
  using assms
proof (induction cs arbitrary: q ms)
  case Nil
  show ?case
  proof (cases ms)
    case (Cons m ms')
    then show ?thesis using Nil decode_packet [of m "packets ms'"] by (simp add: packets_def)
  qed (use Nil in \<open>simp add: packets_def\<close>)
next
  case (Cons c cs)
  have "(q @ c) @ concat cs = packets ms" using Cons.prems(2) by simp
  from decode_all_prefix [OF Cons.prems(1) this] obtain j q' where
    j: "decode_all (q @ c) = Inr (take j ms, q')" "q' @ concat cs = packets (drop j ms)" "decode q' = Inr None" by blast
  have "read_chunks cs q' = Inr (drop j ms, [])"
    using Cons.IH [OF _ j(2,3)] Cons.prems(1) by (auto dest: in_set_dropD)
  then show ?case using j(1) by simp
qed

section \<open>Properties\<close>

text \<open>
  C24. Messages of fewer than \<open>2 ^ 32 - 4\<close> bytes written through the encoder come out of
  the decoder whole, in order and each once, however the stream is cut into the chunks that
  arrive, and nothing is left over.
\<close>

theorem packets_roundtrip:
  assumes "\<forall>m \<in> set ms. length m < 2 ^ 32 - 4"
    and "concat cs = concat (map (\<lambda>m. encode_write [m]) ms)"
  shows "read_chunks cs [] = Inr (ms, [])"
  using read_chunks_stream [of ms "[]" cs] assms by (simp add: packets_def decode_def)

theorem packets_roundtrip_witness: "read_chunks [[0, 0], [0, 2, 5], [6, 0, 0, 0, 0]] [] = Inr ([[5, 6], []], [])"
  using packets_roundtrip [of "[[5, 6], []]" "[[0, 0], [0, 2, 5], [6, 0, 0, 0, 0]]"]
  by (simp add: encode_one writeBE_def)

text \<open>
  C25. What the decoder does with a packet that announces a length \<open>w\<close>: it hands the packet
  on when all its bytes have arrived; when they have not, it waits if the length leaves
  room for the length field in 32 bits, and throws if it does not.
\<close>

theorem decode_by_length:
  "decode (writeBE w @ xs) =
     (if length xs \<ge> unat w then Inr (Some (take (unat w) xs, drop (unat w) xs))
      else if unat w < 2 ^ 32 - 4 then Inr None else Inl underflow_error)"
  unfolding decode_announced by (simp add: not_less)

end
