(* ===== verification/Inbox.thy ===== *)
theory Inbox
  imports Protocol
begin

text \<open>
  \<^verbatim>\<open>src/src/communication/layers/inbox.h\<close>, with \<^verbatim>\<open>subscriptionData.h\<close>: calls waiting for a
  reply, matched to the server's messages by message id, and subscriptions. A callback is
  a value of the type \<open>'cb\<close>; calling it is an event. The time stamps and names kept with a
  callback are only logged and are left out.
\<close>

section \<open>Model\<close>

record 'cb SubscriptionData =
  predicate :: "server_msg \<Rightarrow> bool \<Rightarrow> bool"
  sub_callback :: "'cb option"

definition no_subscription :: "'cb SubscriptionData" where
  "no_subscription = \<lparr>predicate = (\<lambda>_ _. False), sub_callback = None\<rparr>"

record 'cb inbox =
  m_callbacks :: "string \<Rightarrow> 'cb option"
  m_seed :: u64
  m_nextMsgId :: u16
  m_subscriptions :: "'cb SubscriptionData list"
  m_unusedSubscriptions :: "nat list"

datatype 'cb inbox_event =
    SubscriptionCalled "'cb option" server_msg
  | CommunicateFailed 'cb int
  | CommunicateDone 'cb server_msg

definition new_inbox :: "u64 \<Rightarrow> 'cb inbox" where
  "new_inbox seed =
     \<lparr>m_callbacks = (\<lambda>_. None), m_seed = seed, m_nextMsgId = 0, m_subscriptions = [], m_unusedSubscriptions = []\<rparr>"

definition nextMessageId :: "'cb inbox \<Rightarrow> string" where
  "nextMessageId ib = to_dec (unat (m_seed ib + ucast (m_nextMsgId ib)))"

text \<open>The message \<^verbatim>\<open>communicate\<close> hands to the lower layer, and the inbox that waits for its reply.\<close>

definition communicate :: "client_msg \<Rightarrow> 'cb \<Rightarrow> 'cb inbox \<Rightarrow> client_msg \<times> 'cb inbox" where
  "communicate message callback ib =
     (let messageId = nextMessageId ib
      in (message\<lparr>c_message_id := messageId\<rparr>,
          ib\<lparr>m_nextMsgId := m_nextMsgId ib + 1, m_callbacks := (m_callbacks ib)(messageId \<mapsto> callback)\<rparr>))"

definition sendErrorCallback :: "string \<Rightarrow> int \<Rightarrow> 'cb inbox \<Rightarrow> 'cb inbox_event list \<times> 'cb inbox" where
  "sendErrorCallback messageId ec ib =
     (if ec \<noteq> 0
      then (case m_callbacks ib messageId of
              None \<Rightarrow> ([], ib)
            | Some cb \<Rightarrow> ([CommunicateFailed cb ec], ib\<lparr>m_callbacks := (m_callbacks ib)(messageId := None)\<rparr>))
      else ([], ib))"

definition subscribe :: "'cb SubscriptionData \<Rightarrow> 'cb inbox \<Rightarrow> nat \<times> 'cb inbox" where
  "subscribe data ib =
     (case m_unusedSubscriptions ib of
        it # rest \<Rightarrow>
          (it, ib\<lparr>m_unusedSubscriptions := rest, m_subscriptions := (m_subscriptions ib)[it := data]\<rparr>)
      | [] \<Rightarrow> (length (m_subscriptions ib), ib\<lparr>m_subscriptions := m_subscriptions ib @ [data]\<rparr>))"

definition unsubscribe :: "nat \<Rightarrow> 'cb inbox \<Rightarrow> 'cb inbox" where
  "unsubscribe it ib =
     ib\<lparr>m_subscriptions := (m_subscriptions ib)[it := no_subscription],
        m_unusedSubscriptions := m_unusedSubscriptions ib @ [it]\<rparr>"

definition inbox_onMessage :: "server_msg \<Rightarrow> 'cb inbox \<Rightarrow> 'cb inbox_event list \<times> 'cb inbox" where
  "inbox_onMessage message ib =
     (let found = m_callbacks ib (s_message_id message);
          handled = (found \<noteq> None);
          subs = map (\<lambda>sub. SubscriptionCalled (sub_callback sub) message)
                   (filter (\<lambda>sub. predicate sub message handled) (m_subscriptions ib))
      in case found of
           None \<Rightarrow> (subs, ib)
         | Some cb \<Rightarrow>
             (subs @ [CommunicateDone cb message],
              ib\<lparr>m_callbacks := (m_callbacks ib)(s_message_id message := None)\<rparr>))"

text \<open>What can happen to an inbox; \<open>Sent\<close> is the lower layer reporting how sending a message ended.\<close>

datatype 'cb inbox_op =
    Communicate client_msg 'cb
  | Sent string int
  | Receive server_msg
  | Subscribe "'cb SubscriptionData"
  | Unsubscribe nat

fun inbox_step :: "'cb inbox_op \<Rightarrow> 'cb inbox \<Rightarrow> 'cb inbox_event list \<times> 'cb inbox" where
  "inbox_step (Communicate msg cb) ib = ([], snd (communicate msg cb ib))"
| "inbox_step (Sent messageId ec) ib = sendErrorCallback messageId ec ib"
| "inbox_step (Receive msg) ib = inbox_onMessage msg ib"
| "inbox_step (Subscribe data) ib = ([], snd (subscribe data ib))"
| "inbox_step (Unsubscribe it) ib = ([], unsubscribe it ib)"

fun inbox_run :: "'cb inbox_op list \<Rightarrow> 'cb inbox \<Rightarrow> 'cb inbox_event list \<times> 'cb inbox" where
  "inbox_run [] ib = ([], ib)"
| "inbox_run (op # ops) ib =
     (let (ev, ib1) = inbox_step op ib; (ev', ib2) = inbox_run ops ib1 in (ev @ ev', ib2))"

section \<open>Message ids\<close>

text \<open>The id a call gets when the counter stands at \<open>k\<close>.\<close>

definition id_at :: "u64 \<Rightarrow> u16 \<Rightarrow> string" where
  "id_at seed k = to_dec (unat (seed + ucast k))"

lemma to_dec_inj: "to_dec a = to_dec b \<longleftrightarrow> a = b"
  by (metis dec_val_to_dec)

lemma ucast_u16_inj: "(ucast j :: u64) = ucast k \<longleftrightarrow> j = (k :: u16)"
proof -
  have "unat (ucast x :: u64) = unat x" for x :: u16
    by transfer (simp add: take_bit_take_bit)
  then show ?thesis by (metis word_unat_eq_iff)
qed

lemma id_at_inj: "id_at seed j = id_at seed k \<longleftrightarrow> j = k"
  unfolding id_at_def to_dec_inj word_unat_eq_iff [symmetric] by (simp add: ucast_u16_inj)

fun is_communicate :: "'cb inbox_op \<Rightarrow> bool" where
  "is_communicate (Communicate _ _) = True"
| "is_communicate _ = False"

text \<open>Whether a step ends the call that waits under an id.\<close>

fun ends_call :: "string \<Rightarrow> 'cb inbox_op \<Rightarrow> bool" where
  "ends_call i (Sent messageId ec) = (messageId = i \<and> ec \<noteq> 0)"
| "ends_call i (Receive msg) = (s_message_id msg = i)"
| "ends_call i _ = False"

lemma nextMessageId_at: "nextMessageId ib = id_at (m_seed ib) (m_nextMsgId ib)"
  by (simp add: nextMessageId_def id_at_def)

section \<open>A waiting call\<close>

lemma step_seed [simp]: "m_seed (snd (inbox_step op ib)) = m_seed ib"
  by (cases op) (auto simp: communicate_def sendErrorCallback_def inbox_onMessage_def subscribe_def
      unsubscribe_def Let_def split: option.split list.split)

lemma step_counter:
  "m_nextMsgId (snd (inbox_step op ib)) = m_nextMsgId ib + (if is_communicate op then 1 else 0)"
  by (cases op) (auto simp: communicate_def sendErrorCallback_def inbox_onMessage_def subscribe_def
      unsubscribe_def Let_def split: option.split list.split)

lemma step_keeps_waiting:
  assumes "m_callbacks ib i = Some cb" and "\<not> ends_call i op"
    and "is_communicate op \<Longrightarrow> i \<noteq> nextMessageId ib"
  shows "m_callbacks (snd (inbox_step op ib)) i = Some cb"
  using assms by (cases op) (auto simp: communicate_def sendErrorCallback_def inbox_onMessage_def
      subscribe_def unsubscribe_def Let_def split: option.split list.split)

lemma run_snd: "snd (inbox_run (op # ops) ib) = snd (inbox_run ops (snd (inbox_step op ib)))"
  by (simp add: Let_def case_prod_beta)

lemma run_keeps_waiting:
  assumes "m_callbacks ib (id_at (m_seed ib) k) = Some cb" and "\<forall>op \<in> set ops. \<not> ends_call (id_at (m_seed ib) k) op"
    and "m_nextMsgId ib = k + of_nat j" and "0 < j" and "j + length (filter is_communicate ops) \<le> 2 ^ 16"
  shows "m_callbacks (snd (inbox_run ops ib)) (id_at (m_seed ib) k) = Some cb"
  using assms
proof (induction ops arbitrary: ib j)
  case (Cons op ops)
  let ?i = "id_at (m_seed ib) k" and ?ib = "snd (inbox_step op ib)"
  have "k \<noteq> m_nextMsgId ib" if "is_communicate op"
  proof -
    have "j < 2 ^ 16" using Cons.prems(5) that by simp
    then have "(of_nat j :: u16) \<noteq> 0" using Cons.prems(4) by (simp add: word_of_nat_eq_0_iff nat_dvd_not_less)
    then show ?thesis using Cons.prems(3) by simp
  qed
  then have "m_callbacks ?ib ?i = Some cb"
    using Cons.prems(1,2) by (intro step_keeps_waiting) (auto simp: nextMessageId_at id_at_inj)
  moreover have "m_nextMsgId ?ib = k + of_nat (if is_communicate op then Suc j else j)"
    using Cons.prems(3) by (simp add: step_counter)
  ultimately show ?case
    using Cons.IH [of ?ib "if is_communicate op then Suc j else j"] Cons.prems(2,4,5)
    by (simp add: run_snd del: inbox_run.simps split: if_split_asm)
qed simp

section \<open>Callbacks called once\<close>

fun called :: "'cb inbox_event \<Rightarrow> 'cb list" where
  "called (SubscriptionCalled _ _) = []"
| "called (CommunicateFailed cb _) = [cb]"
| "called (CommunicateDone cb _) = [cb]"

fun given :: "'cb inbox_op \<Rightarrow> 'cb list" where
  "given (Communicate _ cb) = [cb]"
| "given _ = []"

definition waiting :: "'cb inbox \<Rightarrow> 'cb multiset" where
  "waiting ib = image_mset (\<lambda>i. the (m_callbacks ib i)) (mset_set (dom (m_callbacks ib)))"

lemma waiting_remove:
  assumes "finite (dom f)" and "f i = Some cb"
  shows "image_mset (\<lambda>j. the (f j)) (mset_set (dom f))
    = add_mset cb (image_mset (\<lambda>j. the ((f(i := None)) j)) (mset_set (dom (f(i := None)))))"
proof -
  have "dom f = insert i (dom f - {i})" using assms(2) by auto
  then have "mset_set (dom f) = add_mset i (mset_set (dom f - {i}))"
    using assms(1) by (metis finite_Diff insert_Diff_single mset_set.insert_remove)
  moreover have "image_mset (\<lambda>j. the (f j)) (mset_set (dom f - {i}))
      = image_mset (\<lambda>j. the ((f(i := None)) j)) (mset_set (dom f - {i}))"
    using assms(1) by (intro image_mset_cong) simp
  ultimately show ?thesis using assms(2) by simp
qed

lemma waiting_insert:
  assumes "finite (dom f)"
  shows "image_mset (\<lambda>j. the ((f(i \<mapsto> cb)) j)) (mset_set (dom (f(i \<mapsto> cb))))
    \<subseteq># add_mset cb (image_mset (\<lambda>j. the (f j)) (mset_set (dom f)))"
proof -
  let ?g = "f(i \<mapsto> cb)"
  have "image_mset (\<lambda>j. the (?g j)) (mset_set (dom ?g))
      = add_mset cb (image_mset (\<lambda>j. the ((f(i := None)) j)) (mset_set (dom (f(i := None)))))"
    using waiting_remove [of ?g i cb] assms by simp
  moreover have "image_mset (\<lambda>j. the ((f(i := None)) j)) (mset_set (dom (f(i := None))))
      \<subseteq># image_mset (\<lambda>j. the (f j)) (mset_set (dom f))"
  proof (cases "f i")
    case (Some c)
    then show ?thesis using waiting_remove [OF assms Some] by simp
  qed (simp add: fun_upd_idem)
  ultimately show ?thesis by simp
qed

lemma step_finite: "finite (dom (m_callbacks ib)) \<Longrightarrow> finite (dom (m_callbacks (snd (inbox_step op ib))))"
  by (cases op) (auto simp: communicate_def sendErrorCallback_def inbox_onMessage_def subscribe_def
      unsubscribe_def Let_def split: option.split list.split)

lemma step_called:
  assumes "finite (dom (m_callbacks ib))"
  shows "mset (concat (map called (fst (inbox_step op ib)))) + waiting (snd (inbox_step op ib))
    \<subseteq># waiting ib + mset (given op)"
proof (cases op)
  case (Communicate msg cb)
  then show ?thesis using waiting_insert [OF assms] by (simp add: waiting_def communicate_def Let_def)
next
  case (Sent i ec)
  then show ?thesis using waiting_remove [OF assms, of i]
    by (cases "m_callbacks ib i") (simp_all add: waiting_def sendErrorCallback_def)
next
  case (Receive msg)
  have "concat (map (called \<circ> (\<lambda>sub. SubscriptionCalled (sub_callback sub) msg)) xs) = []"
    for xs :: "'a SubscriptionData list" by (induction xs) simp_all
  then show ?thesis using waiting_remove [OF assms, of "s_message_id msg"] Receive
    by (cases "m_callbacks ib (s_message_id msg)") (simp_all add: waiting_def inbox_onMessage_def Let_def)
qed (simp_all add: waiting_def subscribe_def unsubscribe_def split: list.split)

lemma run_called:
  assumes "finite (dom (m_callbacks ib))"
  shows "mset (concat (map called (fst (inbox_run ops ib)))) + waiting (snd (inbox_run ops ib))
    \<subseteq># waiting ib + mset (concat (map given ops))"
  using assms
proof (induction ops arbitrary: ib)
  case (Cons op ops)
  let ?ib = "snd (inbox_step op ib)"
  let ?A = "mset (concat (map called (fst (inbox_step op ib))))" and ?G = "mset (concat (map given ops))"
    and ?C = "mset (concat (map called (fst (inbox_run ops ?ib)))) + waiting (snd (inbox_run ops ?ib))"
  have "?C \<subseteq># waiting ?ib + ?G" by (rule Cons.IH) (rule step_finite [OF Cons.prems])
  then have "?A + ?C \<subseteq># ?A + waiting ?ib + ?G"
    by (simp only: add.assoc subset_mset.add_left_mono)
  also have "?A + waiting ?ib + ?G \<subseteq># waiting ib + mset (given op) + ?G"
    using step_called [OF Cons.prems, of op] by (rule subset_mset.add_right_mono)
  finally show ?case unfolding run_snd by (simp add: Let_def case_prod_beta add.assoc)
qed simp

section \<open>Properties\<close>

text \<open>
  C20. The reply to a call reaches the callback of that call: whatever else happens in
  between, as long as it is no answer or send failure under the id of the call and fewer
  than \<open>2 ^ 16\<close> further calls are made, a message with the id calls the subscriptions that
  want it and then exactly this callback, and a second message with the id calls no
  callback. A failure to send calls it with the error instead.
\<close>

theorem inbox_answers_caller:
  assumes "communicate msg cb ib = (sent, ib1)"
    and "\<forall>op \<in> set ops. \<not> ends_call (c_message_id sent) op"
    and "length (filter is_communicate ops) < 2 ^ 16"
    and "s_message_id r = c_message_id sent"
    and "ib2 = snd (inbox_run ops ib1)"
  shows "(\<exists>subs ib3. inbox_onMessage r ib2 = (subs @ [CommunicateDone cb r], ib3) \<and>
      concat (map called subs) = [] \<and> concat (map called (fst (inbox_onMessage r ib3))) = []) \<and>
    (\<forall>ec. ec \<noteq> 0 \<longrightarrow> fst (sendErrorCallback (c_message_id sent) ec ib2) = [CommunicateFailed cb ec])"
proof -
  let ?i = "id_at (m_seed ib) (m_nextMsgId ib)"
  have i: "c_message_id sent = ?i" and seed: "m_seed ib1 = m_seed ib"
    and "m_callbacks ib1 ?i = Some cb" and "m_nextMsgId ib1 = m_nextMsgId ib + of_nat 1"
    using assms(1) by (auto simp: communicate_def Let_def nextMessageId_at)
  then have w: "m_callbacks ib2 ?i = Some cb"
    using run_keeps_waiting [of ib1 "m_nextMsgId ib" cb ops 1] assms(2,3,5) by simp
  have none: "concat (map (called \<circ> (\<lambda>sub. SubscriptionCalled (sub_callback sub) r)) xs) = []"
    for xs :: "'a SubscriptionData list" by (induction xs) simp_all
  show ?thesis using w i assms(4)
    by (simp add: inbox_onMessage_def sendErrorCallback_def Let_def none)
qed

abbreviation (input) plain_call :: client_msg where
  "plain_call \<equiv> \<lparr>c_message_id = [], c_message_stream = None, c_body = ClientBody [7]\<rparr>"

abbreviation (input) reply_to :: "string \<Rightarrow> server_msg" where
  "reply_to i \<equiv> \<lparr>s_message_id = i, s_message_stream = None, s_body = ServerBody [9]\<rparr>"

theorem inbox_answers_caller_witness:
  "\<exists>subs ib3. inbox_onMessage (reply_to (id_at 5 0))
      (snd (inbox_run [Communicate plain_call 2, Receive (reply_to (id_at 5 1))]
              (snd (communicate plain_call (1 :: nat) (new_inbox 5)))))
    = (subs @ [CommunicateDone 1 (reply_to (id_at 5 0))], ib3)"
proof -
  have i: "c_message_id (fst (communicate plain_call (1 :: nat) (new_inbox 5))) = id_at 5 0"
    by (simp add: communicate_def nextMessageId_at new_inbox_def Let_def)
  let ?ops = "[Communicate plain_call (2 :: nat), Receive (reply_to (id_at 5 1))]"
  have "\<forall>op \<in> set ?ops. \<not> ends_call (id_at 5 0) op" by (simp add: id_at_inj)
  moreover have "length (filter is_communicate ?ops) < 2 ^ 16" by simp
  ultimately show ?thesis
    using inbox_answers_caller [of plain_call 1 "new_inbox 5" _ _ ?ops "reply_to (id_at 5 0)", OF surjective_pairing _ _ _ refl]
    unfolding i by (metis (no_types, lifting) server_msg.select_convs(1))
qed

text \<open>
  C21. No callback is called more often than it was given to \<^verbatim>\<open>communicate\<close>: in every run
  of a new inbox, whatever the server sends and however ids repeat, the callbacks called
  and the callbacks still waiting are, counted with repetitions, among those given.
\<close>

theorem inbox_calls_once:
  "mset (concat (map called (fst (inbox_run ops (new_inbox seed))))) + waiting (snd (inbox_run ops (new_inbox seed)))
     \<subseteq># mset (concat (map given ops))"
  using run_called [of "new_inbox seed" ops] by (simp add: new_inbox_def waiting_def)

end
