(* ===== verification/Sequencer.thy ===== *)
theory Sequencer
  imports Protocol
begin

text \<open>
  \<^verbatim>\<open>src/src/communication/layers/sequencer.h\<close>: messages of a stream are handed on in the
  order of their sequence numbers, whatever order they arrive in. The priority queue a
  buffer keeps waiting messages in is the parameter \<open>try_pop\<close>.
\<close>

section \<open>Buffers\<close>

definition GreaterSeqNum :: "server_msg \<Rightarrow> server_msg \<Rightarrow> bool" where
  "GreaterSeqNum a b = (s_seq a > s_seq b)"

type_synonym pop = "server_msg list \<Rightarrow> (server_msg \<times> server_msg list) option"

record seq_buffer =
  m_seqNum :: u64
  m_seqNumAck :: u64
  m_buffer :: "server_msg list"

text \<open>A buffer inserted into the map is value-initialised.\<close>

definition new_buffer :: seq_buffer where
  "new_buffer = \<lparr>m_seqNum = 0, m_seqNumAck = 0, m_buffer = []\<rparr>"

definition has_end_of_stream :: "server_msg \<Rightarrow> bool" where
  "has_end_of_stream msg = (s_body msg = s_end_of_stream)"

definition push :: "server_msg \<Rightarrow> seq_buffer \<Rightarrow> seq_buffer" where
  "push serverMsg b =
     (if s_seq serverMsg \<ge> m_seqNum b then b\<lparr>m_buffer := serverMsg # m_buffer b\<rparr> else b)"

text \<open>
  The loop of \<^verbatim>\<open>Buffer::clear\<close>: the messages it hands to the callback, the pair it returns
  and the buffer it leaves. \<open>None\<close> is a loop that does not end.
\<close>

type_synonym cleared = "server_msg list \<times> (u64 \<times> bool) \<times> seq_buffer"

partial_function (option) clear_buffer :: "pop \<Rightarrow> seq_buffer \<Rightarrow> cleared option" where
  "clear_buffer try_pop b =
     (case try_pop (m_buffer b) of
        None \<Rightarrow> Some ([], (m_seqNum b - 1, False), b)
      | Some (it, rest) \<Rightarrow>
          (if s_seq it = m_seqNum b then
             (let b' = b\<lparr>m_seqNum := m_seqNum b + 1, m_buffer := rest\<rparr>
              in if has_end_of_stream it then Some ([it], (m_seqNum b' - 1, True), b')
                 else Option.bind (clear_buffer try_pop b')
                        (\<lambda>(out, r). Some (it # out, r)))
           else if s_seq it > m_seqNum b then
             Some ([], (s_seq it - 1, False), b\<lparr>m_buffer := it # rest\<rparr>)
           else clear_buffer try_pop (b\<lparr>m_buffer := rest\<rparr>)))"

definition resetSequenceNumberAck :: "seq_buffer \<Rightarrow> seq_buffer" where
  "resetSequenceNumberAck b = b\<lparr>m_seqNumAck := m_seqNum b\<rparr>"

section \<open>The layer\<close>

text \<open>What the layer does: hand a message up, or send one down.\<close>

datatype seq_event = Forward server_msg | Send client_msg

definition body_msg :: "client_body \<Rightarrow> client_msg" where
  "body_msg body = \<lparr>c_message_id = [], c_message_stream = None, c_body = body\<rparr>"

definition sendMessageRequest :: "u64 \<Rightarrow> u64 \<Rightarrow> u64 \<Rightarrow> seq_event" where
  "sendMessageRequest streamId lowerSeqNum upperSeqNum =
     Send (body_msg (MessageRequest streamId lowerSeqNum upperSeqNum))"

definition sendMessageAcknowledgement :: "u64 \<Rightarrow> u64 \<Rightarrow> seq_event" where
  "sendMessageAcknowledgement streamId seqNum = Send (body_msg (MessageAcknowledgement streamId seqNum))"

definition sendMessageStreamReset :: seq_event where
  "sendMessageStreamReset = Send (body_msg MessageStreamReset)"

type_synonym buffers = "u64 \<Rightarrow> seq_buffer option"

text \<open>The callback installed by \<^verbatim>\<open>setOnMessageCallback\<close>.\<close>

definition onMessage :: "pop \<Rightarrow> server_msg \<Rightarrow> buffers \<Rightarrow> (seq_event list \<times> buffers) option" where
  "onMessage try_pop serverMsg m_buffers =
     (case s_message_stream serverMsg of
        None \<Rightarrow> Some ([Forward serverMsg], m_buffers)
      | Some tag \<Rightarrow>
          (let streamId = stream_id tag;
               b = (case m_buffers streamId of None \<Rightarrow> new_buffer | Some b \<Rightarrow> b)
           in Option.bind (clear_buffer try_pop (push serverMsg b))
             (\<lambda>(out, (num, eos), b').
                if eos then
                  Some (map Forward out @ [sendMessageAcknowledgement streamId num],
                        m_buffers(streamId := None))
                else
                  (let seqNum = m_seqNum b';
                       request = (if seqNum \<le> num then [sendMessageRequest streamId seqNum num] else []);
                       full = (seqNum \<ge> m_seqNumAck b' + STREAM_MSG_ACK_WINDOW);
                       ack = (if full then [sendMessageAcknowledgement streamId (seqNum - 1)] else []);
                       b'' = (if full then resetSequenceNumberAck b' else b')
                   in Some (map Forward out @ request @ ack, m_buffers(streamId \<mapsto> b''))))))"

text \<open>
  \<^verbatim>\<open>connect\<close> after the lower layer connected, and the periodic request: \<open>streams\<close> is the
  order in which the map of buffers is iterated.
\<close>

definition seq_connect :: "seq_event list" where
  "seq_connect = [sendMessageStreamReset]"

definition getStreamSequenceNumbers :: "u64 list \<Rightarrow> buffers \<Rightarrow> (u64 \<times> u64) list" where
  "getStreamSequenceNumbers streams m_buffers =
     concat (map (\<lambda>i. case m_buffers i of None \<Rightarrow> [] | Some b \<Rightarrow> [(i, m_seqNum b)]) streams)"

definition periodicMessageRequest :: "u64 list \<Rightarrow> buffers \<Rightarrow> seq_event list" where
  "periodicMessageRequest streams m_buffers =
     map (\<lambda>(streamId, seqNum). sendMessageRequest streamId seqNum seqNum)
       (getStreamSequenceNumbers streams m_buffers)"

text \<open>A run of the layer over the messages that arrive.\<close>

fun receive_all :: "pop \<Rightarrow> server_msg list \<Rightarrow> buffers \<Rightarrow> (seq_event list \<times> buffers) option" where
  "receive_all try_pop [] bs = Some ([], bs)"
| "receive_all try_pop (msg # msgs) bs =
     Option.bind (onMessage try_pop msg bs) (\<lambda>(ev, bs').
       Option.bind (receive_all try_pop msgs bs') (\<lambda>(ev', bs''). Some (ev @ ev', bs'')))"

fun forwarded :: "seq_event list \<Rightarrow> server_msg list" where
  "forwarded [] = []"
| "forwarded (Forward m # es) = m # forwarded es"
| "forwarded (Send _ # es) = forwarded es"

section \<open>Clearing a buffer\<close>

lemma forwarded_append [simp]: "forwarded (xs @ ys) = forwarded xs @ forwarded ys"
  by (induction xs rule: forwarded.induct) auto

lemma forwarded_map_Forward [simp]: "forwarded (map Forward xs) = xs"
  by (induction xs) auto

text \<open>
  What \<^verbatim>\<open>clear\<close> does to a buffer of messages that are all due or still to come and none the
  end of a stream: it hands on the due messages in order, leaves those past the first gap
  (the rest are duplicates), and returns the number before the first one left.
\<close>

definition clear_spec :: "seq_buffer \<Rightarrow> cleared \<Rightarrow> bool" where
  "clear_spec b c = (case c of (out, (num, eos), b') \<Rightarrow>
     \<not> eos \<and> m_seqNumAck b' = m_seqNumAck b \<and> m_seqNum b \<le> m_seqNum b' \<and>
     map (\<lambda>m. unat (s_seq m)) out = [unat (m_seqNum b)..<unat (m_seqNum b')] \<and>
     set out \<subseteq> set (m_buffer b) \<and> set (m_buffer b') \<subseteq> set (m_buffer b) \<and>
     (\<forall>m \<in> set (m_buffer b'). m_seqNum b' < s_seq m) \<and>
     (\<forall>m \<in> set (m_buffer b). m_seqNum b' \<le> s_seq m \<longrightarrow> m \<in> set (m_buffer b')) \<and>
     (if m_buffer b' = [] then num = m_seqNum b' - 1
      else \<exists>m \<in> set (m_buffer b'). num = s_seq m - 1 \<and> (\<forall>x \<in> set (m_buffer b'). s_seq m \<le> s_seq x)))"

definition plain_buffer :: "seq_buffer \<Rightarrow> bool" where
  "plain_buffer b = (\<forall>m \<in> set (m_buffer b). s_seq m \<noteq> - 1 \<and> \<not> has_end_of_stream m)"

lemma unat_next_seq:
  assumes "s \<noteq> (- 1 :: u64)"
  shows "unat (s + 1) = Suc (unat s)"
proof -
  have "unat s \<noteq> unat (- 1 :: u64)" using assms by (metis word_unat_eq_iff)
  moreover have "unat (- 1 :: u64) = 2 ^ 64 - 1" by (simp add: unsigned_minus_1_eq_mask mask_eq_exp_minus_1)
  ultimately have "unat s + unat (1 :: u64) < 2 ^ 64" using unat_u64_bound [of s] by (simp del: unat_u64_bound)
  then show ?thesis by (subst unat_add_small) simp_all
qed

text \<open>The queue hands out a message with the lowest number.\<close>

locale sequencer_queue = priority_queue GreaterSeqNum try_pop for try_pop
begin

lemma clear_pending:
  assumes p: "try_pop (m_buffer b) = Some (it, rest)" and set: "set (m_buffer b) = insert it (set rest)"
    and le: "\<And>x. x \<in> set (m_buffer b) \<Longrightarrow> s_seq it \<le> s_seq x" and gt: "m_seqNum b < s_seq it"
  shows "\<exists>c. clear_buffer try_pop b = Some c \<and> clear_spec b c"
proof -
  have "clear_buffer try_pop b = Some ([], (s_seq it - 1, False), b\<lparr>m_buffer := it # rest\<rparr>)"
    using p gt by (subst clear_buffer.simps) auto
  moreover have "clear_spec b ([], (s_seq it - 1, False), b\<lparr>m_buffer := it # rest\<rparr>)"
    using set le gt by (auto simp: clear_spec_def dest: order.strict_trans2)
  ultimately show ?thesis by blast
qed

lemma clear_due:
  assumes p: "try_pop (m_buffer b) = Some (it, rest)" and set: "set (m_buffer b) = insert it (set rest)"
    and eq: "s_seq it = m_seqNum b" and plain: "s_seq it \<noteq> - 1" "\<not> has_end_of_stream it"
    and IH: "clear_buffer try_pop (b\<lparr>m_seqNum := m_seqNum b + 1, m_buffer := rest\<rparr>) = Some c"
      "clear_spec (b\<lparr>m_seqNum := m_seqNum b + 1, m_buffer := rest\<rparr>) c"
  shows "\<exists>c. clear_buffer try_pop b = Some c \<and> clear_spec b c"
proof -
  obtain out num eos b' where c: "c = (out, (num, eos), b')" by (metis prod.exhaust)
  have "clear_buffer try_pop b = Some (it # out, (num, eos), b')"
    using p eq plain(2) IH(1) c by (subst clear_buffer.simps) (simp add: Let_def)
  moreover have "clear_spec b (it # out, (num, eos), b')"
  proof -
    have next_seq: "unat (m_seqNum b + 1) = Suc (unat (m_seqNum b))" using unat_next_seq plain(1) eq by simp
    have le: "m_seqNum b + 1 \<le> m_seqNum b'" using IH(2) c by (simp add: clear_spec_def)
    then have lt: "m_seqNum b < m_seqNum b'" using next_seq by (simp add: word_le_nat_alt word_less_nat_alt)
    then have "[unat (m_seqNum b)..<unat (m_seqNum b')] = unat (m_seqNum b) # [unat (m_seqNum b + 1)..<unat (m_seqNum b')]"
      using next_seq by (simp add: upt_conv_Cons word_less_nat_alt)
    then show ?thesis using IH(2) c set eq lt by (auto simp: clear_spec_def split: if_splits)
  qed
  ultimately show ?thesis by blast
qed

lemma clear_duplicate:
  assumes p: "try_pop (m_buffer b) = Some (it, rest)" and set: "set (m_buffer b) = insert it (set rest)"
    and lt: "s_seq it < m_seqNum b"
    and IH: "clear_buffer try_pop (b\<lparr>m_buffer := rest\<rparr>) = Some c" "clear_spec (b\<lparr>m_buffer := rest\<rparr>) c"
  shows "\<exists>c. clear_buffer try_pop b = Some c \<and> clear_spec b c"
proof -
  have "clear_buffer try_pop b = Some c" using p lt IH(1) by (subst clear_buffer.simps) auto
  moreover have "clear_spec b c"
    using IH(2) set lt by (auto simp: clear_spec_def split: prod.splits if_splits)
  ultimately show ?thesis by blast
qed

lemma clear_buffer_clears:
  assumes "plain_buffer b"
  shows "\<exists>c. clear_buffer try_pop b = Some c \<and> clear_spec b c"
  using assms
proof (induction "length (m_buffer b)" arbitrary: b rule: less_induct)
  case less
  show ?case
  proof (cases rule: pop_cases [of "m_buffer b"])
    case 1
    then have "clear_buffer try_pop b = Some ([], (m_seqNum b - 1, False), b)"
      by (subst clear_buffer.simps) simp
    then show ?thesis using 1 by (simp add: clear_spec_def)
  next
    case (2 it rest)
    have le: "s_seq it \<le> s_seq x" if "x \<in> set (m_buffer b)" for x
      using 2(3) [OF that] by (simp add: GreaterSeqNum_def not_less)
    have rest: "plain_buffer (b\<lparr>m_buffer := rest\<rparr>)" "plain_buffer (b\<lparr>m_seqNum := m_seqNum b + 1, m_buffer := rest\<rparr>)"
      and it: "s_seq it \<noteq> - 1" "\<not> has_end_of_stream it"
      using less.prems 2(5) by (auto simp: plain_buffer_def)
    consider "s_seq it = m_seqNum b" | "m_seqNum b < s_seq it" | "s_seq it < m_seqNum b" by fastforce
    then show ?thesis
    proof cases
      case 1
      then show ?thesis using clear_due [OF 2(1,5) 1 it] less.hyps [OF _ rest(2)] 2(4) by auto
    next
      case case2: 2
      then show ?thesis using 2(1,5) le by (intro clear_pending) blast+
    next
      case 3
      then show ?thesis using clear_duplicate [OF 2(1,5) 3] less.hyps [OF _ rest(1)] 2(4) by auto
    qed
  qed
qed

end

section \<open>The state of a stream\<close>

definition of_stream :: "u64 \<Rightarrow> server_msg \<Rightarrow> bool" where
  "of_stream sid m = (case s_message_stream m of None \<Rightarrow> False | Some t \<Rightarrow> stream_id t = sid)"

text \<open>
  The buffer of a stream after the messages \<open>ms\<close> of it arrived and \<open>out\<close> were handed on:
  those handed on are numbered from 0 up to the expected number, those that arrived past it
  wait, and fewer than a window of them are not acknowledged.
\<close>

definition seq_inv :: "server_msg list \<Rightarrow> server_msg list \<Rightarrow> seq_buffer \<Rightarrow> bool" where
  "seq_inv ms out b \<longleftrightarrow>
     map (\<lambda>m. unat (s_seq m)) out = [0..<unat (m_seqNum b)] \<and> set out \<subseteq> set ms \<and>
     set (m_buffer b) \<subseteq> set ms \<and> (\<forall>m \<in> set (m_buffer b). m_seqNum b < s_seq m) \<and>
     (\<forall>m \<in> set ms. m_seqNum b \<le> s_seq m \<longrightarrow> m \<in> set (m_buffer b)) \<and>
     m_seqNumAck b \<le> m_seqNum b \<and> unat (m_seqNum b) < unat (m_seqNumAck b) + unat STREAM_MSG_ACK_WINDOW"

definition plain :: "server_msg \<Rightarrow> bool" where
  "plain m = (s_seq m \<noteq> - 1 \<and> \<not> has_end_of_stream m)"

lemma seq_inv_new: "seq_inv [] [] new_buffer"
  by (simp add: seq_inv_def new_buffer_def STREAM_MSG_ACK_WINDOW_def)

text \<open>The expected number is the least that did not arrive.\<close>

lemma seq_inv_least:
  assumes "seq_inv ms out b"
  shows "\<forall>i < unat (m_seqNum b). \<exists>m \<in> set ms. unat (s_seq m) = i" and "\<forall>m \<in> set ms. s_seq m \<noteq> m_seqNum b"
proof -
  have out: "set (map (\<lambda>m. unat (s_seq m)) out) = {0..<unat (m_seqNum b)}" and sub: "set out \<subseteq> set ms"
    using assms by (simp_all add: seq_inv_def)
  show "\<forall>i < unat (m_seqNum b). \<exists>m \<in> set ms. unat (s_seq m) = i"
  proof (intro allI impI)
    fix i assume "i < unat (m_seqNum b)"
    then have "i \<in> set (map (\<lambda>m. unat (s_seq m)) out)" using out by simp
    then show "\<exists>m \<in> set ms. unat (s_seq m) = i" using sub by auto
  qed
  have "m_seqNum b < s_seq m" if "m \<in> set ms" "m_seqNum b \<le> s_seq m" for m
    using assms that unfolding seq_inv_def by blast
  then show "\<forall>m \<in> set ms. s_seq m \<noteq> m_seqNum b" by fastforce
qed

text \<open>Acknowledging keeps the number of unacknowledged messages below the window.\<close>

lemma ack_window:
  assumes "m_seqNumAck b \<le> m_seqNum b"
    and "b' = (if m_seqNum b \<ge> m_seqNumAck b + STREAM_MSG_ACK_WINDOW then resetSequenceNumberAck b else b)"
  shows "m_seqNumAck b' \<le> m_seqNum b' \<and> unat (m_seqNum b') < unat (m_seqNumAck b') + unat STREAM_MSG_ACK_WINDOW"
proof (cases "m_seqNum b \<ge> m_seqNumAck b + STREAM_MSG_ACK_WINDOW")
  case True
  then show ?thesis using assms by (simp add: resetSequenceNumberAck_def STREAM_MSG_ACK_WINDOW_def)
next
  case False
  then have "unat (m_seqNum b) < unat (m_seqNumAck b + STREAM_MSG_ACK_WINDOW)" by (simp add: word_le_nat_alt)
  also have "\<dots> \<le> unat (m_seqNumAck b) + unat STREAM_MSG_ACK_WINDOW"
    unfolding unat_word_ariths by (rule mod_less_eq_dividend)
  finally show ?thesis using False assms by simp
qed

text \<open>What the layer does when a message of a stream arrives.\<close>

definition stream_step :: "u64 \<Rightarrow> seq_event list \<Rightarrow> server_msg list \<Rightarrow> seq_buffer \<Rightarrow> bool" where
  "stream_step sid ev out b \<longleftrightarrow>
     (\<exists>acks. ev = map Forward out @
        (if m_buffer b = [] then []
         else [sendMessageRequest sid (m_seqNum b) (Min (s_seq ` set (m_buffer b)) - 1)]) @ acks \<and>
        set acks \<subseteq> {sendMessageAcknowledgement sid (m_seqNum b - 1)})"

text \<open>The request sent after clearing: exactly when a message waits, and up to the first that does.\<close>

lemma clear_request:
  assumes spec: "clear_spec b (out, (num, eos), b')" and some: "m_buffer b' = [] \<Longrightarrow> m_seqNum b' \<noteq> 0"
  shows "m_seqNum b' \<le> num \<longleftrightarrow> m_buffer b' \<noteq> []"
    and "m_buffer b' \<noteq> [] \<Longrightarrow> num = Min (s_seq ` set (m_buffer b')) - 1"
proof -
  show "num = Min (s_seq ` set (m_buffer b')) - 1" if ne: "m_buffer b' \<noteq> []"
  proof -
    obtain m where m: "m \<in> set (m_buffer b')" "num = s_seq m - 1" "\<forall>x \<in> set (m_buffer b'). s_seq m \<le> s_seq x"
      using spec ne by (auto simp: clear_spec_def)
    have "Min (s_seq ` set (m_buffer b')) = s_seq m" using m(1,3) by (intro Min_eqI) auto
    then show ?thesis using m(2) by simp
  qed
  show "m_seqNum b' \<le> num \<longleftrightarrow> m_buffer b' \<noteq> []"
  proof (cases "m_buffer b' = []")
    case True
    then have "num = m_seqNum b' - 1" "m_seqNum b' \<noteq> 0" using spec some by (auto simp: clear_spec_def)
    then show ?thesis using True by (simp add: word_le_nat_alt unat_pred unat_gt_0 not_le)
  next
    case False
    then obtain m where "m_seqNum b' < s_seq m" "num = s_seq m - 1" using spec by (auto simp: clear_spec_def)
    moreover have "s_seq m \<noteq> 0" using calculation(1) by auto
    ultimately show ?thesis using False by (simp add: word_le_nat_alt word_less_nat_alt unat_pred)
  qed
qed

context sequencer_queue
begin

lemma onMessage_stream:
  assumes inv: "seq_inv ms out b" and plain: "list_all plain (m # ms)" and sid: "of_stream sid m"
    and bs: "(case bs sid of None \<Rightarrow> new_buffer | Some b \<Rightarrow> b) = b"
  shows "\<exists>ev out' b'. onMessage try_pop m bs = Some (ev, bs(sid \<mapsto> b')) \<and>
    seq_inv (ms @ [m]) (out @ out') b' \<and> stream_step sid ev out' b'"
proof -
  let ?p = "push m b"
  have "plain_buffer ?p" using inv plain by (auto simp: plain_buffer_def push_def seq_inv_def plain_def list_all_iff)
  from clear_buffer_clears [OF this] obtain out' num eos b1 where
    c: "clear_buffer try_pop ?p = Some (out', (num, eos), b1)" and spec: "clear_spec ?p (out', (num, eos), b1)"
    by (metis prod.exhaust)
  define b2 where "b2 = (if m_seqNum b1 \<ge> m_seqNumAck b1 + STREAM_MSG_ACK_WINDOW then resetSequenceNumberAck b1 else b1)"
  have b2: "m_seqNum b2 = m_seqNum b1" "m_buffer b2 = m_buffer b1" by (simp_all add: b2_def resetSequenceNumberAck_def)
  have pushed: "set (m_buffer ?p) \<subseteq> set (ms @ [m])" "m_seqNum ?p = m_seqNum b" "m_seqNumAck ?p = m_seqNumAck b"
    using inv by (auto simp: push_def seq_inv_def)
  have all: "x \<in> set (m_buffer ?p)" if "x \<in> set (ms @ [m])" "m_seqNum b \<le> s_seq x" for x
    using that inv by (auto simp: push_def seq_inv_def)
  have waits: "x \<in> set (m_buffer b1)" if "x \<in> set (ms @ [m])" "m_seqNum b1 \<le> s_seq x" for x
    using that all [OF that(1)] spec pushed(2) by (auto simp: clear_spec_def)
  have nonzero: "m_seqNum b1 \<noteq> 0" if "m_buffer b1 = []" using waits [of m] that by auto
  have inv': "seq_inv (ms @ [m]) (out @ out') b2"
  proof -
    have "[0..<unat (m_seqNum b1)] = [0..<unat (m_seqNum b)] @ [unat (m_seqNum b)..<unat (m_seqNum b1)]"
      using spec pushed(2) upt_split [of 0 "unat (m_seqNum b)" "unat (m_seqNum b1)"]
      by (simp add: clear_spec_def word_le_nat_alt)
    moreover have "m_seqNumAck b1 \<le> m_seqNum b1" using spec inv pushed(2,3) by (auto simp: clear_spec_def seq_inv_def)
    ultimately show ?thesis
      using spec inv pushed waits ack_window [OF _ b2_def] b2
      unfolding seq_inv_def clear_spec_def by auto
  qed
  obtain tag where tag: "s_message_stream m = Some tag" "stream_id tag = sid"
    using sid by (auto simp: of_stream_def split: option.splits)
  define ev where "ev = map Forward out' @ (if m_seqNum b1 \<le> num then [sendMessageRequest sid (m_seqNum b1) num] else []) @
      (if m_seqNum b1 \<ge> m_seqNumAck b1 + STREAM_MSG_ACK_WINDOW then [sendMessageAcknowledgement sid (m_seqNum b1 - 1)] else [])"
  have "\<not> eos" using spec by (simp add: clear_spec_def)
  then have "onMessage try_pop m bs = Some (ev, bs(sid \<mapsto> b2))"
    using tag c bs by (simp add: onMessage_def Let_def ev_def b2_def)
  moreover have "stream_step sid ev out' b2"
    using clear_request [OF spec nonzero] unfolding stream_step_def ev_def b2 by auto
  ultimately show ?thesis using inv' by blast
qed

end

section \<open>Runs of the layer\<close>

definition buffer_of :: "buffers \<Rightarrow> u64 \<Rightarrow> seq_buffer" where
  "buffer_of bs sid = (case bs sid of None \<Rightarrow> new_buffer | Some b \<Rightarrow> b)"

definition layer_inv :: "server_msg list \<Rightarrow> server_msg list \<Rightarrow> buffers \<Rightarrow> bool" where
  "layer_inv ms out bs \<longleftrightarrow>
     (\<forall>sid. seq_inv (filter (of_stream sid) ms) (filter (of_stream sid) out) (buffer_of bs sid))"

lemma layer_inv_start: "layer_inv [] [] (\<lambda>_. None)"
  by (simp add: layer_inv_def buffer_of_def seq_inv_new)

lemma forwarded_stream_step: "stream_step sid ev out b \<Longrightarrow> forwarded ev = out"
proof -
  assume "stream_step sid ev out b"
  then obtain acks where ev: "ev = map Forward out @
      (if m_buffer b = [] then [] else [sendMessageRequest sid (m_seqNum b) (Min (s_seq ` set (m_buffer b)) - 1)]) @ acks"
    and acks: "set acks \<subseteq> {sendMessageAcknowledgement sid (m_seqNum b - 1)}" by (auto simp: stream_step_def)
  have "forwarded acks = []" using acks
    by (induction acks) (auto simp: sendMessageAcknowledgement_def)
  then show ?thesis by (simp add: ev sendMessageRequest_def)
qed

lemma of_stream_unique: "of_stream sid m \<Longrightarrow> of_stream sid' m \<longleftrightarrow> sid' = sid"
  by (auto simp: of_stream_def split: option.splits)

lemma filter_one_stream:
  assumes "\<forall>m \<in> set xs. of_stream sid m"
  shows "filter (of_stream sid') xs = (if sid' = sid then xs else [])"
  using assms of_stream_unique by (auto simp: filter_id_conv filter_empty_conv)

context sequencer_queue
begin

lemma onMessage_keeps:
  assumes inv: "layer_inv ms out bs" and plain: "list_all plain (m # ms)"
  shows "\<exists>ev bs'. onMessage try_pop m bs = Some (ev, bs') \<and> layer_inv (ms @ [m]) (out @ forwarded ev) bs'"
proof (cases "s_message_stream m")
  case None
  then have "\<not> of_stream sid m" for sid by (simp add: of_stream_def)
  then show ?thesis using None inv by (simp add: onMessage_def layer_inv_def)
next
  case (Some tag)
  define sid where "sid = stream_id tag"
  have sid: "of_stream sid m" using Some by (simp add: of_stream_def sid_def)
  have inv0: "seq_inv (filter (of_stream sid) ms) (filter (of_stream sid) out) (buffer_of bs sid)"
    using inv by (simp add: layer_inv_def)
  have "list_all plain (m # filter (of_stream sid) ms)" using plain by (simp add: list_all_iff)
  from onMessage_stream [OF inv0 this sid, of bs, OF buffer_of_def [of bs sid, symmetric]] obtain ev out' b' where
    o: "onMessage try_pop m bs = Some (ev, bs(sid \<mapsto> b'))" and step: "stream_step sid ev out' b'"
    and inv': "seq_inv (filter (of_stream sid) ms @ [m]) (filter (of_stream sid) out @ out') b'"
    by blast
  have "set out' \<subseteq> set (filter (of_stream sid) ms @ [m])" using inv' by (simp add: seq_inv_def)
  then have one: "\<forall>x \<in> set out'. of_stream sid x" using sid by auto
  have "layer_inv (ms @ [m]) (out @ out') (bs(sid \<mapsto> b'))"
    unfolding layer_inv_def
  proof
    fix sid'
    show "seq_inv (filter (of_stream sid') (ms @ [m])) (filter (of_stream sid') (out @ out')) (buffer_of (bs(sid \<mapsto> b')) sid')"
    proof (cases "sid' = sid")
      case True
      then show ?thesis using inv' sid one by (simp add: filter_one_stream buffer_of_def)
    next
      case False
      then show ?thesis
        using inv sid one by (simp add: filter_one_stream buffer_of_def layer_inv_def of_stream_unique)
    qed
  qed
  then show ?thesis using o forwarded_stream_step [OF step] by blast
qed

lemma receive_all_keeps:
  assumes "layer_inv ms out bs" and "list_all plain (ms @ ms')"
  shows "\<exists>ev bs'. receive_all try_pop ms' bs = Some (ev, bs') \<and> layer_inv (ms @ ms') (out @ forwarded ev) bs'"
  using assms
proof (induction ms' arbitrary: ms out bs)
  case (Cons m ms')
  obtain ev bs1 where s: "onMessage try_pop m bs = Some (ev, bs1)" "layer_inv (ms @ [m]) (out @ forwarded ev) bs1"
    using onMessage_keeps [OF Cons.prems(1), of m] Cons.prems(2) by (auto simp: list_all_iff)
  obtain ev' bs' where r: "receive_all try_pop ms' bs1 = Some (ev', bs')"
    "layer_inv ((ms @ [m]) @ ms') ((out @ forwarded ev) @ forwarded ev') bs'"
    using Cons.IH [OF s(2)] Cons.prems(2) by auto
  then show ?case using s(1) by simp
qed simp

end

interpretation list_queue: sequencer_queue "list_try_pop GreaterSeqNum"
  unfolding sequencer_queue_def
  by (rule list_priority_queue [where key = s_seq]) (auto simp: GreaterSeqNum_def fun_eq_iff)

section \<open>Properties\<close>

text \<open>The sequence numbers of a stream that arrived.\<close>

definition arrived :: "u64 \<Rightarrow> server_msg list \<Rightarrow> u64 set" where
  "arrived sid ms = s_seq ` set (filter (of_stream sid) ms)"

lemma seq_inv_arrived:
  assumes "seq_inv (filter (of_stream sid) ms) out b"
  shows "i < m_seqNum b \<Longrightarrow> i \<in> arrived sid ms" and "m_seqNum b \<notin> arrived sid ms"
    and "s_seq ` set (m_buffer b) = {i \<in> arrived sid ms. m_seqNum b < i}"
proof -
  show "i \<in> arrived sid ms" if "i < m_seqNum b"
  proof -
    have "unat i < unat (m_seqNum b)" using that by (simp add: word_less_nat_alt)
    then obtain m where "m \<in> set (filter (of_stream sid) ms)" "unat (s_seq m) = unat i"
      using seq_inv_least(1) [OF assms] by blast
    then show ?thesis unfolding arrived_def by (metis image_eqI word_unat_eq_iff)
  qed
  show "m_seqNum b \<notin> arrived sid ms" using seq_inv_least(2) [OF assms] by (auto simp: arrived_def)
  show "s_seq ` set (m_buffer b) = {i \<in> arrived sid ms. m_seqNum b < i}"
    using assms unfolding seq_inv_def arrived_def by (auto dest: less_imp_le)
qed


abbreviation example_msg :: "u64 \<Rightarrow> u64 \<Rightarrow> server_msg" where
  "example_msg sid k \<equiv> \<lparr>s_message_id = [], s_message_stream = Some \<lparr>stream_id = sid, sequence_number = k\<rparr>, s_body = ServerBody []\<rparr>"


lemma request_in_step:
  assumes "stream_step sid ev out b"
  shows "Send (body_msg (MessageRequest sid' lo hi)) \<in> set ev \<longleftrightarrow>
    m_buffer b \<noteq> [] \<and> sid' = sid \<and> lo = m_seqNum b \<and> hi = Min (s_seq ` set (m_buffer b)) - 1"
  using assms
  by (auto simp: stream_step_def sendMessageRequest_def sendMessageAcknowledgement_def body_msg_def split: if_splits)

lemma ack_in_step:
  assumes "stream_step sid ev out b" and "Send (body_msg (MessageAcknowledgement sid' k)) \<in> set ev"
  shows "sid' = sid \<and> k = m_seqNum b - 1"
  using assms
  by (auto simp: stream_step_def sendMessageRequest_def sendMessageAcknowledgement_def body_msg_def split: if_splits)

text \<open>The step of the layer on a message of a stream, after a run.\<close>

lemma sequencer_step:
  assumes q: "priority_queue GreaterSeqNum try_pop" and plain: "list_all plain (ms @ [m])" and sid: "of_stream sid m"
    and run: "receive_all try_pop ms (\<lambda>_. None) = Some (ev0, bs)" and step: "onMessage try_pop m bs = Some (ev, bs')"
  obtains out b where "bs' sid = Some b" and "seq_inv (filter (of_stream sid) (ms @ [m])) out b"
    and "stream_step sid ev (forwarded ev) b"
proof -
  have sq: "sequencer_queue try_pop" using q by (simp add: sequencer_queue_def)
  have "layer_inv ms (forwarded ev0) bs"
    using sequencer_queue.receive_all_keeps [OF sq layer_inv_start, of ms] plain run by auto
  then have inv: "seq_inv (filter (of_stream sid) ms) (filter (of_stream sid) (forwarded ev0)) (buffer_of bs sid)"
    by (simp add: layer_inv_def)
  have "list_all plain (m # filter (of_stream sid) ms)" using plain by (auto simp: list_all_iff)
  from sequencer_queue.onMessage_stream [OF sq inv this sid, of bs, OF buffer_of_def [of bs sid, symmetric]]
  obtain ev' out' b' where "onMessage try_pop m bs = Some (ev', bs(sid \<mapsto> b'))" "stream_step sid ev' out' b'"
    "seq_inv (filter (of_stream sid) ms @ [m]) (filter (of_stream sid) (forwarded ev0) @ out') b'" by blast
  then show thesis using that [of b'] step sid forwarded_stream_step by auto
qed

text \<open>
  C13. When a message leaves a gap, the layer asks for exactly the missing messages: a
  request covers the numbers from the first one missing up to just before the next one that
  arrived, and one is sent after a message if and only if some number below an arrived one
  is missing.
\<close>

theorem sequencer_requests_gap:
  assumes "priority_queue GreaterSeqNum try_pop" and "list_all plain (ms @ [m])" and "of_stream sid m"
    and "receive_all try_pop ms (\<lambda>_. None) = Some (ev0, bs)" and "onMessage try_pop m bs = Some (ev, bs')"
  shows "(\<forall>lo hi. Send (body_msg (MessageRequest sid lo hi)) \<in> set ev \<longrightarrow>
      lo \<le> hi \<and> (\<forall>i < lo. i \<in> arrived sid (ms @ [m])) \<and>
      (\<forall>i. lo \<le> i \<and> i \<le> hi \<longrightarrow> i \<notin> arrived sid (ms @ [m])) \<and> hi + 1 \<in> arrived sid (ms @ [m])) \<and>
    ((\<exists>lo hi. Send (body_msg (MessageRequest sid lo hi)) \<in> set ev) \<longleftrightarrow>
      (\<exists>i j. j < i \<and> i \<in> arrived sid (ms @ [m]) \<and> j \<notin> arrived sid (ms @ [m])))"
proof -
  obtain out b where inv: "seq_inv (filter (of_stream sid) (ms @ [m])) out b" and st: "stream_step sid ev (forwarded ev) b"
    using sequencer_step [OF assms] by blast
  let ?A = "arrived sid (ms @ [m])" and ?n = "m_seqNum b"
  let ?k = "Min (s_seq ` set (m_buffer b))"
  note A = seq_inv_arrived [OF inv]
  have k: "?k \<in> ?A" "?n < ?k" "\<And>i. i \<in> ?A \<Longrightarrow> ?n < i \<Longrightarrow> ?k \<le> i" if "m_buffer b \<noteq> []"
  proof -
    have "?k \<in> s_seq ` set (m_buffer b)" by (rule Min_in) (use that in simp_all)
    from subsetD [OF equalityD1 [OF A(3)] this] show "?k \<in> ?A" "?n < ?k" by simp_all
    fix i assume "i \<in> ?A" "?n < i"
    then have "i \<in> s_seq ` set (m_buffer b)" by (simp only: A(3)) simp
    then show "?k \<le> i" by (rule Min_le [rotated]) simp
  qed
  have gap: "?n \<le> ?k - 1" "\<And>i. ?n \<le> i \<Longrightarrow> i \<le> ?k - 1 \<Longrightarrow> i \<notin> ?A" if "m_buffer b \<noteq> []"
  proof -
    have lt: "?n < ?k" using that by (rule k(2))
    then have "?k \<noteq> 0" by auto
    then have u: "unat (?k - 1) = unat ?k - 1" "unat ?n < unat ?k" using lt by (simp_all add: unat_pred word_less_nat_alt)
    then show "?n \<le> ?k - 1" by (simp add: word_le_nat_alt)
    fix i assume "?n \<le> i" "i \<le> ?k - 1"
    then have "i < ?k" using u by (simp add: word_le_nat_alt word_less_nat_alt)
    show "i \<notin> ?A"
    proof
      assume i: "i \<in> ?A"
      with A(2) \<open>?n \<le> i\<close> have "?n < i" by (cases "?n = i") auto
      from k(3) [OF that i this] \<open>i < ?k\<close> show False by simp
    qed
  qed
  have "(\<exists>lo hi. Send (body_msg (MessageRequest sid lo hi)) \<in> set ev) \<longleftrightarrow> m_buffer b \<noteq> []"
    by (simp add: request_in_step [OF st])
  also have "\<dots> \<longleftrightarrow> (\<exists>i j. j < i \<and> i \<in> ?A \<and> j \<notin> ?A)"
  proof
    show "\<exists>i j. j < i \<and> i \<in> ?A \<and> j \<notin> ?A" if "m_buffer b \<noteq> []" using k [OF that] A(2) by blast
    show "m_buffer b \<noteq> []" if "\<exists>i j. j < i \<and> i \<in> ?A \<and> j \<notin> ?A"
    proof -
      obtain i j where ij: "j < i" "i \<in> ?A" "j \<notin> ?A" using \<open>\<exists>i j. _\<close> by blast
      have "?n \<le> j" using A(1) [of j] ij(3) by (cases "j < ?n") auto
      then have "i \<in> s_seq ` set (m_buffer b)" unfolding A(3) using ij by simp
      then show ?thesis by auto
    qed
  qed
  finally have ex: "(\<exists>lo hi. Send (body_msg (MessageRequest sid lo hi)) \<in> set ev) \<longleftrightarrow> (\<exists>i j. j < i \<and> i \<in> ?A \<and> j \<notin> ?A)" .
  show ?thesis
  proof (intro conjI allI impI ex)
    fix lo hi assume "Send (body_msg (MessageRequest sid lo hi)) \<in> set ev"
    then have ne: "m_buffer b \<noteq> []" and lo: "lo = ?n" and hi: "hi = ?k - 1" unfolding request_in_step [OF st] by blast+
    show "lo \<le> hi" using gap(1) [OF ne] by (simp only: lo hi)
    show "hi + 1 \<in> ?A" using k(1) [OF ne] by (simp add: hi)
    show "i \<in> ?A" if "i < lo" for i using A(1) that by (simp only: lo)
    show "i \<notin> ?A" if "lo \<le> i \<and> i \<le> hi" for i using gap(2) [OF ne] that unfolding lo hi by blast
  qed
qed

theorem sequencer_requests_gap_witness:
  "\<exists>ev bs'. onMessage (list_try_pop GreaterSeqNum) (example_msg 7 2) (\<lambda>_. None) = Some (ev, bs') \<and>
     (\<exists>lo hi. Send (body_msg (MessageRequest 7 lo hi)) \<in> set ev)"
proof -
  have pl: "list_all plain ([] @ [example_msg 7 2])" by (simp add: plain_def s_seq_def has_end_of_stream_def)
  have str: "of_stream 7 (example_msg 7 2)" by (simp add: of_stream_def)
  have run: "receive_all (list_try_pop GreaterSeqNum) [] (\<lambda>_. None) = Some ([], \<lambda>_. None)" by simp
  obtain ev bs' where o: "onMessage (list_try_pop GreaterSeqNum) (example_msg 7 2) (\<lambda>_. None) = Some (ev, bs')"
    using list_queue.onMessage_keeps [OF layer_inv_start, of "example_msg 7 2"] pl by auto
  have "(\<exists>lo hi. Send (body_msg (MessageRequest 7 lo hi)) \<in> set ev) \<longleftrightarrow>
      (\<exists>i j. j < i \<and> i \<in> arrived 7 ([] @ [example_msg 7 2]) \<and> j \<notin> arrived 7 ([] @ [example_msg 7 2]))"
    using sequencer_requests_gap [OF list_queue.priority_queue_axioms pl str run o] by (rule conjunct2)
  moreover have "arrived 7 ([] @ [example_msg 7 2]) = {2}" by (simp add: arrived_def of_stream_def s_seq_def)
  moreover have "(0 :: u64) < 2 \<and> (0 :: u64) \<notin> {2}" by simp
  ultimately have "\<exists>lo hi. Send (body_msg (MessageRequest 7 lo hi)) \<in> set ev" by blast
  with o show ?thesis by blast
qed



end
