(* ===== verification/Layers.thy ===== *)
theory Layers
  imports Inbox Sequencer
begin

text \<open>
  The thin layers of \<^verbatim>\<open>src/src/communication/layers/\<close> (\<^verbatim>\<open>retrier.h\<close>, \<^verbatim>\<open>binaryTranslator.h\<close>,
  \<^verbatim>\<open>asyncResponder.h\<close>, \<^verbatim>\<open>replier.h\<close>, \<^verbatim>\<open>translator.h\<close>) and the stack \<^verbatim>\<open>communicator.h\<close> builds of
  them with the sequencer and the inbox. Protocol Buffers are the parameters
  \<open>SerializeAsString\<close> and \<open>ParseFromString\<close>; how the connection pool answers the sends of
  one message is the parameter \<open>outcome\<close>, the error code (0: none) of each attempt.
\<close>

section \<open>Retrier\<close>

text \<open>
  The sends a message causes, with the retry number passed on, and the error code the
  caller's callback gets.
\<close>

function retrier_send :: "(nat \<Rightarrow> int) \<Rightarrow> bytes \<Rightarrow> int \<Rightarrow> nat \<Rightarrow> (bytes \<times> int) list \<times> int" where
  "retrier_send outcome message retries n =
     (let ec = outcome n
      in if ec \<noteq> 0 \<and> retries > 0
         then (let (sends, r) = retrier_send outcome message (retries - 1) (Suc n)
               in ((message, retries) # sends, r))
         else ([(message, retries)], ec))"
  by pat_completeness auto

termination by (relation "measure (\<lambda>(_, _, retries, _). nat retries)") auto

declare retrier_send.simps [simp del]

section \<open>Translators\<close>

definition binary_send ::
  "(client_msg \<Rightarrow> bytes) \<Rightarrow> (nat \<Rightarrow> int) \<Rightarrow> client_msg \<Rightarrow> int \<Rightarrow> (bytes \<times> int) list \<times> int" where
  "binary_send SerializeAsString outcome message retries =
     retrier_send outcome (SerializeAsString message) retries 0"

text \<open>The message handed up for the bytes received, if any.\<close>

definition binary_onMessage :: "(bytes \<Rightarrow> server_msg option) \<Rightarrow> bytes \<Rightarrow> server_msg option" where
  "binary_onMessage ParseFromString message =
     (case ParseFromString message of
        Some serverMsg \<Rightarrow> (if s_body serverMsg = s_processing_status then None else Some serverMsg)
      | None \<Rightarrow> None)"

definition binary_handshakeResponse ::
  "(bytes \<Rightarrow> server_msg option) \<Rightarrow> (server_msg \<Rightarrow> int) \<Rightarrow> bytes \<Rightarrow> int" where
  "binary_handshakeResponse ParseFromString onHandshakeResponse message =
     (case ParseFromString message of None \<Rightarrow> EPROTO | Some serverMsg \<Rightarrow> onHandshakeResponse serverMsg)"

text \<open>The callbacks that settle a promise from an error code.\<close>

definition settle :: "int \<Rightarrow> 'a fut \<Rightarrow> 'a fut" where
  "settle ec v = (if ec \<noteq> 0 then Inl (system_error ec) else v)"

definition translator_send ::
  "(client_msg \<Rightarrow> bytes) \<Rightarrow> (nat \<Rightarrow> int) \<Rightarrow> client_msg \<Rightarrow> int \<Rightarrow> (bytes \<times> int) list \<times> unit fut" where
  "translator_send SerializeAsString outcome msg retries =
     (let (sends, ec) = binary_send SerializeAsString outcome msg retries in (sends, settle ec (Inr ())))"

definition replier_reply ::
  "(client_msg \<Rightarrow> bytes) \<Rightarrow> (nat \<Rightarrow> int) \<Rightarrow> server_msg \<Rightarrow> client_msg \<Rightarrow> int \<Rightarrow> (bytes \<times> int) list \<times> int" where
  "replier_reply SerializeAsString outcome replyTo msg retry =
     binary_send SerializeAsString outcome (msg\<lparr>c_message_id := s_message_id replyTo\<rparr>) retry"

definition translator_reply ::
  "(client_msg \<Rightarrow> bytes) \<Rightarrow> (nat \<Rightarrow> int) \<Rightarrow> server_msg \<Rightarrow> client_msg \<Rightarrow> int \<Rightarrow> (bytes \<times> int) list \<times> unit fut" where
  "translator_reply SerializeAsString outcome replyTo msg retry =
     (let (sends, ec) = replier_reply SerializeAsString outcome replyTo msg retry in (sends, settle ec (Inr ())))"

text \<open>
  \<^verbatim>\<open>setHandshake\<close>: the promise is settled by the first handshake only (\<^verbatim>\<open>std::call_once\<close>).
\<close>

definition onHandshakeDone :: "int \<Rightarrow> unit fut option \<Rightarrow> unit fut option" where
  "onHandshakeDone ec promise = (case promise of None \<Rightarrow> Some (settle ec (Inr ())) | Some _ \<Rightarrow> promise)"

text \<open>
  The value a call's promise is settled with by the inbox; \<open>SvrMsg\<close> is the constructor of
  the reply's class, which may throw.
\<close>

fun communicate_callback :: "(server_msg \<Rightarrow> 'a fut) \<Rightarrow> 'cb inbox_event \<Rightarrow> 'a fut option" where
  "communicate_callback SvrMsg (CommunicateFailed _ ec) = Some (settle ec (Inl runtime_error))"
| "communicate_callback SvrMsg (CommunicateDone _ msg) = Some (settle 0 (SvrMsg msg))"
| "communicate_callback SvrMsg (SubscriptionCalled _ _) = None"

section \<open>The stack\<close>

text \<open>
  A call going down: the inbox numbers it, the binary translator serializes it, the retrier
  sends it, and the final error code goes back to the inbox.
\<close>

definition stack_communicate ::
  "(client_msg \<Rightarrow> bytes) \<Rightarrow> (nat \<Rightarrow> int) \<Rightarrow> client_msg \<Rightarrow> 'cb \<Rightarrow> int \<Rightarrow> 'cb inbox \<Rightarrow>
   (bytes \<times> int) list \<times> 'cb inbox_event list \<times> 'cb inbox" where
  "stack_communicate SerializeAsString outcome msg cb retries ib =
     (let (sent, ib1) = communicate msg cb ib;
          (sends, ec) = binary_send SerializeAsString outcome sent retries;
          (ev, ib2) = sendErrorCallback (c_message_id sent) ec ib1
      in (sends, ev, ib2))"

text \<open>
  Messages coming up: parsed, put in order within their streams, and each handed to the
  executor; \<open>order\<close> is the order in which the executor runs the inbox's callback on them.
\<close>

definition stack_receive ::
  "(bytes \<Rightarrow> server_msg option) \<Rightarrow> pop \<Rightarrow> (server_msg list \<Rightarrow> server_msg list) \<Rightarrow> bytes list \<Rightarrow>
   buffers \<Rightarrow> 'cb inbox \<Rightarrow> ('cb inbox_event list \<times> buffers \<times> 'cb inbox) option" where
  "stack_receive ParseFromString try_pop order wire bs ib =
     Option.bind (receive_all try_pop (List.map_filter (binary_onMessage ParseFromString) wire) bs)
       (\<lambda>(ev, bs'). let (out, ib') = inbox_run (map Receive (order (forwarded ev))) ib in Some (out, bs', ib'))"

section \<open>Attempts\<close>

text \<open>The attempt that ends the sending: the first success, or the last one allowed.\<close>

lemma retrier_attempts:
  "\<exists>k \<le> nat retries. retrier_send outcome message retries n =
     (map (\<lambda>i. (message, retries - int i)) [0..<Suc k], outcome (n + k)) \<and>
     (\<forall>i < k. outcome (n + i) \<noteq> 0) \<and> (outcome (n + k) = 0 \<or> k = nat retries)"
proof (induction outcome message retries n rule: retrier_send.induct)
  case (1 outcome message retries n)
  show ?case
  proof (cases "outcome n \<noteq> 0 \<and> retries > 0")
    case True
    then obtain k where k: "k \<le> nat (retries - 1)"
      "retrier_send outcome message (retries - 1) (Suc n) =
         (map (\<lambda>i. (message, retries - 1 - int i)) [0..<Suc k], outcome (Suc n + k))"
      "\<forall>i < k. outcome (Suc n + i) \<noteq> 0" "outcome (Suc n + k) = 0 \<or> k = nat (retries - 1)"
      using "1.IH" by blast
    have "map (\<lambda>i. (message, retries - int i)) [0..<Suc (Suc k)]
        = (message, retries) # map (\<lambda>i. (message, retries - 1 - int i)) [0..<Suc k]"
      by (subst map_upt_Suc) (simp add: algebra_simps del: upt_Suc)
    then have "retrier_send outcome message retries n =
        (map (\<lambda>i. (message, retries - int i)) [0..<Suc (Suc k)], outcome (n + Suc k))"
      using True k(2) by (subst retrier_send.simps) (simp add: Let_def)
    moreover have "\<forall>i < Suc k. outcome (n + i) \<noteq> 0" using k(3) True by (auto simp: less_Suc_eq_0_disj)
    moreover have "Suc k \<le> nat retries" "outcome (n + Suc k) = 0 \<or> Suc k = nat retries" using k(1,4) True by auto
    ultimately show ?thesis by blast
  next
    case False
    then show ?thesis by (intro exI [of _ 0]) (subst retrier_send.simps, auto simp: Let_def)
  qed
qed

section \<open>Messages without a stream\<close>

definition untagged :: "server_msg \<Rightarrow> bool" where
  "untagged m = (s_message_stream m = None)"

definition free_of :: "(server_msg \<Rightarrow> bool) \<Rightarrow> buffers \<Rightarrow> bool" where
  "free_of P bs = (\<forall>i b. bs i = Some b \<longrightarrow> (\<forall>m \<in> set (m_buffer b). \<not> P m))"

context sequencer_queue
begin

lemma clear_buffer_ends:
  "\<exists>out r b'. clear_buffer try_pop b = Some (out, r, b') \<and> set out \<union> set (m_buffer b') \<subseteq> set (m_buffer b)"
proof (induction "length (m_buffer b)" arbitrary: b rule: less_induct)
  case less
  show ?case
  proof (cases rule: pop_cases [of "m_buffer b"])
    case 1
    then show ?thesis by (subst clear_buffer.simps) auto
  next
    case (2 it rest)
    let ?b1 = "b\<lparr>m_seqNum := m_seqNum b + 1, m_buffer := rest\<rparr>" and ?b2 = "b\<lparr>m_buffer := rest\<rparr>"
    obtain out1 r1 b1 where 3: "clear_buffer try_pop ?b1 = Some (out1, r1, b1)" "set out1 \<union> set (m_buffer b1) \<subseteq> set rest"
      using less.hyps [of ?b1] 2(4) by auto
    obtain out2 r2 b2 where 4: "clear_buffer try_pop ?b2 = Some (out2, r2, b2)" "set out2 \<union> set (m_buffer b2) \<subseteq> set rest"
      using less.hyps [of ?b2] 2(4) by auto
    show ?thesis using 3 4 2(5) by (subst clear_buffer.simps) (auto simp: 2(1) Let_def)
  qed
qed

lemma onMessage_untagged:
  assumes "free_of P bs" and "P m \<longrightarrow> untagged m"
  shows "\<exists>ev bs'. onMessage try_pop m bs = Some (ev, bs') \<and> free_of P bs' \<and>
    filter P (forwarded ev) = filter P [m]"
proof (cases "s_message_stream m")
  case None
  then show ?thesis using assms by (auto simp: onMessage_def)
next
  case (Some tag)
  let ?b = "case bs (stream_id tag) of None \<Rightarrow> new_buffer | Some b \<Rightarrow> b"
  have m: "\<not> P m" using assms(2) Some by (auto simp: untagged_def)
  then have "\<forall>x \<in> set (m_buffer (push m ?b)). \<not> P x"
    using assms(1) by (auto simp: push_def free_of_def new_buffer_def split: option.splits)
  moreover obtain out num eos b' where c: "clear_buffer try_pop (push m ?b) = Some (out, (num, eos), b')"
    "set out \<union> set (m_buffer b') \<subseteq> set (m_buffer (push m ?b))"
    using clear_buffer_ends [of "push m ?b"] by (metis prod.collapse)
  ultimately have t: "\<forall>x \<in> set out. \<not> P x" "\<forall>x \<in> set (m_buffer b'). \<not> P x" by blast+
  then have "filter P out = []" by (simp add: filter_empty_conv)
  moreover have "free_of P (bs(stream_id tag := None))"
    and "free_of P (bs(stream_id tag \<mapsto> b'))" "free_of P (bs(stream_id tag \<mapsto> resetSequenceNumberAck b'))"
    using assms(1) t(2) by (auto simp: free_of_def resetSequenceNumberAck_def)
  ultimately show ?thesis using c(1) Some m
    by (simp add: onMessage_def Let_def sendMessageAcknowledgement_def sendMessageRequest_def)
qed

lemma receive_all_untagged:
  assumes "free_of P bs" and "\<forall>m \<in> set ms. P m \<longrightarrow> untagged m"
  shows "\<exists>ev bs'. receive_all try_pop ms bs = Some (ev, bs') \<and> filter P (forwarded ev) = filter P ms"
  using assms
proof (induction ms arbitrary: bs)
  case (Cons m ms)
  from onMessage_untagged [of P bs m] Cons.prems obtain ev bs1 where
    1: "onMessage try_pop m bs = Some (ev, bs1)" "free_of P bs1" "filter P (forwarded ev) = filter P [m]"
    by auto
  from Cons.IH [OF 1(2)] Cons.prems(2) obtain ev' bs2 where
    "receive_all try_pop ms bs1 = Some (ev', bs2)" "filter P (forwarded ev') = filter P ms"
    by auto
  then show ?case using 1 by (auto split: if_split_asm)
qed simp

end

section \<open>Properties\<close>

text \<open>Whether an event is the reply to the call with an id.\<close>

fun done_for :: "string \<Rightarrow> 'cb inbox_event \<Rightarrow> bool" where
  "done_for i (CommunicateDone _ m) = (s_message_id m = i)"
| "done_for i _ = False"

lemma run_receive:
  "filter (done_for i) (fst (inbox_run (map Receive ms) ib)) =
     (case m_callbacks ib i of None \<Rightarrow> []
      | Some cb \<Rightarrow> map (CommunicateDone cb) (take 1 (filter (\<lambda>m. s_message_id m = i) ms)))"
proof (induction ms arbitrary: ib)
  case (Cons m ms)
  have subs: "filter (done_for i) (map (\<lambda>sub. SubscriptionCalled (sub_callback sub) m) xs) = []"
    for xs :: "'a SubscriptionData list" by (induction xs) simp_all
  let ?ib = "snd (inbox_onMessage m ib)"
  have "filter (done_for i) (fst (inbox_run (map Receive (m # ms)) ib)) =
      filter (done_for i) (fst (inbox_onMessage m ib)) @ filter (done_for i) (fst (inbox_run (map Receive ms) ?ib))"
    by (simp add: Let_def case_prod_beta)
  also have "\<dots> = (case m_callbacks ib i of None \<Rightarrow> []
      | Some cb \<Rightarrow> map (CommunicateDone cb) (take 1 (filter (\<lambda>m. s_message_id m = i) (m # ms))))"
    unfolding Cons.IH by (cases "s_message_id m = i"; cases "m_callbacks ib (s_message_id m)")
      (auto simp: inbox_onMessage_def Let_def subs split: option.split)
  finally show ?case .
qed (simp split: option.split)

text \<open>
  C22. A call is sent at most \<open>retries + 1\<close> times, always as the same bytes, and until the
  first success. When an attempt succeeds the call waits for its reply; when none does, its
  callback gets the error of the last attempt and the inbox forgets the call.
\<close>

theorem communicate_retries:
  assumes "stack_communicate SerializeAsString outcome msg cb retries ib = (sends, ev, ib2)"
    and "i = nextMessageId ib"
  shows "\<exists>k \<le> nat retries. map fst sends = replicate (Suc k) (SerializeAsString (msg\<lparr>c_message_id := i\<rparr>)) \<and>
    (\<forall>j < k. outcome j \<noteq> 0) \<and>
    (if outcome k = 0 then ev = [] \<and> m_callbacks ib2 i = Some cb
     else k = nat retries \<and> ev = [CommunicateFailed cb (outcome k)] \<and> m_callbacks ib2 i = None)"
proof -
  let ?wire = "SerializeAsString (msg\<lparr>c_message_id := i\<rparr>)"
  obtain k where k: "k \<le> nat retries"
    "retrier_send outcome ?wire retries 0 = (map (\<lambda>i. (?wire, retries - int i)) [0..<Suc k], outcome (0 + k))"
    "\<forall>i < k. outcome (0 + i) \<noteq> 0" "outcome (0 + k) = 0 \<or> k = nat retries"
    using retrier_attempts by blast
  have "map fst (map (\<lambda>i. (?wire, retries - int i)) [0..<Suc k]) = replicate (Suc k) ?wire"
    by (simp add: map_replicate_const o_def del: upt_Suc replicate.simps)
  moreover have "sends = map (\<lambda>i. (?wire, retries - int i)) [0..<Suc k]"
    "(ev, ib2) = sendErrorCallback i (outcome k) (snd (communicate msg cb ib))"
    using assms k(2) by (auto simp: stack_communicate_def communicate_def binary_send_def Let_def case_prod_beta)
  ultimately show ?thesis using k(1,3,4) assms(2)
    by (intro exI [of _ k]) (auto simp: sendErrorCallback_def communicate_def Let_def)
qed

theorem communicate_retries_witness:
  "\<exists>k \<le> 2. (\<forall>j < k. (if j < 1 then 32 else 0 :: int) \<noteq> 0) \<and>
     map fst (fst (stack_communicate (\<lambda>_. [1]) (\<lambda>j. if j < 1 then 32 else 0) plain_call (0 :: nat) 2 (new_inbox 7)))
       = replicate (Suc k) [1]"
  using communicate_retries [of "\<lambda>_. [1]" "\<lambda>j. if j < 1 then 32 else 0" plain_call 0 2 "new_inbox 7" _ _ _, OF _ refl]
  by (metis (no_types, lifting) nat_numeral prod.collapse)

text \<open>
  C23. The reply to a call reaches its caller through the whole stack: when one of the
  packets received, in whatever company and whatever state the streams are in, parses to
  the one message with the call's id, which belongs to no stream and is no heartbeat, then
  receiving ends and the caller's callback, and no other, gets exactly this message, in
  whatever order the executor runs the deliveries.
\<close>

theorem stack_answers_caller:
  assumes "sequencer_queue try_pop" and "runs_each_once order"
    and "m_callbacks ib i = Some cb"
    and "free_of (\<lambda>m. s_message_id m = i) bs"
    and "filter (\<lambda>m. s_message_id m = i) (List.map_filter (binary_onMessage ParseFromString) wire) = [r]"
    and "untagged r"
  shows "\<exists>ev bs' ib'. stack_receive ParseFromString try_pop order wire bs ib = Some (ev, bs', ib') \<and>
    filter (done_for i) ev = [CommunicateDone cb r]"
proof -
  let ?ms = "List.map_filter (binary_onMessage ParseFromString) wire" and ?P = "\<lambda>m. s_message_id m = i"
  have "m = r" if "m \<in> set ?ms" "?P m" for m
  proof -
    have "m \<in> set (filter ?P ?ms)" using that by simp
    then show ?thesis unfolding assms(5) by simp
  qed
  then have "\<forall>m \<in> set ?ms. ?P m \<longrightarrow> untagged m" using assms(6) by blast
  from sequencer_queue.receive_all_untagged [OF assms(1,4) this] obtain ev bs' where
    ev: "receive_all try_pop ?ms bs = Some (ev, bs')" "filter ?P (forwarded ev) = [r]" unfolding assms(5) by blast
  have "mset (filter ?P (order (forwarded ev))) = mset (filter ?P (forwarded ev))"
    using assms(2) by (simp add: runs_each_once_def)
  then have "filter ?P (order (forwarded ev)) = [r]" unfolding ev(2) by (simp del: mset_filter)
  then show ?thesis using run_receive [of i "order (forwarded ev)" ib] assms(3) ev(1)
    by (simp add: stack_receive_def case_prod_beta Let_def)
qed

abbreviation (input) tiny_parse :: "bytes \<Rightarrow> server_msg option" where
  "tiny_parse w \<equiv> (if w = [1] then Some (reply_to ''8'')
     else if w = [2] then Some \<lparr>s_message_id = ''8'', s_message_stream = None, s_body = s_processing_status\<rparr>
     else if w = [3] then Some \<lparr>s_message_id = [], s_message_stream = Some \<lparr>stream_id = 1, sequence_number = 0\<rparr>, s_body = ServerBody []\<rparr>
     else None)"

theorem stack_answers_caller_witness:
  "\<exists>ev bs' ib'. stack_receive tiny_parse (list_try_pop GreaterSeqNum) rev [[2], [3], [1], [9]] (\<lambda>_. None)
      ((new_inbox 8)\<lparr>m_callbacks := [''8'' \<mapsto> (0 :: nat)]\<rparr>) = Some (ev, bs', ib') \<and>
    filter (done_for ''8'') ev = [CommunicateDone 0 (reply_to ''8'')]"
  using stack_answers_caller [OF list_queue.sequencer_queue_axioms, where order = rev and wire = "[[2], [3], [1], [9]]"
      and ParseFromString = tiny_parse and i = "''8''" and cb = 0 and r = "reply_to ''8''" and bs = "\<lambda>_. None"
      and ib = "(new_inbox 8)\<lparr>m_callbacks := [''8'' \<mapsto> (0 :: nat)]\<rparr>"]
  by (simp add: runs_each_once_def free_of_def untagged_def List.map_filter_simps binary_onMessage_def)

end
