(* ===== verification/Connections.thy ===== *)
theory Connections
  imports Codec Layers
begin

text \<open>
  \<^verbatim>\<open>src/src/communication/clprotoClientBootstrap.cc\<close> and \<^verbatim>\<open>connectionPool.cc\<close>: bringing up a
  connection, and the pool that sends messages over its connections. What sockets, TLS and
  the peer do is a parameter: the outcome of every stage of a connection attempt, and whether
  a connection is usable when it is looked at. A connection is named by its number.
\<close>

section \<open>Connecting\<close>

definition CLIENT_RECONNECT_DELAYS :: "int list" where
  "CLIENT_RECONNECT_DELAYS =
     [0, 100, 1000, 1000, 1000, 1000, 5000, 5000, 5000, 15000, 15000, 15000, 60000]"

datatype connect_stage =
    ClosePipeline | Delay int | Resolve | TcpConnect | SetNoDelay
  | WriteUpgrade string | AwaitUpgrade | RemoveUpgradeHandler | Finalize
  | WriteHandshake | AwaitHandshake | RemoveHandshakeHandler

record bootstrap =
  m_performCLProtoUpgrade :: bool
  m_performCLProtoHandshake :: bool

text \<open>The continuations chained before the socket is connected, and those after.\<close>

definition before_connect :: "bool \<Rightarrow> nat \<Rightarrow> int \<Rightarrow> connect_stage list" where
  "before_connect has_pipeline reconnectAttempt reconnectDelay =
     (if reconnectAttempt \<noteq> 0 \<and> has_pipeline then [ClosePipeline] else []) @ [Delay reconnectDelay, Resolve]"

definition connect_stages :: "bootstrap \<Rightarrow> string \<Rightarrow> connect_stage list" where
  "connect_stages cl host =
     [TcpConnect, SetNoDelay] @
     (if m_performCLProtoUpgrade cl
      then [WriteUpgrade (makeUpgradeRequest host), AwaitUpgrade, RemoveUpgradeHandler] else []) @
     [Finalize] @
     (if m_performCLProtoHandshake cl
      then [WriteHandshake, AwaitHandshake, RemoveHandshakeHandler, Finalize] else [])"

text \<open>Stages run until the first that fails.\<close>

fun run_stages :: "(connect_stage \<Rightarrow> unit fut) \<Rightarrow> connect_stage list \<Rightarrow> unit fut" where
  "run_stages outcome [] = Inr ()"
| "run_stages outcome (s # ss) = (case outcome s of Inl e \<Rightarrow> Inl e | Inr _ \<Rightarrow> run_stages outcome ss)"

text \<open>
  \<^verbatim>\<open>connect\<close>: the attempts made, with their delays, and the value the future settles with.
  \<open>outcome\<close> gives the outcome of the stages of each attempt.
\<close>

function bootstrap_connect ::
  "bootstrap \<Rightarrow> string \<Rightarrow> (nat \<Rightarrow> bool) \<Rightarrow> (nat \<Rightarrow> connect_stage \<Rightarrow> unit fut) \<Rightarrow> nat \<Rightarrow> int list \<times> unit fut" where
  "bootstrap_connect cl host has_pipeline outcome reconnectAttempt =
     (let i = min reconnectAttempt (length CLIENT_RECONNECT_DELAYS)
      in if i \<ge> length CLIENT_RECONNECT_DELAYS then ([], Inl out_of_range)
         else
           (let reconnectDelay = CLIENT_RECONNECT_DELAYS ! i
            in case run_stages (outcome reconnectAttempt)
                      (before_connect (has_pipeline reconnectAttempt) reconnectAttempt reconnectDelay) of
                 Inl e \<Rightarrow> ([reconnectDelay], Inl e)
               | Inr _ \<Rightarrow>
                   (case run_stages (outcome reconnectAttempt) (connect_stages cl host) of
                      Inr _ \<Rightarrow> ([reconnectDelay], Inr ())
                    | Inl e \<Rightarrow>
                        (if reconnectAttempt = 0 then ([reconnectDelay], Inl e)
                         else (let (ds, r) = bootstrap_connect cl host has_pipeline outcome (reconnectAttempt + 1)
                               in (reconnectDelay # ds, r))))))"
  by pat_completeness auto

termination
  by (relation "measure (\<lambda>(_, _, _, _, n). length CLIENT_RECONNECT_DELAYS - n)") auto

declare bootstrap_connect.simps [simp del]

section \<open>The pool\<close>

text \<open>
  Besides the queue of idle connections, \<open>writing\<close> are those with a message being written
  and \<open>reconnecting\<close> those being connected again.
\<close>

record conn_pool =
  m_connected :: bool
  m_idleConnections :: "nat list"
  reconnecting :: "nat list"
  writing :: "nat list"

definition new_pool :: conn_pool where
  "new_pool = \<lparr>m_connected = False, m_idleConnections = [], reconnecting = [], writing = []\<rparr>"

text \<open>\<^verbatim>\<open>close\<close> empties the queue; the pipelines it closes are outside the state.\<close>

definition pool_close :: "conn_pool \<Rightarrow> conn_pool" where
  "pool_close p = p\<lparr>m_idleConnections := []\<rparr>"

fun connect_each :: "(nat \<Rightarrow> unit fut) \<Rightarrow> nat list \<Rightarrow> conn_pool \<Rightarrow> unit fut \<times> conn_pool" where
  "connect_each outcome [] p = (Inr (), p\<lparr>m_connected := True\<rparr>)"
| "connect_each outcome (c # cs) p =
     (case outcome c of
        Inl e \<Rightarrow> (Inl e, pool_close p)
      | Inr _ \<Rightarrow> connect_each outcome cs (p\<lparr>m_idleConnections := m_idleConnections p @ [c]\<rparr>))"

definition pool_connect :: "nat \<Rightarrow> (nat \<Rightarrow> unit fut) \<Rightarrow> conn_pool \<Rightarrow> unit fut \<times> conn_pool" where
  "pool_connect connectionsNumber outcome p =
     (if m_connected p then (Inr (), p) else connect_each outcome [0..<connectionsNumber] p)"

definition pool_setHandshake :: "bool \<Rightarrow> unit fut" where
  "pool_setHandshake clprotoHandshake = (if \<not> clprotoHandshake then Inl invalid_argument else Inr ())"

text \<open>
  Where the CA bundle is looked for: \<open>SSL_CERT_FILE\<close> is the environment variable,
  \<open>is_file\<close> what the file system says of a path, \<open>load\<close> whether OpenSSL accepts the file.
\<close>

definition caBundlePossibleLocations :: "string list" where
  "caBundlePossibleLocations =
     [''/etc/ssl/certs/ca-certificates.crt'', ''/etc/ssl/certs/ca-bundle.crt'',
      ''/etc/pki/tls/certs/ca-bundle.crt'', ''/etc/pki/tls/certs/ca-bundle.trust.crt'',
      ''/etc/pki/ca-trust/extracted/pem/tls-ca-bundle.pem'']"

definition setupOpenSSLCABundlePath :: "string option \<Rightarrow> (string \<Rightarrow> bool) \<Rightarrow> (string \<Rightarrow> bool) \<Rightarrow> bool" where
  "setupOpenSSLCABundlePath SSL_CERT_FILE is_file load =
     (case find is_file (case_option [] (\<lambda>p. [p]) SSL_CERT_FILE @ caBundlePossibleLocations) of
        Some p \<Rightarrow> load p
      | None \<Rightarrow> False)"

text \<open>
  The loop of \<^verbatim>\<open>send\<close> that looks for a connected client: the one found, if the queue does not
  run out first, the queue left, and the clients found broken, which are connected again.
\<close>

fun acquire :: "(nat \<Rightarrow> bool) \<Rightarrow> nat list \<Rightarrow> nat option \<times> nat list \<times> nat list" where
  "acquire connected [] = (None, [], [])"
| "acquire connected (c # cs) =
     (if connected c then (Some c, cs, [])
      else (let (r, rest, broken) = acquire connected cs in (r, rest, c # broken)))"

text \<open>
  How a call of \<^verbatim>\<open>send\<close> goes on: its callback is called with an error, it waits for an idle
  connection, or the message is being written.
\<close>

datatype send_result = Callback int | WaitIdle | Written nat

definition pool_send :: "(nat \<Rightarrow> bool) \<Rightarrow> (nat \<Rightarrow> bool) \<Rightarrow> conn_pool \<Rightarrow> send_result \<times> conn_pool" where
  "pool_send connected good p =
     (if \<not> m_connected p then (Callback ECONNABORTED, p)
      else
        (case acquire connected (m_idleConnections p) of
           (r, rest, broken) \<Rightarrow>
             (let p1 = p\<lparr>m_idleConnections := rest, reconnecting := reconnecting p @ broken\<rparr>
              in case r of
                   None \<Rightarrow> (WaitIdle, p1)
                 | Some client \<Rightarrow>
                     (if \<not> good client then (Callback ECONNABORTED, p1)
                      else (Written client, p1\<lparr>writing := client # writing p1\<rparr>)))))"

text \<open>What the continuations do when a write or a connection attempt has ended.\<close>

definition write_done :: "nat \<Rightarrow> conn_pool \<Rightarrow> conn_pool" where
  "write_done c p = p\<lparr>writing := remove1 c (writing p), m_idleConnections := m_idleConnections p @ [c]\<rparr>"

definition write_failed :: "nat \<Rightarrow> conn_pool \<Rightarrow> conn_pool" where
  "write_failed c p = p\<lparr>writing := remove1 c (writing p)\<rparr>"

definition reconnect_done :: "nat \<Rightarrow> conn_pool \<Rightarrow> conn_pool" where
  "reconnect_done c p =
     (let p1 = p\<lparr>reconnecting := remove1 c (reconnecting p)\<rparr>
      in if m_connected p1 then p1\<lparr>m_idleConnections := m_idleConnections p1 @ [c]\<rparr> else p1)"

definition reconnect_failed :: "nat \<Rightarrow> conn_pool \<Rightarrow> conn_pool" where
  "reconnect_failed c p = p\<lparr>reconnecting := remove1 c (reconnecting p)\<rparr>"

definition pool_stop :: "conn_pool \<Rightarrow> conn_pool" where
  "pool_stop p = (if \<not> m_connected p then p else pool_close (p\<lparr>m_connected := False\<rparr>))"

section \<open>Steps of the pool\<close>

inductive pool_step :: "conn_pool \<Rightarrow> conn_pool \<Rightarrow> bool" where
  step_send: "pool_send connected good p = (r, p') \<Longrightarrow> pool_step p p'"
| step_written: "c \<in> set (writing p) \<Longrightarrow> pool_step p (write_done c p)"
| step_write_failed: "c \<in> set (writing p) \<Longrightarrow> pool_step p (write_failed c p)"
| step_reconnected: "c \<in> set (reconnecting p) \<Longrightarrow> pool_step p (reconnect_done c p)"
| step_reconnect_failed: "c \<in> set (reconnecting p) \<Longrightarrow> pool_step p (reconnect_failed c p)"
| step_stop: "pool_step p (pool_stop p)"

text \<open>The connections the pool can still use, now or later.\<close>

definition held :: "conn_pool \<Rightarrow> nat multiset" where
  "held p = mset (m_idleConnections p) + mset (reconnecting p) + mset (writing p)"

lemma acquire_mset:
  "acquire connected cs = (r, rest, broken) \<Longrightarrow>
     mset cs = mset rest + mset broken + (case r of None \<Rightarrow> {#} | Some c \<Rightarrow> {#c#})"
  by (induction cs arbitrary: r rest broken) (auto split: if_split_asm prod.split_asm option.splits)

lemma send_held: "pool_send connected good p = (r, p') \<Longrightarrow> held p' \<subseteq># held p"
  using acquire_mset [of connected "m_idleConnections p"]
  by (cases "acquire connected (m_idleConnections p)")
    (auto simp: pool_send_def held_def Let_def split: if_split_asm option.split_asm)

lemma step_held: "pool_step p p' \<Longrightarrow> held p' \<subseteq># held p"
proof (induction rule: pool_step.induct)
  case (step_send connected good p r p')
  then show ?case by (rule send_held)
qed (auto simp: held_def write_done_def write_failed_def reconnect_done_def reconnect_failed_def
    pool_stop_def pool_close_def Let_def)

lemma steps_held: "pool_step\<^sup>*\<^sup>* p p' \<Longrightarrow> held p' \<subseteq># held p"
  by (induction rule: rtranclp_induct) (auto dest: step_held intro: subset_mset.order_trans)

lemma connect_each_held: "held (snd (connect_each outcome cs p)) \<subseteq># held p + mset cs"
proof (induction cs arbitrary: p)
  case (Cons c cs)
  have "held p + mset (c # cs) = held (p\<lparr>m_idleConnections := m_idleConnections p @ [c]\<rparr>) + mset cs"
    by (simp add: held_def)
  then have "held (snd (connect_each outcome cs (p\<lparr>m_idleConnections := m_idleConnections p @ [c]\<rparr>))) \<subseteq># held p + mset (c # cs)"
    using Cons.IH by metis
  moreover have "held (pool_close p) \<subseteq># held p + mset (c # cs)"
    by (simp add: held_def pool_close_def subset_mset.add_increasing subset_mset.add_increasing2)
  ultimately show ?case by (simp split: sum.split)
qed (simp add: held_def)

lemma held_distinct:
  assumes "held p \<subseteq># mset [0..<n]"
  shows "distinct (m_idleConnections p @ reconnecting p @ writing p)"
    and "set (m_idleConnections p @ reconnecting p @ writing p) \<subseteq> {..<n}"
proof -
  let ?xs = "m_idleConnections p @ reconnecting p @ writing p"
  have m: "mset ?xs \<subseteq># mset [0..<n]" using assms by (simp add: held_def add.assoc)
  then have "count (mset ?xs) c \<le> count (mset [0..<n]) c" for c by (rule mset_subset_eq_count)
  then have "count (mset ?xs) c \<le> 1" for c
    by (metis distinct_upt distinct_count_atmost_1 le_trans le_numeral_extra(4) zero_le_one)
  then show "distinct ?xs" by (metis distinct_count_atmost_1 count_eq_zero_iff le_neq_implies_less less_one set_mset_mset)
  show "set ?xs \<subseteq> {..<n}" using set_mset_mono [OF m] by auto
qed

section \<open>Rejected handshakes\<close>

text \<open>
  The messages a new handshake handler reads: the events it causes, over all of them, and
  the promise \<^verbatim>\<open>done()\<close> gives the future of.
\<close>

fun handshake_reads :: "(bytes \<Rightarrow> int) \<Rightarrow> bytes list \<Rightarrow> unit fut option \<Rightarrow> handshake_event list \<times> unit fut option" where
  "handshake_reads onHandshakeResponse [] promise = ([], promise)"
| "handshake_reads onHandshakeResponse (m # ms) promise =
     (let (_, promise1, ev) = handshake_read onHandshakeResponse m promise;
          (ev', promise2) = handshake_reads onHandshakeResponse ms promise1
      in (ev @ ev', promise2))"

fun report :: "handshake_event \<Rightarrow> unit fut option \<Rightarrow> unit fut option" where
  "report (HandshakeDone ec) promise = onHandshakeDone ec promise"
| "report (FireRead _) promise = promise"

lemma handshake_reads_after:
  "fold report (fst (handshake_reads f ms (Some r))) x = x \<and> snd (handshake_reads f ms (Some r)) = Some r"
  by (induction ms) (auto simp: handshake_read_def case_prod_beta Let_def)

section \<open>Properties\<close>

text \<open>
  C26. A connection is never handed out twice: after \<^verbatim>\<open>connect\<close>, through any sequence of
  sends, finished and failed writes, finished and failed reconnections and stops, the idle,
  the reconnecting and the writing connections are all different, and connections of the
  pool.
\<close>

theorem pool_exclusive:
  assumes "pool_step\<^sup>*\<^sup>* (snd (pool_connect n outcome new_pool)) p"
  shows "distinct (m_idleConnections p @ reconnecting p @ writing p) \<and>
    set (m_idleConnections p @ reconnecting p @ writing p) \<subseteq> {..<n}"
proof -
  have "held (snd (pool_connect n outcome new_pool)) \<subseteq># mset [0..<n]"
    using connect_each_held [of outcome "[0..<n]" new_pool] by (simp add: pool_connect_def held_def new_pool_def)
  then have "held p \<subseteq># mset [0..<n]" using steps_held [OF assms] by (rule subset_mset.order_trans [rotated])
  then show ?thesis using held_distinct by blast
qed

abbreviation (input) pool_of_two :: conn_pool where
  "pool_of_two \<equiv> \<lparr>m_connected = True, m_idleConnections = [0, 1], reconnecting = [], writing = []\<rparr>"

abbreviation (input) pool_writing :: conn_pool where
  "pool_writing \<equiv> \<lparr>m_connected = True, m_idleConnections = [], reconnecting = [0], writing = [1]\<rparr>"

lemma pool_of_two_writes: "pool_step pool_of_two pool_writing"
  by (rule step_send [where connected = "\<lambda>c. c = 1" and good = "\<lambda>_. True" and r = "Written 1"]) (simp add: pool_send_def)

theorem pool_exclusive_witness: "distinct (m_idleConnections pool_writing @ reconnecting pool_writing @ writing pool_writing)"
proof -
  have "snd (pool_connect 2 (\<lambda>_. Inr ()) new_pool) = pool_of_two"
    by (simp add: pool_connect_def new_pool_def upt_rec)
  then have "pool_step\<^sup>*\<^sup>* (snd (pool_connect 2 (\<lambda>_. Inr ()) new_pool)) pool_writing"
    using pool_of_two_writes by (simp only: r_into_rtranclp)
  then show ?thesis using pool_exclusive by blast
qed


abbreviation (input) pool_lost :: conn_pool where
  "pool_lost \<equiv> \<lparr>m_connected = True, m_idleConnections = [], reconnecting = [], writing = []\<rparr>"


text \<open>
  C28. Connecting never retries for ever. The first attempt is the only one; an attempt
  numbered from 1 is followed, as long as the socket cannot be connected, by the attempts up
  to number 12, each with its delay, and then ends with \<^verbatim>\<open>std::out_of_range\<close>, because the
  index into the table of delays is bounded by its size instead of its last index.
\<close>

theorem reconnect_runs_out:
  assumes "\<And>a d. outcome a ClosePipeline = Inr () \<and> outcome a (Delay d) = Inr () \<and> outcome a Resolve = Inr ()"
    and "\<And>a. run_stages (outcome a) (connect_stages cl host) = Inl e"
  shows "bootstrap_connect cl host has_pipeline outcome n =
    (if n = 0 then ([0], Inl e) else (drop n CLIENT_RECONNECT_DELAYS, Inl out_of_range))"
proof (induction "length CLIENT_RECONNECT_DELAYS - n" arbitrary: n)
  case 0
  then show ?case by (subst bootstrap_connect.simps) (auto simp: CLIENT_RECONNECT_DELAYS_def)
next
  case (Suc k)
  then have n: "n < length CLIENT_RECONNECT_DELAYS" by simp
  have "run_stages (outcome n) (before_connect (has_pipeline n) n d) = Inr ()" for d
    using assms(1) by (simp add: before_connect_def)
  moreover have "bootstrap_connect cl host has_pipeline outcome (n + 1) =
      (drop (n + 1) CLIENT_RECONNECT_DELAYS, Inl out_of_range)"
    using Suc by simp
  moreover have "CLIENT_RECONNECT_DELAYS ! 0 = 0" by (simp add: CLIENT_RECONNECT_DELAYS_def)
  ultimately show ?case using n assms(2)
    by (subst bootstrap_connect.simps) (simp add: Let_def Cons_nth_drop_Suc)
qed

theorem reconnect_runs_out_witness:
  "snd (bootstrap_connect \<lparr>m_performCLProtoUpgrade = True, m_performCLProtoHandshake = True\<rparr> ''host'' (\<lambda>_. True)
     (\<lambda>_ s. if s = TcpConnect then Inl (system_error ETIMEDOUT) else Inr ()) 11) = Inl out_of_range"
  using reconnect_runs_out [of "\<lambda>_ s. if s = TcpConnect then Inl (system_error ETIMEDOUT) else Inr ()"
      "\<lparr>m_performCLProtoUpgrade = True, m_performCLProtoHandshake = True\<rparr>" "''host''" "system_error ETIMEDOUT" _ 11]
  by (simp add: connect_stages_def)



end
