(* ===== verification/TaskScheduler.thy ===== *)
theory TaskScheduler
  imports Prelude "HOL-Library.Multiset"
begin

text \<open>
  \<^verbatim>\<open>src/src/scheduler.h\<close> and \<^verbatim>\<open>scheduler.cc\<close>: tasks that run now or after some time on a pool of
  workers. A task is a function of the state \<open>'s\<close> of the program. The event loop runs queued handlers
  one at a time; timers expire at any time.
\<close>

section \<open>State and operations\<close>

text \<open>A handler in the queue: a posted task, or the end of a wait, with success or cancelled.\<close>

datatype 's handler =
    Posted "'s \<Rightarrow> 's"
  | Fired nat "'s \<Rightarrow> 's"
  | Aborted nat

text \<open>\<open>executed\<close> and \<open>aborted\<close> are the timers whose handler ran, with success and cancelled.\<close>

record 's scheduler_state =
  m_threadNumber :: nat
  m_workers :: nat
  io_stopped :: bool
  io_queue :: "'s handler list"
  armed :: "(nat \<times> ('s \<Rightarrow> 's)) list"
  next_timer :: nat
  executed :: "nat list"
  aborted :: "nat list"
  program :: 's

definition start_workers :: "'s scheduler_state \<Rightarrow> 's scheduler_state" where
  "start_workers s = s\<lparr>io_stopped := False, m_workers := m_workers s + m_threadNumber s\<rparr>"

definition stop_workers :: "'s scheduler_state \<Rightarrow> 's scheduler_state" where
  "stop_workers s = s\<lparr>io_stopped := True, m_workers := 0\<rparr>"

definition new_scheduler_state :: "nat \<Rightarrow> 's \<Rightarrow> 's scheduler_state" where
  "new_scheduler_state threadNumber p = start_workers
     \<lparr>m_threadNumber = threadNumber, m_workers = 0, io_stopped = False, io_queue = [], armed = [], next_timer = 0,
      executed = [], aborted = [], program = p\<rparr>"

definition post :: "('s \<Rightarrow> 's) \<Rightarrow> 's scheduler_state \<Rightarrow> 's scheduler_state" where
  "post task s = s\<lparr>io_queue := io_queue s @ [Posted task]\<rparr>"

text \<open>A task on an object referenced by a pointer that does not own it: \<open>alive\<close> says whether the object is there.\<close>

definition on_subject :: "('s \<Rightarrow> bool) \<Rightarrow> ('s \<Rightarrow> 's) \<Rightarrow> 's \<Rightarrow> 's" where
  "on_subject alive task p = (if alive p then task p else p)"

definition post_member :: "('s \<Rightarrow> 's) \<Rightarrow> ('s \<Rightarrow> bool) \<Rightarrow> 's scheduler_state \<Rightarrow> 's scheduler_state" where
  "post_member member alive s = post (on_subject alive member) s"

definition schedule_task :: "('s \<Rightarrow> 's) \<Rightarrow> 's scheduler_state \<Rightarrow> nat \<times> 's scheduler_state" where
  "schedule_task task s =
     (next_timer s, s\<lparr>armed := armed s @ [(next_timer s, task)], next_timer := next_timer s + 1\<rparr>)"

definition schedule_member :: "('s \<Rightarrow> 's) \<Rightarrow> ('s \<Rightarrow> bool) \<Rightarrow> 's scheduler_state \<Rightarrow> nat \<times> 's scheduler_state" where
  "schedule_member member alive s = schedule_task (on_subject alive member) s"

text \<open>The function returned by \<open>schedule\<close>: it only reaches a timer that still waits.\<close>

definition cancel_task :: "nat \<Rightarrow> 's scheduler_state \<Rightarrow> 's scheduler_state" where
  "cancel_task i s =
     (if i \<in> fst ` set (armed s)
      then s\<lparr>armed := filter (\<lambda>t. fst t \<noteq> i) (armed s), io_queue := io_queue s @ [Aborted i]\<rparr> else s)"

text \<open>A timer expires, and a worker runs the first handler.\<close>

definition expire :: "nat \<Rightarrow> 's scheduler_state \<Rightarrow> 's scheduler_state" where
  "expire i s =
     (case map_of (armed s) i of
        None \<Rightarrow> s
      | Some task \<Rightarrow> s\<lparr>armed := filter (\<lambda>t. fst t \<noteq> i) (armed s), io_queue := io_queue s @ [Fired i task]\<rparr>)"

definition run_handler :: "'s scheduler_state \<Rightarrow> 's scheduler_state" where
  "run_handler s =
     (if io_stopped s \<or> m_workers s = 0 then s
      else (case io_queue s of
              [] \<Rightarrow> s
            | Posted task # q \<Rightarrow> s\<lparr>io_queue := q, program := task (program s)\<rparr>
            | Fired i task # q \<Rightarrow> s\<lparr>io_queue := q, executed := executed s @ [i], program := task (program s)\<rparr>
            | Aborted i # q \<Rightarrow> s\<lparr>io_queue := q, aborted := aborted s @ [i]\<rparr>))"

text \<open>Before and after a fork; what is queued stays queued.\<close>

definition prepareForDaemonize :: "'s scheduler_state \<Rightarrow> 's scheduler_state" where
  "prepareForDaemonize s = stop_workers s"

definition restartAfterDaemonize :: "'s scheduler_state \<Rightarrow> 's scheduler_state" where
  "restartAfterDaemonize s = start_workers s"

section \<open>Runs\<close>

inductive task_step :: "'s scheduler_state \<Rightarrow> 's scheduler_state \<Rightarrow> bool" where
  posts: "task_step s (post task s)"
| posts_member: "task_step s (post_member task alive s)"
| schedules: "task_step s (snd (schedule_task task s))"
| schedules_member: "task_step s (snd (schedule_member task alive s))"
| cancels: "task_step s (cancel_task i s)"
| expires: "task_step s (expire i s)"
| runs: "task_step s (run_handler s)"
| stops: "task_step s (prepareForDaemonize s)"
| starts: "task_step s (restartAfterDaemonize s)"

inductive task_run :: "'s scheduler_state \<Rightarrow> 's scheduler_state \<Rightarrow> bool" for s where
  here: "task_run s s"
| there: "task_run s s1 \<Longrightarrow> task_step s1 s2 \<Longrightarrow> task_run s s2"

fun timer_of :: "'s handler \<Rightarrow> nat list" where
  "timer_of (Posted _) = []"
| "timer_of (Fired i _) = [i]"
| "timer_of (Aborted i) = [i]"

definition places :: "'s scheduler_state \<Rightarrow> nat list" where
  "places s = map fst (armed s) @ concat (map timer_of (io_queue s)) @ executed s @ aborted s"

definition timers_ok :: "'s scheduler_state \<Rightarrow> bool" where
  "timers_ok s \<longleftrightarrow> mset (places s) = mset [0..<next_timer s]"

lemma timers_distinct: "timers_ok s \<Longrightarrow> distinct (places s)"
  by (metis timers_ok_def mset_eq_imp_distinct_iff distinct_upt)

lemma armed_taken:
  assumes "distinct (map fst xs)" and "(i, task) \<in> set xs"
  shows "mset (map fst xs) = add_mset i (mset (map fst (filter (\<lambda>t. fst t \<noteq> i) xs)))"
  using assms
proof (induction xs)
  case (Cons x xs)
  show ?case
  proof (cases "fst x = i")
    case True
    then have "filter (\<lambda>t. fst t \<noteq> i) xs = xs" using Cons.prems(1) by (auto simp: filter_id_conv image_iff)
    then show ?thesis using True by simp
  next
    case False
    then show ?thesis using Cons by auto
  qed
qed simp

lemma task_step_timers:
  assumes "task_step s s'" and "timers_ok s"
  shows "timers_ok s'"
proof -
  have d: "distinct (map fst (armed s))" using timers_distinct [OF assms(2)] by (simp add: places_def)
  have sched: "timers_ok (snd (schedule_task task s))" for task
    using assms(2) by (simp add: timers_ok_def places_def schedule_task_def)
  have exp: "timers_ok (expire i s)" for i
  proof (cases "map_of (armed s) i")
    case (Some task)
    then show ?thesis using armed_taken [OF d map_of_SomeD [OF Some]] assms(2)
      by (simp add: timers_ok_def places_def expire_def)
  qed (use assms(2) in \<open>simp add: expire_def\<close>)
  have can: "timers_ok (cancel_task i s)" for i
  proof (cases "i \<in> fst ` set (armed s)")
    case True
    then obtain task where "(i, task) \<in> set (armed s)" by auto
    from armed_taken [OF d this] show ?thesis using assms(2) True by (simp add: timers_ok_def places_def cancel_task_def)
  qed (use assms(2) in \<open>simp add: cancel_task_def\<close>)
  have run: "timers_ok (run_handler s)"
    using assms(2) by (auto simp: timers_ok_def places_def run_handler_def split: list.split handler.split)
  show ?thesis using assms(1)
    by cases (use assms(2) sched exp can run in \<open>auto simp: post_def post_member_def schedule_member_def prepareForDaemonize_def
      restartAfterDaemonize_def stop_workers_def start_workers_def timers_ok_def places_def\<close>)
qed

text \<open>
  However tasks are posted, scheduled and cancelled, a timer is at each moment in one place: it waits,
  its handler is queued, its task was run, or it was cancelled. So no task of a timer runs twice.
\<close>

lemma timers_conserved:
  assumes "task_run (new_scheduler_state n p) s"
  shows "timers_ok s"
  using assms
proof (induction s)
  case here
  then show ?case by (simp add: timers_ok_def places_def new_scheduler_state_def start_workers_def)
next
  case (there s1 s2)
  then show ?case using task_step_timers by blast
qed

lemma executed_once: "timers_ok s \<Longrightarrow> distinct (executed s) \<and> set (executed s) \<inter> set (aborted s) = {}"
  using timers_distinct [of s] by (auto simp: places_def)

text \<open>A task cancelled while its timer waits is never run; once the timer expired, cancelling comes too late.\<close>

definition cancelled :: "nat \<Rightarrow> 's scheduler_state \<Rightarrow> bool" where
  "cancelled i s \<longleftrightarrow> Aborted i \<in> set (io_queue s) \<or> i \<in> set (aborted s)"

lemma cancelled_step:
  assumes "task_step s s'" and "cancelled i s"
  shows "cancelled i s'"
  using assms by cases
    (auto simp: cancelled_def post_def post_member_def schedule_member_def schedule_task_def cancel_task_def expire_def
      run_handler_def prepareForDaemonize_def restartAfterDaemonize_def stop_workers_def start_workers_def
      split: list.split handler.split option.split)

lemma cancelled_never_runs:
  assumes "timers_ok s" and "i \<in> fst ` set (armed s)" and "task_run (cancel_task i s) s'"
  shows "i \<notin> set (executed s')"
proof -
  have "task_step s (cancel_task i s)" by (rule task_step.cancels)
  then have ok: "timers_ok (cancel_task i s)" using assms(1) by (rule task_step_timers)
  have "cancelled i (cancel_task i s)" using assms(2) by (simp add: cancelled_def cancel_task_def)
  with assms(3) ok have "cancelled i s' \<and> timers_ok s'"
    by (induction s') (auto intro: cancelled_step task_step_timers)
  then have "distinct (places s')" "i \<in> set (concat (map timer_of (io_queue s'))) \<or> i \<in> set (aborted s')"
    by (auto simp: timers_distinct cancelled_def intro: bexI [of _ "Aborted i"])
  then show ?thesis by (auto simp: places_def)
qed

lemma late_cancel: "i \<notin> fst ` set (armed s) \<Longrightarrow> cancel_task i s = s"
  by (simp add: cancel_task_def)

end
