(* ===== verification/FlatOp.thy ===== *)
theory FlatOp
  imports Prelude
begin

text \<open>
  \<^verbatim>\<open>src/src/flatOpScheduler.h\<close>: operations scheduled by any thread, run one after the other
  by a drain task on the executor. The lock regions of \<^verbatim>\<open>schedule\<close> and \<^verbatim>\<open>drainQueue\<close> are the
  steps; threads interleave between them. \<open>throws\<close> says for which operations the visitor
  lets an exception escape.
\<close>

section \<open>Model\<close>

text \<open>A drain task: waiting in the executor, at the head of its loop, or at an operation of the batch.\<close>

datatype drain_phase = Posted | AtLoop | InBatch nat

text \<open>\<open>drains\<close> are the drain tasks; \<open>scheduled\<close> and \<open>executed\<close> log the operations.\<close>

record 'op scheduler =
  m_filledQueue :: "'op list"
  m_usedQueue :: "'op list"
  m_drainInProgress :: bool
  drains :: "drain_phase list"
  scheduled :: "'op list"
  executed :: "'op list"

definition new_scheduler :: "'op scheduler" where
  "new_scheduler =
     \<lparr>m_filledQueue = [], m_usedQueue = [], m_drainInProgress = False, drains = [], scheduled = [], executed = []\<rparr>"

definition schedule :: "'op \<Rightarrow> 'op scheduler \<Rightarrow> 'op scheduler" where
  "schedule op s =
     (let shouldIDrain = (\<not> m_drainInProgress s)
      in s\<lparr>m_filledQueue := m_filledQueue s @ [op], m_drainInProgress := True,
           scheduled := scheduled s @ [op],
           drains := (if shouldIDrain then drains s @ [Posted] else drains s)\<rparr>)"

definition remove_nth :: "nat \<Rightarrow> 'a list \<Rightarrow> 'a list" where
  "remove_nth i xs = take i xs @ drop (Suc i) xs"

text \<open>
  A step of the drain task \<open>i\<close>; \<open>None\<close> is the failing assertion. An escaping exception ends
  the task where it is.
\<close>

definition drainQueue_step :: "('op \<Rightarrow> bool) \<Rightarrow> nat \<Rightarrow> 'op scheduler \<Rightarrow> 'op scheduler option" where
  "drainQueue_step throws i s =
     (case drains s ! i of
        Posted \<Rightarrow> Some (s\<lparr>drains := (drains s)[i := AtLoop]\<rparr>)
      | AtLoop \<Rightarrow>
          (if m_usedQueue s \<noteq> [] then None
           else if m_filledQueue s = []
           then Some (s\<lparr>m_drainInProgress := False, drains := remove_nth i (drains s)\<rparr>)
           else Some (s\<lparr>m_usedQueue := m_filledQueue s, m_filledQueue := [], drains := (drains s)[i := InBatch 0]\<rparr>))
      | InBatch k \<Rightarrow>
          (if k < length (m_usedQueue s)
           then (let op = m_usedQueue s ! k; s1 = s\<lparr>executed := executed s @ [op]\<rparr>
                 in if throws op then Some (s1\<lparr>drains := remove_nth i (drains s)\<rparr>)
                    else Some (s1\<lparr>drains := (drains s)[i := InBatch (Suc k)]\<rparr>))
           else Some (s\<lparr>m_usedQueue := [], drains := (drains s)[i := AtLoop]\<rparr>)))"

inductive drain_step :: "('op \<Rightarrow> bool) \<Rightarrow> 'op scheduler \<Rightarrow> 'op scheduler \<Rightarrow> bool" for throws where
  "i < length (drains s) \<Longrightarrow> drainQueue_step throws i s = Some s' \<Longrightarrow> drain_step throws s s'"

inductive reaches :: "('op \<Rightarrow> bool) \<Rightarrow> 'op scheduler \<Rightarrow> bool" for throws where
  reaches_new: "reaches throws new_scheduler"
| reaches_schedule: "reaches throws s \<Longrightarrow> reaches throws (schedule op s)"
| reaches_drain: "reaches throws s \<Longrightarrow> drain_step throws s s' \<Longrightarrow> reaches throws s'"

inductive_cases drain_stepE: "drain_step throws s s'"

section \<open>Invariant\<close>

text \<open>
  Idle, draining (at the loop or in a batch), or stopped by an exception.
\<close>

definition clean :: "('op \<Rightarrow> bool) \<Rightarrow> 'op scheduler \<Rightarrow> bool" where
  "clean throws s \<longleftrightarrow> (\<forall>op \<in> set (executed s). \<not> throws op)"

definition idle :: "('op \<Rightarrow> bool) \<Rightarrow> 'op scheduler \<Rightarrow> bool" where
  "idle throws s \<longleftrightarrow> clean throws s \<and> drains s = [] \<and> \<not> m_drainInProgress s \<and> m_usedQueue s = [] \<and> m_filledQueue s = [] \<and>
     executed s = scheduled s"

definition at_loop :: "('op \<Rightarrow> bool) \<Rightarrow> 'op scheduler \<Rightarrow> bool" where
  "at_loop throws s \<longleftrightarrow> clean throws s \<and> (drains s = [Posted] \<or> drains s = [AtLoop]) \<and> m_drainInProgress s \<and> m_usedQueue s = [] \<and>
     scheduled s = executed s @ m_filledQueue s"

definition in_batch :: "('op \<Rightarrow> bool) \<Rightarrow> 'op scheduler \<Rightarrow> bool" where
  "in_batch throws s \<longleftrightarrow> clean throws s \<and> m_drainInProgress s \<and> (\<exists>k. drains s = [InBatch k] \<and> k \<le> length (m_usedQueue s) \<and>
     scheduled s = executed s @ drop k (m_usedQueue s) @ m_filledQueue s)"

definition stopped :: "('op \<Rightarrow> bool) \<Rightarrow> 'op scheduler \<Rightarrow> bool" where
  "stopped throws s \<longleftrightarrow> drains s = [] \<and> m_drainInProgress s \<and> executed s \<noteq> [] \<and> throws (last (executed s)) \<and>
     (\<exists>rest. scheduled s = executed s @ rest)"

definition sched_inv :: "('op \<Rightarrow> bool) \<Rightarrow> 'op scheduler \<Rightarrow> bool" where
  "sched_inv throws s \<longleftrightarrow> idle throws s \<or> at_loop throws s \<or> in_batch throws s \<or> stopped throws s"

lemmas sched_defs = sched_inv_def clean_def idle_def at_loop_def in_batch_def stopped_def

lemma schedule_inv: "sched_inv throws s \<Longrightarrow> sched_inv throws (schedule op s)"
  by (auto simp: sched_defs schedule_def Let_def)

lemma single_drain: "drains s = [d] \<Longrightarrow> drain_step throws s s' \<longleftrightarrow> drainQueue_step throws 0 s = Some s'"
  by (auto elim: drain_stepE intro: drain_step.intros [of 0])

lemma posted_step:
  assumes "drains s = [Posted]"
  shows "drainQueue_step throws 0 s = Some (s\<lparr>drains := [AtLoop]\<rparr>)"
  using assms by (simp add: drainQueue_step_def)

lemma loop_step:
  assumes "drains s = [AtLoop]" and "m_usedQueue s = []"
  shows "drainQueue_step throws 0 s =
    Some (if m_filledQueue s = [] then s\<lparr>m_drainInProgress := False, drains := []\<rparr>
          else s\<lparr>m_usedQueue := m_filledQueue s, m_filledQueue := [], drains := [InBatch 0]\<rparr>)"
  using assms by (simp add: drainQueue_step_def remove_nth_def)

lemma batch_step:
  assumes "drains s = [InBatch k]"
  shows "drainQueue_step throws 0 s =
    Some (if k < length (m_usedQueue s)
          then s\<lparr>executed := executed s @ [m_usedQueue s ! k],
                 drains := (if throws (m_usedQueue s ! k) then [] else [InBatch (Suc k)])\<rparr>
          else s\<lparr>m_usedQueue := [], drains := [AtLoop]\<rparr>)"
  using assms by (simp add: drainQueue_step_def remove_nth_def Let_def)

lemma at_loop_step:
  assumes "at_loop throws s" and "drain_step throws s s'"
  shows "sched_inv throws s'"
proof (cases "drains s = [Posted]")
  case True
  then have "s' = s\<lparr>drains := [AtLoop]\<rparr>" using assms(2) by (simp add: single_drain posted_step)
  then have "at_loop throws s'" using assms(1) by (simp add: at_loop_def clean_def)
  then show ?thesis by (simp add: sched_inv_def)
next
  case False
  then have d: "drains s = [AtLoop]" "m_usedQueue s = []" using assms(1) by (auto simp: at_loop_def)
  show ?thesis
  proof (cases "m_filledQueue s = []")
    case True
    then have "s' = s\<lparr>m_drainInProgress := False, drains := []\<rparr>" using assms(2) d by (simp add: single_drain loop_step)
    then have "idle throws s'" using assms(1) True by (simp add: at_loop_def idle_def clean_def)
    then show ?thesis by (simp add: sched_inv_def)
  next
    case False
    then have "s' = s\<lparr>m_usedQueue := m_filledQueue s, m_filledQueue := [], drains := [InBatch 0]\<rparr>"
      using assms(2) d by (simp add: single_drain loop_step)
    then have "in_batch throws s'" using assms(1) by (simp add: at_loop_def in_batch_def clean_def)
    then show ?thesis by (simp add: sched_inv_def)
  qed
qed

lemma in_batch_step:
  assumes "in_batch throws s" and "drain_step throws s s'"
  shows "sched_inv throws s'"
proof -
  from assms(1) obtain k where c: "clean throws s" and k: "m_drainInProgress s" "drains s = [InBatch k]" "k \<le> length (m_usedQueue s)"
    "scheduled s = executed s @ drop k (m_usedQueue s) @ m_filledQueue s" unfolding in_batch_def by blast
  let ?op = "m_usedQueue s ! k"
  consider "k = length (m_usedQueue s)" | "k < length (m_usedQueue s)" "throws ?op"
    | "k < length (m_usedQueue s)" "\<not> throws ?op" using k(3) by linarith
  then show ?thesis
  proof cases
    case 1
    then have "s' = s\<lparr>m_usedQueue := [], drains := [AtLoop]\<rparr>" using assms(2) k(2) by (simp add: single_drain batch_step)
    then have "at_loop throws s'" using c k(1,4) 1 by (simp add: at_loop_def clean_def)
    then show ?thesis by (simp add: sched_inv_def)
  next
    case 2
    then have "s' = s\<lparr>executed := executed s @ [?op], drains := []\<rparr>" using assms(2) k(2) by (simp add: single_drain batch_step)
    then have "stopped throws s'" using k(1,4) 2 by (simp add: stopped_def Cons_nth_drop_Suc [symmetric])
    then show ?thesis by (simp add: sched_inv_def)
  next
    case 3
    then have "s' = s\<lparr>executed := executed s @ [?op], drains := [InBatch (Suc k)]\<rparr>"
      using assms(2) k(2) by (simp add: single_drain batch_step)
    then have "in_batch throws s'" using c k(1,4) 3 by (simp add: in_batch_def clean_def Cons_nth_drop_Suc [symmetric])
    then show ?thesis by (simp add: sched_inv_def)
  qed
qed

lemma reaches_inv: "reaches throws s \<Longrightarrow> sched_inv throws s"
proof (induction rule: reaches.induct)
  case reaches_new
  then show ?case by (simp add: sched_defs new_scheduler_def)
next
  case (reaches_schedule s op)
  then show ?case by (intro schedule_inv)
next
  case (reaches_drain s s')
  have "drains s \<noteq> []" using reaches_drain.hyps(2) by (auto elim: drain_stepE)
  then have "at_loop throws s \<or> in_batch throws s" using reaches_drain.IH by (auto simp: sched_inv_def idle_def stopped_def)
  then show ?case using at_loop_step in_batch_step reaches_drain.hyps(2) by blast
qed

section \<open>Draining\<close>

text \<open>What is left to do for the drain task.\<close>

fun phase_left :: "'op scheduler \<Rightarrow> drain_phase \<Rightarrow> nat" where
  "phase_left s Posted = 2"
| "phase_left s AtLoop = 1"
| "phase_left s (InBatch k) = 2 + (length (m_usedQueue s) - k)"

definition work_left :: "'op scheduler \<Rightarrow> nat" where
  "work_left s = 3 * length (m_filledQueue s) + sum_list (map (phase_left s) (drains s))"

lemma drain_progress:
  assumes "at_loop throws s \<or> in_batch throws s" and "\<forall>op \<in> set (scheduled s). \<not> throws op"
  shows "\<exists>s'. drain_step throws s s' \<and> work_left s' < work_left s \<and> scheduled s' = scheduled s \<and> \<not> stopped throws s'"
proof -
  consider "drains s = [Posted]" | "drains s = [AtLoop]" "m_usedQueue s = []"
    | k where "drains s = [InBatch k]" "scheduled s = executed s @ drop k (m_usedQueue s) @ m_filledQueue s"
    using assms(1) unfolding at_loop_def in_batch_def by blast
  then show ?thesis
  proof cases
    case 1
    then show ?thesis
      by (intro exI [of _ "s\<lparr>drains := [AtLoop]\<rparr>"]) (simp add: single_drain posted_step work_left_def stopped_def)
  next
    case 2
    then show ?thesis
      by (cases "m_filledQueue s") (auto simp: single_drain loop_step work_left_def stopped_def)
  next
    case (3 k)
    have "\<not> throws (m_usedQueue s ! k)" if "k < length (m_usedQueue s)"
      using assms(2) that by (simp add: 3(2) Cons_nth_drop_Suc [symmetric])
    then show ?thesis using 3(1)
      by (cases "k < length (m_usedQueue s)") (simp_all add: single_drain batch_step work_left_def stopped_def)
  qed
qed

lemma drains_all:
  assumes "sched_inv throws s" and "\<not> stopped throws s" and "\<forall>op \<in> set (scheduled s). \<not> throws op"
  shows "\<exists>s'. (drain_step throws)\<^sup>*\<^sup>* s s' \<and> idle throws s' \<and> scheduled s' = scheduled s"
  using assms
proof (induction "work_left s" arbitrary: s rule: less_induct)
  case less
  show ?case
  proof (cases "idle throws s")
    case False
    then have "at_loop throws s \<or> in_batch throws s" using less.prems(1,2) by (auto simp: sched_inv_def)
    from drain_progress [OF this less.prems(3)] obtain s1 where
      s1: "drain_step throws s s1" "work_left s1 < work_left s" "scheduled s1 = scheduled s" "\<not> stopped throws s1" by blast
    have "sched_inv throws s1"
      using \<open>at_loop throws s \<or> in_batch throws s\<close> at_loop_step in_batch_step s1(1) by blast
    then obtain s' where "(drain_step throws)\<^sup>*\<^sup>* s1 s'" "idle throws s'" "scheduled s' = scheduled s1"
      using less.hyps [OF s1(2)] s1(3,4) less.prems(3) by auto
    then show ?thesis using s1(1,3) by (metis converse_rtranclp_into_rtranclp)
  qed blast
qed

section \<open>Properties\<close>

text \<open>The steps of all threads.\<close>

inductive sched_step :: "('op \<Rightarrow> bool) \<Rightarrow> 'op scheduler \<Rightarrow> 'op scheduler \<Rightarrow> bool" for throws where
  step_schedule: "sched_step throws s (schedule op s)"
| step_drain: "drain_step throws s s' \<Longrightarrow> sched_step throws s s'"

lemma stopped_step:
  assumes "stopped throws s" and "sched_step throws s s'"
  shows "stopped throws s' \<and> executed s' = executed s"
  using assms(2,1) by cases (auto simp: stopped_def schedule_def Let_def elim: drain_stepE)

lemma stopped_steps:
  "(sched_step throws)\<^sup>*\<^sup>* s s' \<Longrightarrow> stopped throws s \<Longrightarrow> stopped throws s' \<and> executed s' = executed s"
  by (induction rule: rtranclp_induct) (auto dest: stopped_step)

lemma escaped_stops:
  assumes "reaches throws s" and "\<exists>op \<in> set (executed s). throws op" and "(sched_step throws)\<^sup>*\<^sup>* s s'"
  shows "executed s' = executed s"
proof -
  have "stopped throws s"
    using reaches_inv [OF assms(1)] assms(2) by (auto simp: sched_inv_def idle_def at_loop_def in_batch_def clean_def)
  then show ?thesis using stopped_steps [OF assms(3)] by blast
qed

text \<open>
  C30. However threads schedule operations while others are run, at most one drain task
  exists at a time, the operations run are exactly the first ones scheduled, in the order
  they were scheduled and each once, and without a drain task either all have been run or
  the last one run let an exception escape.
\<close>

theorem scheduler_in_order:
  assumes "reaches throws s"
  shows "length (drains s) \<le> 1 \<and> (\<exists>rest. scheduled s = executed s @ rest) \<and>
    (drains s = [] \<longrightarrow> executed s = scheduled s \<or> executed s \<noteq> [] \<and> throws (last (executed s)))"
  using reaches_inv [OF assms] by (auto simp: sched_inv_def idle_def at_loop_def in_batch_def stopped_def)

abbreviation (input) one_run :: "nat scheduler" where
  "one_run \<equiv> \<lparr>m_filledQueue = [8], m_usedQueue = [7], m_drainInProgress = True, drains = [InBatch 1],
             scheduled = [7, 8], executed = [7]\<rparr>"

lemma one_run_reached: "reaches (\<lambda>_. False) one_run"
proof -
  let ?s1 = "schedule 7 new_scheduler :: nat scheduler"
  let ?s2 = "?s1\<lparr>drains := [AtLoop]\<rparr>"
  let ?s3 = "?s2\<lparr>m_usedQueue := [7], m_filledQueue := [], drains := [InBatch 0]\<rparr>"
  have d: "drains ?s1 = [Posted]" by (simp add: schedule_def new_scheduler_def)
  have 1: "reaches (\<lambda>_. False) ?s1" by (intro reaches.intros)
  have "drain_step (\<lambda>_. False) ?s1 ?s2" by (simp add: single_drain [OF d] posted_step [OF d])
  moreover have "drain_step (\<lambda>_. False) ?s2 ?s3" "drain_step (\<lambda>_. False) (schedule 8 ?s3) one_run"
    by (simp_all add: single_drain loop_step batch_step schedule_def new_scheduler_def)
  ultimately show ?thesis using 1 by (blast intro: reaches_drain reaches_schedule)
qed

theorem scheduler_in_order_witness: "\<exists>rest. scheduled one_run = executed one_run @ rest"
  using scheduler_in_order [OF one_run_reached] by blast

text \<open>
  C31. When no operation lets an exception escape, nothing scheduled is forgotten: from
  every state reached, the drain task alone gets to the state in which everything scheduled
  has been run, and it ends there. After an operation let an exception escape, no
  operation is ever run again.
\<close>

theorem scheduler_completes:
  assumes "reaches throws s"
  shows "((\<forall>op \<in> set (scheduled s). \<not> throws op) \<longrightarrow>
      (\<exists>s'. (drain_step throws)\<^sup>*\<^sup>* s s' \<and> executed s' = scheduled s \<and> drains s' = [] \<and> \<not> m_drainInProgress s')) \<and>
    ((\<exists>op \<in> set (executed s). throws op) \<longrightarrow> (\<forall>s'. (sched_step throws)\<^sup>*\<^sup>* s s' \<longrightarrow> executed s' = executed s))"
proof (intro conjI impI)
  assume ok: "\<forall>op \<in> set (scheduled s). \<not> throws op"
  have "\<not> stopped throws s"
  proof
    assume "stopped throws s"
    then obtain rest where "scheduled s = executed s @ rest" "executed s \<noteq> []" "throws (last (executed s))"
      unfolding stopped_def by blast
    then show False using ok by simp
  qed
  then show "\<exists>s'. (drain_step throws)\<^sup>*\<^sup>* s s' \<and> executed s' = scheduled s \<and> drains s' = [] \<and> \<not> m_drainInProgress s'"
    using drains_all [OF reaches_inv [OF assms] _ ok] unfolding idle_def by metis
qed (use escaped_stops [OF assms] in blast)

theorem scheduler_completes_witness:
  "\<exists>s'. (drain_step (\<lambda>_. False))\<^sup>*\<^sup>* one_run s' \<and> executed s' = [7, 8]"
  using scheduler_completes [OF one_run_reached] by auto

end
