(* ===== verification/NullDevice.thy ===== *)
theory NullDevice
  imports Complex_Main StorageBase FlatOp
begin

text \<open>
  \<^verbatim>\<open>src/src/nullDeviceHelper.cc\<close>: a storage that accepts everything, with simulated
  timeouts and an optional simulated file system. Whether the random generator asks for a
  timeout is the parameter \<open>draw\<close> of each operation; latencies only sleep. Times are seconds,
  the quotients by the grow speed are the reals the floating point division yields.
\<close>

unbundle bit_operations_syntax

section \<open>Strings\<close>

text \<open>\<^verbatim>\<open>folly::split\<close> with \<open>ignoreEmpty\<close> set, and the functions of Boost on ASCII strings.\<close>

definition split :: "char \<Rightarrow> string \<Rightarrow> string list" where
  "split c s = filter (\<lambda>t. t \<noteq> []) (split_at c [] s)"

definition trim :: "string \<Rightarrow> string" where
  "trim s = rev (dropWhile is_space (rev (dropWhile is_space s)))"

definition to_lower :: "string \<Rightarrow> string" where
  "to_lower s = map (\<lambda>c. if 65 \<le> (of_char c :: nat) \<and> (of_char c :: nat) \<le> 90 then char_of ((of_char c :: nat) + 32) else c) s"

text \<open>\<^verbatim>\<open>std::stol\<close> reads a signed 64-bit number.\<close>

definition stol :: "string \<Rightarrow> int fut" where
  "stol s = sto_signed 63 s"

fun stols :: "string list \<Rightarrow> int list fut" where
  "stols [] = Inr []"
| "stols (s # ss) =
     (case stol s of Inl e \<Rightarrow> Inl e
      | Inr v \<Rightarrow> (case stols ss of Inl e \<Rightarrow> Inl e | Inr vs \<Rightarrow> Inr (v # vs)))"

section \<open>The helper\<close>

definition NULL_DEVICE_HELPER_CHAR :: char where "NULL_DEVICE_HELPER_CHAR = CHR ''x''"
definition NULL_DEVICE_HELPER_READ_PREALLOC_SIZE :: u64 where
  "NULL_DEVICE_HELPER_READ_PREALLOC_SIZE = 150 * 1024 * 1024"
definition NULL_DEVICE_HELPER_READLINK_SIZE :: nat where "NULL_DEVICE_HELPER_READLINK_SIZE = 10"
definition NULL_DEVICE_HELPER_READXATTR_SIZE :: nat where "NULL_DEVICE_HELPER_READXATTR_SIZE = 10"

text \<open>
  \<open>m_growSpeed\<close> is \<open>None\<close> when \<^verbatim>\<open>m_simulatedFilesystemGrowSpeed\<close> is 0.0, else the function that
  divides a count by it.
\<close>

record null_device =
  m_applyToAllOperations :: bool
  m_filter :: "string list"
  m_simulatedFilesystemParameters :: "(int \<times> int) list"
  m_growSpeed :: "(u64 \<Rightarrow> real) option"
  m_simulatedFilesystemLevelEntryCountReady :: bool
  m_simulatedFilesystemLevelEntryCount :: "u64 list"
  m_simulatedFilesystemEntryCountReady :: bool
  m_simulatedFilesystemEntryCount :: u64
  m_mountTime :: real

definition applies :: "null_device \<Rightarrow> string \<Rightarrow> bool" where
  "applies nd operationName = (m_applyToAllOperations nd \<or> operationName \<in> set (m_filter nd))"

definition simulateTimeout :: "null_device \<Rightarrow> string \<Rightarrow> bool \<Rightarrow> bool" where
  "simulateTimeout nd operationName draw = (applies nd operationName \<and> draw)"

text \<open>\<^verbatim>\<open>SIMULATE_STORAGE_ISSUES\<close> before the rest of an operation.\<close>

definition simulate :: "null_device \<Rightarrow> string \<Rightarrow> bool \<Rightarrow> 'a fut \<Rightarrow> 'a fut" where
  "simulate nd name draw rest = (if simulateTimeout nd name draw then Inl (system_error EAGAIN) else rest)"

definition isSimulatedFilesystem :: "null_device \<Rightarrow> bool" where
  "isSimulatedFilesystem nd = (m_simulatedFilesystemParameters nd \<noteq> [])"

subsection \<open>The simulated tree\<close>

text \<open>The number of entries of each level, as \<^verbatim>\<open>size_t\<close>.\<close>

definition level_entries :: "(int \<times> int) list \<Rightarrow> nat \<Rightarrow> u64" where
  "level_entries ps l =
     prod_list (map (\<lambda>p. of_int (fst p)) (take l ps)) * (of_int (fst (ps ! l)) + of_int (snd (ps ! l)))"

definition simulatedFilesystemLevelEntryCount :: "nat \<Rightarrow> null_device \<Rightarrow> u64 \<times> null_device" where
  "simulatedFilesystemLevelEntryCount level nd =
     (let ps = m_simulatedFilesystemParameters nd;
          nd1 = (if \<not> m_simulatedFilesystemLevelEntryCountReady nd
                 then nd\<lparr>m_simulatedFilesystemLevelEntryCount :=
                        m_simulatedFilesystemLevelEntryCount nd @ map (level_entries ps) [0..<length ps]\<rparr>
                 else nd);
          level1 = (if level \<ge> length ps then length ps - 1 else level)
      in (m_simulatedFilesystemLevelEntryCount nd1 ! level1, nd1))"

fun sum_levels :: "nat list \<Rightarrow> null_device \<Rightarrow> u64 \<times> null_device" where
  "sum_levels [] nd = (0, nd)"
| "sum_levels (l # ls) nd =
     (let (c, nd1) = simulatedFilesystemLevelEntryCount l nd; (s, nd2) = sum_levels ls nd1 in (c + s, nd2))"

definition simulatedFilesystemEntryCount :: "null_device \<Rightarrow> u64 \<times> null_device" where
  "simulatedFilesystemEntryCount nd =
     (if \<not> m_simulatedFilesystemEntryCountReady nd
      then (let (s, nd1) = sum_levels [0..<length (m_simulatedFilesystemParameters nd)] nd
            in (s, nd1\<lparr>m_simulatedFilesystemEntryCount := s\<rparr>))
      else (m_simulatedFilesystemEntryCount nd, nd))"

text \<open>
  \<^verbatim>\<open>std::accumulate\<close> with the \<^verbatim>\<open>int\<close> 1 keeps its product in an \<^verbatim>\<open>int\<close>; the result is extended
  to \<^verbatim>\<open>size_t\<close>.
\<close>

definition pathDirProduct :: "u64 list \<Rightarrow> u64" where
  "pathDirProduct parentPath = scast (foldl (\<lambda>acc x. ucast (scast acc * x) :: u32) 1 parentPath)"

text \<open>An index past the end of the parameters is undefined in the code.\<close>

definition simulatedFilesystemFileDist :: "string list \<Rightarrow> null_device \<Rightarrow> u64 fut \<times> null_device" where
  "simulatedFilesystemFileDist path nd =
     (if path = [] then (Inr 0, nd)
      else
        (let level = length path - 1;
             (distance, nd1) = sum_levels [0..<level] nd;
             ps = m_simulatedFilesystemParameters nd
         in case stols (butlast path) of
              Inl e \<Rightarrow> (Inl e, nd1)
            | Inr parents \<Rightarrow>
                (if level \<ge> length ps then (Inl undefined_index, nd1)
                 else
                   (case stol (last path) of
                      Inl e \<Rightarrow> (Inl e, nd1)
                    | Inr leaf \<Rightarrow>
                        (let (levelDirs, levelFiles) = ps ! level
                         in (Inr (distance + (of_int levelDirs + of_int levelFiles) * (pathDirProduct (map of_int parents) - 1)
                                  + of_int leaf + 1 - 1), nd1))))))"

definition NullDeviceHelper :: "string \<Rightarrow> (int \<times> int) list \<Rightarrow> (u64 \<Rightarrow> real) option \<Rightarrow> real \<Rightarrow> null_device" where
  "NullDeviceHelper filter_names params growSpeed mountTime =
     (let all = (filter_names = [] \<or> filter_names = ''*'')
      in snd (simulatedFilesystemEntryCount
           \<lparr>m_applyToAllOperations = all,
            m_filter = (if all then [] else map (\<lambda>t. to_lower (trim t)) (split (CHR '','') filter_names)),
            m_simulatedFilesystemParameters = params, m_growSpeed = growSpeed,
            m_simulatedFilesystemLevelEntryCountReady = False, m_simulatedFilesystemLevelEntryCount = [],
            m_simulatedFilesystemEntryCountReady = False, m_simulatedFilesystemEntryCount = 0,
            m_mountTime = mountTime\<rparr>))"

fun parse_levels :: "string list \<Rightarrow> (int \<times> int) list fut" where
  "parse_levels [] = Inr []"
| "parse_levels (level # levels) =
     (case split (CHR ''-'') level of
        [a, b] \<Rightarrow>
          (case stol a of Inl e \<Rightarrow> Inl e
           | Inr d \<Rightarrow> (case stol b of Inl e \<Rightarrow> Inl e
             | Inr f \<Rightarrow> (case parse_levels levels of Inl e \<Rightarrow> Inl e | Inr ps \<Rightarrow> Inr ((d, f) # ps))))
      | _ \<Rightarrow> Inl invalid_argument)"

definition parseSimulatedFilesystemParameters :: "string \<Rightarrow> (int \<times> int) list fut" where
  "parseSimulatedFilesystemParameters params =
     (if params = [] then Inr [] else parse_levels (split (CHR '':'') params))"

subsection \<open>Attributes and directories\<close>

record nd_stat =
  st_ino :: u64
  st_mode :: u32
  st_size :: int
  st_ctime :: int
  st_mtime :: int

definition ST_MODE_MASK :: u32 where "ST_MODE_MASK = 511"
definition S_IFDIR :: u32 where "S_IFDIR = 16384"
definition S_IFREG :: u32 where "S_IFREG = 32768"
definition ST_SIZE_KB :: int where "ST_SIZE_KB = 1024"

definition truncate_to_int :: "real \<Rightarrow> int" where
  "truncate_to_int r = (if r < 0 then \<lceil>r\<rceil> else \<lfloor>r\<rfloor>)"

text \<open>The modification time of an entry.\<close>

definition nd_mtime :: "null_device \<Rightarrow> real \<Rightarrow> u32 \<Rightarrow> u64 \<Rightarrow> int" where
  "nd_mtime nd now mode ino =
     (case m_growSpeed nd of
        None \<Rightarrow> \<lfloor>m_mountTime nd\<rfloor>
      | Some per \<Rightarrow>
          (if mode AND S_IFDIR \<noteq> 0
           then (let mtimeMax = m_mountTime nd + of_int (truncate_to_int (per (m_simulatedFilesystemEntryCount nd)))
                 in if now < mtimeMax then \<lfloor>now\<rfloor> else \<lfloor>mtimeMax\<rfloor>)
           else \<lfloor>m_mountTime nd + of_int (truncate_to_int (per ino))\<rfloor>))"

text \<open>Mode and size of the entry a path names.\<close>

definition nd_kind :: "null_device \<Rightarrow> string list \<Rightarrow> (u32 \<times> int) fut" where
  "nd_kind nd pathTokens =
     (if pathTokens = [] then Inr (ST_MODE_MASK OR S_IFDIR, 0)
      else (case stol (last pathTokens) of
              Inl e \<Rightarrow> Inl e
            | Inr pathLeaf \<Rightarrow>
                (if length pathTokens > length (m_simulatedFilesystemParameters nd) then Inl undefined_index
                 else if pathLeaf < fst (m_simulatedFilesystemParameters nd ! (length pathTokens - 1))
                 then Inr (ST_MODE_MASK OR S_IFDIR, 0)
                 else Inr (ST_MODE_MASK OR S_IFREG, pathLeaf * ST_SIZE_KB))))"

definition nd_getattr :: "string \<Rightarrow> real \<Rightarrow> bool \<Rightarrow> null_device \<Rightarrow> nd_stat fut \<times> null_device" where
  "nd_getattr fileId now draw nd =
     (if simulateTimeout nd ''getattr'' draw then (Inl (system_error EAGAIN), nd)
      else if isSimulatedFilesystem nd then
        (let pathTokens = split (CHR ''/'') fileId
         in case nd_kind nd pathTokens of
              Inl e \<Rightarrow> (Inl e, nd)
            | Inr (mode, sz) \<Rightarrow>
                (case simulatedFilesystemFileDist pathTokens nd of
                   (Inl e, nd1) \<Rightarrow> (Inl e, nd1)
                 | (Inr d, nd1) \<Rightarrow>
                     (Inr \<lparr>st_ino = d + 2, st_mode = mode, st_size = sz,
                           st_ctime = \<lfloor>m_mountTime nd\<rfloor>, st_mtime = nd_mtime nd1 now mode (d + 2)\<rparr>, nd1)))
      else (Inr \<lparr>st_ino = 1, st_mode = ST_MODE_MASK OR S_IFREG, st_size = 0, st_ctime = 0, st_mtime = 0\<rparr>, nd))"

text \<open>The entries of one directory that exist at the time \<open>now\<close>, among the numbers given.\<close>

fun list_entries :: "string list \<Rightarrow> real \<Rightarrow> nat list \<Rightarrow> null_device \<Rightarrow> string list fut \<times> null_device" where
  "list_entries tokens now [] nd = (Inr [], nd)"
| "list_entries tokens now (i # is) nd =
     (let (ok, nd1) =
            (case m_growSpeed nd of
               None \<Rightarrow> (Inr True, nd)
             | Some per \<Rightarrow>
                 (case simulatedFilesystemFileDist (tokens @ [to_dec i]) nd of
                    (Inl e, nd1) \<Rightarrow> (Inl e, nd1)
                  | (Inr d, nd1) \<Rightarrow> (Inr (per d + m_mountTime nd1 < now), nd1)))
      in case ok of
           Inl e \<Rightarrow> (Inl e, nd1)
         | Inr b \<Rightarrow>
             (case list_entries tokens now is nd1 of
                (Inl e, nd2) \<Rightarrow> (Inl e, nd2)
              | (Inr es, nd2) \<Rightarrow> (Inr (if b then to_dec i # es else es), nd2)))"

definition nd_readdir ::
  "string \<Rightarrow> u64 \<Rightarrow> u64 \<Rightarrow> real \<Rightarrow> bool \<Rightarrow> null_device \<Rightarrow> string list fut \<times> null_device" where
  "nd_readdir fileId offset cnt now draw nd =
     (if simulateTimeout nd ''readdir'' draw then (Inl (system_error EAGAIN), nd)
      else if isSimulatedFilesystem nd then
        (let pathTokens = split (CHR ''/'') fileId; ps = m_simulatedFilesystemParameters nd; level = length pathTokens
         in if level < length ps
            then (let totalEntriesOnLevel = of_int (fst (ps ! level)) + of_int (snd (ps ! level)) :: u64
                  in list_entries pathTokens now [unat offset..<unat (min (offset + cnt) totalEntriesOnLevel)] nd)
            else (Inr [], nd))
      else (Inr (map (\<lambda>i. to_dec (unat (of_nat i + offset))) [0..<unat cnt]), nd))"

section \<open>Operations without effect\<close>

text \<open>Operations that only simulate storage issues and succeed.\<close>

definition nd_access :: "bool \<Rightarrow> null_device \<Rightarrow> unit fut" where
  "nd_access draw nd = simulate nd ''access'' draw (Inr ())"

definition nd_mknod :: "bool \<Rightarrow> null_device \<Rightarrow> unit fut" where
  "nd_mknod draw nd = simulate nd ''mknod'' draw (Inr ())"

definition nd_mkdir :: "bool \<Rightarrow> null_device \<Rightarrow> unit fut" where
  "nd_mkdir draw nd = simulate nd ''mkdir'' draw (Inr ())"

definition nd_unlink :: "bool \<Rightarrow> null_device \<Rightarrow> unit fut" where
  "nd_unlink draw nd = simulate nd ''unlink'' draw (Inr ())"

definition nd_rmdir :: "bool \<Rightarrow> null_device \<Rightarrow> unit fut" where
  "nd_rmdir draw nd = simulate nd ''rmdir'' draw (Inr ())"

definition nd_symlink :: "bool \<Rightarrow> null_device \<Rightarrow> unit fut" where
  "nd_symlink draw nd = simulate nd ''symlink'' draw (Inr ())"

definition nd_rename :: "bool \<Rightarrow> null_device \<Rightarrow> unit fut" where
  "nd_rename draw nd = simulate nd ''rename'' draw (Inr ())"

definition nd_link :: "bool \<Rightarrow> null_device \<Rightarrow> unit fut" where
  "nd_link draw nd = simulate nd ''link'' draw (Inr ())"

definition nd_chmod :: "bool \<Rightarrow> null_device \<Rightarrow> unit fut" where
  "nd_chmod draw nd = simulate nd ''chmod'' draw (Inr ())"

definition nd_chown :: "bool \<Rightarrow> null_device \<Rightarrow> unit fut" where
  "nd_chown draw nd = simulate nd ''chown'' draw (Inr ())"

definition nd_truncate :: "bool \<Rightarrow> null_device \<Rightarrow> unit fut" where
  "nd_truncate draw nd = simulate nd ''truncate'' draw (Inr ())"

definition nd_removexattr :: "bool \<Rightarrow> null_device \<Rightarrow> unit fut" where
  "nd_removexattr draw nd = simulate nd ''removexattr'' draw (Inr ())"

definition nd_setxattr :: "bool \<Rightarrow> bool \<Rightarrow> bool \<Rightarrow> null_device \<Rightarrow> unit fut" where
  "nd_setxattr create replace draw nd =
     simulate nd ''setxattr'' draw (if create \<and> replace then Inl (system_error EINVAL) else Inr ())"

definition nd_getxattr :: "bool \<Rightarrow> null_device \<Rightarrow> string fut" where
  "nd_getxattr draw nd =
     simulate nd ''getxattr'' draw (Inr (replicate NULL_DEVICE_HELPER_READXATTR_SIZE NULL_DEVICE_HELPER_CHAR))"

definition nd_readlink :: "bool \<Rightarrow> null_device \<Rightarrow> string fut" where
  "nd_readlink draw nd =
     simulate nd ''readlink'' draw (Inr (replicate NULL_DEVICE_HELPER_READLINK_SIZE NULL_DEVICE_HELPER_CHAR))"

definition nd_listxattr :: "bool \<Rightarrow> null_device \<Rightarrow> string list fut" where
  "nd_listxattr draw nd =
     simulate nd ''listxattr'' draw
       (Inr (map (\<lambda>i. replicate i NULL_DEVICE_HELPER_CHAR) [1..<Suc NULL_DEVICE_HELPER_READXATTR_SIZE]))"

section \<open>File handles\<close>

record nd_handle =
  nd_helper :: null_device
  m_readBytes :: u64
  m_writtenBytes :: u64

definition nd_open :: "bool \<Rightarrow> null_device \<Rightarrow> nd_handle fut" where
  "nd_open draw nd = simulate nd ''open'' draw (Inr \<lparr>nd_helper = nd, m_readBytes = 0, m_writtenBytes = 0\<rparr>)"

datatype HandleOp = ReadOp int u64 | WriteOp int bytes | FsyncOp | FlushOp | ReleaseOp

datatype op_value = BufValue bytes | SizeValue u64 | UnitValue

text \<open>
  What running an operation does: its promise is settled, or an exception escapes from the
  visitor and the promise is left as it is.
\<close>

datatype op_outcome = Settled "op_value fut" | Escaped cpp_exn

text \<open>
  The visitor: \<open>alive\<close> says whether the handle still exists. Both ways of filling the
  buffer of a read yield the same bytes.
\<close>

fun nd_exec :: "bool \<Rightarrow> bool \<Rightarrow> HandleOp \<Rightarrow> nd_handle \<Rightarrow> op_outcome \<times> nd_handle" where
  "nd_exec alive draw (ReadOp offset sz) h =
     (if \<not> alive then (Settled (Inl (system_error ECANCELED)), h)
      else if simulateTimeout (nd_helper h) ''read'' draw then (Settled (Inl (system_error EAGAIN)), h)
      else (Settled (Inr (BufValue (replicate (unat sz) (of_char NULL_DEVICE_HELPER_CHAR)))),
            h\<lparr>m_readBytes := m_readBytes h + sz\<rparr>))"
| "nd_exec alive draw (WriteOp offset buf) h =
     (if \<not> alive then (Settled (Inl (system_error ECANCELED)), h)
      else if simulateTimeout (nd_helper h) ''write'' draw then (Settled (Inl (system_error EAGAIN)), h)
      else (Settled (Inr (SizeValue (of_nat (length buf)))),
            h\<lparr>m_writtenBytes := m_writtenBytes h + of_nat (length buf)\<rparr>))"
| "nd_exec alive draw ReleaseOp h =
     (if \<not> alive then (Settled (Inl (system_error ECANCELED)), h)
      else if simulateTimeout (nd_helper h) ''release'' draw then (Escaped (system_error EAGAIN), h)
      else (Settled (Inr UnitValue), h))"
| "nd_exec alive draw FlushOp h =
     (if \<not> alive then (Settled (Inl (system_error ECANCELED)), h)
      else if simulateTimeout (nd_helper h) ''flush'' draw then (Escaped (system_error EAGAIN), h)
      else (Settled (Inr UnitValue), h))"
| "nd_exec alive draw FsyncOp h =
     (if \<not> alive then (Settled (Inl (system_error ECANCELED)), h)
      else if simulateTimeout (nd_helper h) ''fsync'' draw then (Escaped (system_error EAGAIN), h)
      else (Settled (Inr UnitValue), h))"

text \<open>An operation on the queue of a handle, with what the random generator will say.\<close>

type_synonym queued_op = "HandleOp \<times> bool"

definition nd_throws :: "nd_handle \<Rightarrow> queued_op \<Rightarrow> bool" where
  "nd_throws h q = (case fst (nd_exec True (snd q) (fst q) h) of Escaped _ \<Rightarrow> True | Settled _ \<Rightarrow> False)"

section \<open>Splitting and numbers\<close>

lemma split_one: "c \<notin> set xs \<Longrightarrow> xs \<noteq> [] \<Longrightarrow> split c xs = [xs]"
  by (simp add: split_def split_at_plain)

lemma split_cons: "c \<notin> set xs \<Longrightarrow> xs \<noteq> [] \<Longrightarrow> split c (xs @ c # ys) = xs # split c ys"
  by (simp add: split_def split_at_append)

lemma to_dec_no_sep: "\<not> is_digit c \<Longrightarrow> c \<notin> set (to_dec n)"
  using to_dec_digits by blast

lemma stol_to_dec: "n < 2 ^ 63 \<Longrightarrow> stol (to_dec n) = Inr (int n)"
  by (simp add: stol_def sto_signed_to_dec)

lemma digit_seps: "\<not> is_digit (CHR ''-'')" "\<not> is_digit (CHR '':'')" "\<not> is_digit (CHR ''/'')"
  by (simp_all add: is_digit_def)

section \<open>Printed parameters\<close>

text \<open>The specification of a tree as it is written in the storage parameters.\<close>

definition print_level :: "nat \<times> nat \<Rightarrow> string" where
  "print_level p = to_dec (fst p) @ ''-'' @ to_dec (snd p)"

fun print_levels :: "(nat \<times> nat) list \<Rightarrow> string" where
  "print_levels [] = []"
| "print_levels [p] = print_level p"
| "print_levels (p # ps) = print_level p @ '':'' @ print_levels ps"

lemma print_level_plain: "CHR '':'' \<notin> set (print_level p)" "print_level p \<noteq> []"
  using to_dec_no_sep [OF digit_seps(2)] by (auto simp: print_level_def)

lemma split_print_levels: "split (CHR '':'') (print_levels ps) = map print_level ps"
proof (induction ps rule: print_levels.induct)
  case 1
  then show ?case by (simp add: split_def)
next
  case (2 p)
  then show ?case using print_level_plain [of p] by (simp add: split_one)
next
  case (3 p q ps)
  then show ?case using print_level_plain [of p] split_cons [of "CHR '':''" "print_level p" "print_levels (q # ps)"] by simp
qed

lemma split_print_level: "split (CHR ''-'') (print_level p) = [to_dec (fst p), to_dec (snd p)]"
  using split_cons [of "CHR ''-''" "to_dec (fst p)" "to_dec (snd p)"] to_dec_no_sep [OF digit_seps(1)]
  by (simp add: print_level_def split_one)

lemma parse_print_levels:
  assumes "\<forall>p \<in> set ps. fst p < 2 ^ 63 \<and> snd p < 2 ^ 63"
  shows "parse_levels (map print_level ps) = Inr (map (\<lambda>p. (int (fst p), int (snd p))) ps)"
  using assms by (induction ps) (simp_all add: split_print_level stol_to_dec)

section \<open>The table of level sizes\<close>

text \<open>
  The table holds a whole number of copies of the level sizes, one for each time it was
  computed: the flag that would stop the recomputation is never set.
\<close>

definition level_table :: "null_device \<Rightarrow> nat \<Rightarrow> bool" where
  "level_table nd k \<longleftrightarrow>
     \<not> m_simulatedFilesystemLevelEntryCountReady nd \<and>
     m_simulatedFilesystemLevelEntryCount nd =
       concat (replicate k (map (level_entries (m_simulatedFilesystemParameters nd))
         [0..<length (m_simulatedFilesystemParameters nd)]))"

lemma level_count:
  assumes "level_table nd k" and "l < length (m_simulatedFilesystemParameters nd)"
  obtains nd' where
    "simulatedFilesystemLevelEntryCount l nd = (level_entries (m_simulatedFilesystemParameters nd) l, nd')"
    "level_table nd' (Suc k)" "m_simulatedFilesystemParameters nd' = m_simulatedFilesystemParameters nd"
    "nd' = nd\<lparr>m_simulatedFilesystemLevelEntryCount := m_simulatedFilesystemLevelEntryCount nd'\<rparr>"
proof -
  let ?t = "map (level_entries (m_simulatedFilesystemParameters nd)) [0..<length (m_simulatedFilesystemParameters nd)]"
  have r: "concat (replicate k ?t) @ ?t = ?t @ concat (replicate k ?t)"
    by (induction k) simp_all
  have "(concat (replicate k ?t) @ ?t) ! l = ?t ! l"
    unfolding r using assms(2) by (simp add: nth_append)
  then show ?thesis using assms r
    by (intro that [of "snd (simulatedFilesystemLevelEntryCount l nd)"])
      (simp_all add: simulatedFilesystemLevelEntryCount_def level_table_def Let_def)
qed

lemma sum_levels_table:
  assumes "level_table nd k" and "\<forall>l \<in> set ls. l < length (m_simulatedFilesystemParameters nd)"
  shows "\<exists>t. sum_levels ls nd =
      (sum_list (map (level_entries (m_simulatedFilesystemParameters nd)) ls),
       nd\<lparr>m_simulatedFilesystemLevelEntryCount := t\<rparr>) \<and>
    level_table (nd\<lparr>m_simulatedFilesystemLevelEntryCount := t\<rparr>) (k + length ls)"
  using assms
proof (induction ls arbitrary: nd k)
  case Nil
  then show ?case by (intro exI [of _ "m_simulatedFilesystemLevelEntryCount nd"]) simp
next
  case (Cons l ls)
  then have "l < length (m_simulatedFilesystemParameters nd)" by simp
  with Cons.prems(1) obtain nd1 where nd1:
    "simulatedFilesystemLevelEntryCount l nd = (level_entries (m_simulatedFilesystemParameters nd) l, nd1)"
    "level_table nd1 (Suc k)" "m_simulatedFilesystemParameters nd1 = m_simulatedFilesystemParameters nd"
    "nd1 = nd\<lparr>m_simulatedFilesystemLevelEntryCount := m_simulatedFilesystemLevelEntryCount nd1\<rparr>"
    by (rule level_count)
  from Cons.IH [OF nd1(2)] nd1(3) Cons.prems(2) obtain t where
    "sum_levels ls nd1 = (sum_list (map (level_entries (m_simulatedFilesystemParameters nd)) ls),
       nd1\<lparr>m_simulatedFilesystemLevelEntryCount := t\<rparr>)"
    "level_table (nd1\<lparr>m_simulatedFilesystemLevelEntryCount := t\<rparr>) (Suc k + length ls)" by auto
  moreover have "nd1\<lparr>m_simulatedFilesystemLevelEntryCount := t\<rparr> = nd\<lparr>m_simulatedFilesystemLevelEntryCount := t\<rparr>" for t
    by (subst nd1(4)) simp
  ultimately show ?case using nd1(1) by (auto simp: Let_def)
qed

lemma helper_table:
  "\<exists>k. level_table (NullDeviceHelper filter_names params growSpeed mountTime) k"
  "m_simulatedFilesystemParameters (NullDeviceHelper filter_names params growSpeed mountTime) = params"
  "m_growSpeed (NullDeviceHelper filter_names params growSpeed mountTime) = growSpeed"
proof -
  let ?nd = "\<lparr>m_applyToAllOperations = (filter_names = [] \<or> filter_names = ''*''),
      m_filter = (if filter_names = [] \<or> filter_names = ''*'' then []
                  else map (\<lambda>t. to_lower (trim t)) (split (CHR '','') filter_names)),
      m_simulatedFilesystemParameters = params, m_growSpeed = growSpeed,
      m_simulatedFilesystemLevelEntryCountReady = False, m_simulatedFilesystemLevelEntryCount = [],
      m_simulatedFilesystemEntryCountReady = False, m_simulatedFilesystemEntryCount = 0, m_mountTime = mountTime\<rparr>"
  have "level_table ?nd 0" by (simp add: level_table_def)
  from sum_levels_table [OF this, of "[0..<length params]"] obtain t where
    "sum_levels [0..<length params] ?nd =
      (sum_list (map (level_entries params) [0..<length params]), ?nd\<lparr>m_simulatedFilesystemLevelEntryCount := t\<rparr>)"
    "level_table (?nd\<lparr>m_simulatedFilesystemLevelEntryCount := t\<rparr>) (length params)" by auto
  moreover have "NullDeviceHelper filter_names params growSpeed mountTime = snd (simulatedFilesystemEntryCount ?nd)"
    by (simp add: NullDeviceHelper_def Let_def)
  ultimately show "\<exists>k. level_table (NullDeviceHelper filter_names params growSpeed mountTime) k"
    "m_simulatedFilesystemParameters (NullDeviceHelper filter_names params growSpeed mountTime) = params"
    "m_growSpeed (NullDeviceHelper filter_names params growSpeed mountTime) = growSpeed"
    by (auto simp: simulatedFilesystemEntryCount_def level_table_def Let_def)
qed

section \<open>Numbers of entries\<close>

lemma level_entries_0: "ps \<noteq> [] \<Longrightarrow> level_entries ps 0 = of_int (fst (ps ! 0)) + of_int (snd (ps ! 0))"
  by (simp add: level_entries_def)

lemma dist_top:
  assumes "m_simulatedFilesystemParameters nd \<noteq> []" and "i < 2 ^ 63"
  shows "simulatedFilesystemFileDist [to_dec i] nd = (Inr (of_nat i), nd)"
  using assms by (simp add: simulatedFilesystemFileDist_def pathDirProduct_def stol_to_dec case_prod_beta)

lemma dist_in_first:
  assumes t: "level_table nd k" and p: "m_simulatedFilesystemParameters nd = (d0, f0) # (d1, f1) # ps" and i: "i < 2 ^ 63"
  shows "fst (simulatedFilesystemFileDist [to_dec 0, to_dec i] nd) =
    Inr (of_int d0 + of_int f0 - (of_int d1 + of_int f1) + of_nat i)"
proof -
  obtain t' where "sum_levels [0] nd = (of_int d0 + of_int f0, nd\<lparr>m_simulatedFilesystemLevelEntryCount := t'\<rparr>)"
    using sum_levels_table [OF t, of "[0]"] by (auto simp: p level_entries_def)
  moreover have "pathDirProduct [0] = 0" by (simp add: pathDirProduct_def)
  ultimately show ?thesis using i
    by (simp add: simulatedFilesystemFileDist_def stol_to_dec p case_prod_beta)
qed

lemma split_path_one: "split (CHR ''/'') (to_dec i) = [to_dec i]"
  using to_dec_no_sep [OF digit_seps(3)] by (simp add: split_one)

lemma split_path_two: "split (CHR ''/'') (to_dec j @ ''/'' @ to_dec i) = [to_dec j, to_dec i]"
  using to_dec_no_sep [OF digit_seps(3)] split_cons [of "CHR ''/''" "to_dec j" "to_dec i"]
  by (simp add: split_path_one)

lemma kind_entry:
  assumes "i < 2 ^ 63" and "length tokens < length (m_simulatedFilesystemParameters nd)"
  shows "nd_kind nd (tokens @ [to_dec i]) =
    Inr (if int i < fst (m_simulatedFilesystemParameters nd ! length tokens)
         then (ST_MODE_MASK OR S_IFDIR, 0) else (ST_MODE_MASK OR S_IFREG, int i * ST_SIZE_KB))"
  using assms by (simp add: nd_kind_def stol_to_dec)

lemma list_entries_all:
  assumes "m_growSpeed nd = None"
  shows "list_entries tokens now is nd = (Inr (map to_dec is), nd)"
  using assms by (induction "is") simp_all

section \<open>Properties\<close>

text \<open>The values an operation may give.\<close>

fun value_of :: "HandleOp \<Rightarrow> op_value \<Rightarrow> bool" where
  "value_of (ReadOp _ sz) (BufValue b) = (length b = unat sz)"
| "value_of (WriteOp _ buf) (SizeValue n) = (n = of_nat (length buf))"
| "value_of FsyncOp UnitValue = True"
| "value_of FlushOp UnitValue = True"
| "value_of ReleaseOp UnitValue = True"
| "value_of _ _ = False"


text \<open>
  C33. A simulated timeout of flush, fsync or release disables the handle: once such an
  operation has been run and timed out, no operation of the handle is run any more,
  whatever is scheduled, and their futures are never settled.
\<close>

theorem timeout_disables_handle:
  assumes "reaches (nd_throws h) s"
    and "(op, True) \<in> set (executed s)" and "op \<in> {FsyncOp, FlushOp, ReleaseOp}"
    and "m_applyToAllOperations (nd_helper h)"
    and "(sched_step (nd_throws h))\<^sup>*\<^sup>* s s'"
  shows "executed s' = executed s"
proof (rule escaped_stops [OF assms(1) _ assms(5)])
  have "nd_throws h (op, True)"
    using assms(3,4) by (auto simp: nd_throws_def simulateTimeout_def applies_def)
  then show "\<exists>q \<in> set (executed s). nd_throws h q" using assms(2) by blast
qed

abbreviation (input) flushed :: "queued_op scheduler" where
  "flushed \<equiv> \<lparr>m_filledQueue = [], m_usedQueue = [(FlushOp, True)], m_drainInProgress = True, drains = [],
             scheduled = [(FlushOp, True)], executed = [(FlushOp, True)]\<rparr>"

theorem timeout_disables_handle_witness:
  "executed (schedule (ReadOp 0 1, False) flushed) = [(FlushOp, True)]"
proof -
  let ?h = "\<lparr>nd_helper = NullDeviceHelper [] [] None 0, m_readBytes = 0, m_writtenBytes = 0\<rparr>"
  let ?s1 = "schedule (FlushOp, True) new_scheduler :: queued_op scheduler"
  let ?s2 = "?s1\<lparr>drains := [AtLoop]\<rparr>"
  let ?s3 = "?s2\<lparr>m_usedQueue := [(FlushOp, True)], m_filledQueue := [], drains := [InBatch 0]\<rparr>"
  have all: "m_applyToAllOperations (nd_helper ?h)"
    by (simp add: NullDeviceHelper_def simulatedFilesystemEntryCount_def)
  then have "nd_throws ?h (FlushOp, True)" by (simp add: nd_throws_def simulateTimeout_def applies_def)
  then have 3: "drain_step (nd_throws ?h) ?s3 flushed"
    by (simp add: single_drain batch_step schedule_def new_scheduler_def)
  have 1: "drain_step (nd_throws ?h) ?s1 ?s2" by (simp add: single_drain posted_step schedule_def new_scheduler_def)
  have 2: "drain_step (nd_throws ?h) ?s2 ?s3" by (simp add: single_drain loop_step schedule_def new_scheduler_def)
  have r: "reaches (nd_throws ?h) flushed"
    by (rule reaches_drain [OF reaches_drain [OF reaches_drain [OF reaches_schedule [OF reaches_new] 1] 2] 3])
  have "(sched_step (nd_throws ?h))\<^sup>*\<^sup>* flushed (schedule (ReadOp 0 1, False) flushed)"
    by (rule r_into_rtranclp) (rule step_schedule)
  then show ?thesis using timeout_disables_handle [OF r _ _ all, of FlushOp] by simp
qed

text \<open>
  Listing a directory of a simulated file system that does not grow, from any offset,
  gives the entries numbered from the offset up to the end of the page or of the directory,
  so that pages join to the whole directory; and the entries numbered below the number of
  directories of the level are directories, the others regular files.
\<close>

lemma readdir_lists:
  assumes "m_simulatedFilesystemParameters nd ! length (split (CHR ''/'') dir) = (int d, int f)"
    and "length (split (CHR ''/'') dir) < length (m_simulatedFilesystemParameters nd)"
    and "d + f < 2 ^ 63" and "unat offset + unat cnt < 2 ^ 64"
    and "m_growSpeed nd = None" and "\<not> simulateTimeout nd ''readdir'' draw"
  shows "fst (nd_readdir dir offset cnt now draw nd) =
      Inr (map to_dec [unat offset..<min (unat offset + unat cnt) (d + f)]) \<and>
    (\<forall>i < d + f. nd_kind nd (split (CHR ''/'') dir @ [to_dec i]) =
      Inr (if i < d then (ST_MODE_MASK OR S_IFDIR, 0) else (ST_MODE_MASK OR S_IFREG, int i * ST_SIZE_KB)))"
proof
  have "isSimulatedFilesystem nd" using assms(2) by (auto simp: isSimulatedFilesystem_def)
  moreover have "of_int (int d) + of_int (int f) = (of_nat (d + f) :: u64)" by simp
  moreover have "unat (min (offset + cnt) (of_nat (d + f))) = min (unat offset + unat cnt) (d + f)"
  proof -
    have "unat (offset + cnt) = unat offset + unat cnt" using assms(4) by (intro unat_add_small) simp
    moreover have "unat (of_nat (d + f) :: u64) = d + f" using assms(3) by (intro unat_of_nat_u64) simp
    ultimately show ?thesis by (simp only: unat_min)
  qed
  ultimately show "fst (nd_readdir dir offset cnt now draw nd) =
      Inr (map to_dec [unat offset..<min (unat offset + unat cnt) (d + f)])"
    using assms(1,2,5,6) by (simp add: nd_readdir_def Let_def list_entries_all)
  show "\<forall>i < d + f. nd_kind nd (split (CHR ''/'') dir @ [to_dec i]) =
      Inr (if i < d then (ST_MODE_MASK OR S_IFDIR, 0) else (ST_MODE_MASK OR S_IFREG, int i * ST_SIZE_KB))"
    using kind_entry assms(1,2,3) by simp
qed

lemma readdir_lists_witness:
  "fst (nd_readdir ''1'' 1 2 0 False (NullDeviceHelper [] [(2, 2), (1, 3)] None 0)) = Inr [''1'', ''2'']"
proof -
  have s: "split (CHR ''/'') ''1'' = [''1'']" by (simp add: split_def)
  show ?thesis
    using readdir_lists [of "NullDeviceHelper [] [(2, 2), (1, 3)] None 0" "''1''" 1 3 1 2 False 0]
    by (simp add: s helper_table simulateTimeout_def to_dec.simps digit_chars upt_rec numeral_2_eq_2 [symmetric])
qed

text \<open>
  The numbers the simulated file system gives its entries as inodes are not unique:
  when the first two levels have the same number of entries per directory, the entry \<open>i\<close> of
  the root and the entry \<open>i\<close> of its first directory have the same inode.
\<close>

lemma inodes_collide:
  assumes "d0 + f0 = d1 + f1" and "i < 2 ^ 63"
    and "nd = NullDeviceHelper filter_names ((d0, f0) # (d1, f1) # ps) growSpeed mountTime"
  shows "\<exists>a b. fst (nd_getattr (to_dec i) now False nd) = Inr a \<and>
    fst (nd_getattr (''0/'' @ to_dec i) now False nd) = Inr b \<and> st_ino a = st_ino b"
proof -
  have z: "''0/'' @ to_dec i = to_dec 0 @ ''/'' @ to_dec i" by (simp add: to_dec.simps digit_chars)
  obtain k where t: "level_table nd k" using helper_table(1) assms(3) by blast
  have p: "m_simulatedFilesystemParameters nd = (d0, f0) # (d1, f1) # ps" unfolding assms(3) by (rule helper_table(2))
  have "of_int d0 + of_int f0 = (of_int d1 + of_int f1 :: u64)" using assms(1) by (metis of_int_add)
  then have "fst (simulatedFilesystemFileDist [to_dec 0, to_dec i] nd) = Inr (of_nat i)"
    using dist_in_first [OF t p assms(2)] by simp
  then obtain nd' where d2: "simulatedFilesystemFileDist [to_dec 0, to_dec i] nd = (Inr (of_nat i), nd')"
    by (metis prod.collapse)
  have d1: "simulatedFilesystemFileDist [to_dec i] nd = (Inr (of_nat i), nd)" using assms(2) p by (simp add: dist_top)
  obtain k1 k2 where "nd_kind nd [to_dec i] = Inr k1" "nd_kind nd [to_dec 0, to_dec i] = Inr k2"
    using kind_entry [OF assms(2), of "[]" nd] kind_entry [OF assms(2), of "[to_dec 0]" nd] p by auto
  then show ?thesis using d1 d2 p unfolding z
    by (simp add: nd_getattr_def simulateTimeout_def isSimulatedFilesystem_def split_path_one split_path_two
        Let_def case_prod_beta del: append.simps)
qed

lemma inodes_collide_witness:
  "\<exists>a b. fst (nd_getattr ''3'' 0 False (NullDeviceHelper [] [(2, 2), (2, 2), (0, 1)] None 0)) = Inr a \<and>
     fst (nd_getattr ''0/3'' 0 False (NullDeviceHelper [] [(2, 2), (2, 2), (0, 1)] None 0)) = Inr b \<and> st_ino a = st_ino b"
  using inodes_collide [of 2 2 2 2 3 _ "[]" "[(0, 1)]" None 0 0] by (simp add: to_dec.simps digit_chars)

text \<open>
  The parameters of a simulated file system, written as the numbers of directories and
  files of each level, are read back as they were written.
\<close>

lemma parameters_roundtrip:
  assumes "\<forall>p \<in> set ps. fst p < 2 ^ 63 \<and> snd p < 2 ^ 63"
  shows "parseSimulatedFilesystemParameters (print_levels ps) = Inr (map (\<lambda>p. (int (fst p), int (snd p))) ps)"
proof (cases ps)
  case (Cons p qs)
  then have "print_levels ps \<noteq> []" using print_level_plain(2) [of p] by (cases qs) simp_all
  then show ?thesis using parse_print_levels [OF assms]
    by (simp add: parseSimulatedFilesystemParameters_def split_print_levels)
qed (simp add: parseSimulatedFilesystemParameters_def)

end
