(* ===== verification/ReadCache.thy ===== *)
theory ReadCache
  imports Complex_Main Prelude
begin

text \<open>
  \<^verbatim>\<open>src/src/buffering/readCache.h\<close>: the cache of the blocks read and prefetched from a file.
  The file handle is the parameter \<open>h_read\<close>, whose reads complete within the call; the time,
  and the latency a read measures, are parameters of the call. Offsets are integers and
  sizes natural numbers: the sums formed stay far below the range of \<^verbatim>\<open>off_t\<close>.
\<close>

section \<open>Model\<close>

text \<open>
  \<open>rd_t\<close> is \<open>None\<close> for the largest time, which a block has until it is read. \<open>rd_promise\<close> is
  what the promise of the block holds.
\<close>

record read_data =
  rd_offset :: int
  rd_size :: nat
  rd_t :: "int option"
  rd_measured :: bool
  rd_buf :: bytes
  rd_promise :: "unit fut"

record read_cache =
  m_readBufferMinSize :: nat
  m_readBufferMaxSize :: nat
  m_cacheDuration :: int
  m_prefetchPowerBase :: real
  m_targetLatency :: nat
  m_prefetchCoeff :: real
  m_blockSize :: nat
  m_latency :: nat
  m_cache :: "read_data list"
  m_clear :: bool

definition new_read_cache :: "nat \<Rightarrow> nat \<Rightarrow> int \<Rightarrow> real \<Rightarrow> nat \<Rightarrow> read_cache" where
  "new_read_cache readBufferMinSize readBufferMaxSize readBufferPrefetchDuration prefetchPowerBase targetLatency =
     \<lparr>m_readBufferMinSize = readBufferMinSize, m_readBufferMaxSize = readBufferMaxSize,
      m_cacheDuration = readBufferPrefetchDuration * 2, m_prefetchPowerBase = prefetchPowerBase,
      m_targetLatency = targetLatency, m_prefetchCoeff = 1, m_blockSize = 0, m_latency = targetLatency * 2,
      m_cache = [], m_clear = False\<rparr>"

definition isCurrentRead :: "int \<Rightarrow> read_cache \<Rightarrow> bool" where
  "isCurrentRead offset rc =
     (case m_cache rc of [] \<Rightarrow> False
      | rd # _ \<Rightarrow> rd_offset rd \<le> offset \<and> offset < rd_offset rd + int (rd_size rd))"

definition isSequential :: "int \<Rightarrow> read_cache \<Rightarrow> bool" where
  "isSequential offset rc =
     (case m_cache rc of
        [] \<Rightarrow> False
      | [rd] \<Rightarrow> offset = rd_offset rd + int (rd_size rd)
      | _ \<Rightarrow> (let rd = last (m_cache rc)
             in offset \<ge> rd_offset rd \<and> offset < rd_offset rd + int (rd_size rd)))"

definition resetBlockSize :: "nat \<times> real" where
  "resetBlockSize = (0, 1)"

definition increaseBlockSize :: "read_cache \<Rightarrow> nat \<times> real" where
  "increaseBlockSize rc =
     (if m_blockSize rc < m_readBufferMaxSize rc \<and> m_latency rc > m_targetLatency rc
      then (min (m_readBufferMaxSize rc) (m_readBufferMinSize rc * nat \<lfloor>m_prefetchCoeff rc\<rfloor>),
            m_prefetchCoeff rc * m_prefetchPowerBase rc)
      else (m_blockSize rc, m_prefetchCoeff rc))"

definition clearStaleEntries :: "int \<Rightarrow> read_cache \<Rightarrow> read_cache" where
  "clearStaleEntries now rc =
     rc\<lparr>m_cache := dropWhile (\<lambda>rd. case rd_t rd of None \<Rightarrow> False | Some t \<Rightarrow> t < now - m_cacheDuration rc) (m_cache rc)\<rparr>"

definition fetch :: "(int \<Rightarrow> nat \<Rightarrow> bytes fut) \<Rightarrow> int \<Rightarrow> nat \<Rightarrow> bool \<Rightarrow> int \<Rightarrow> read_cache \<Rightarrow> read_cache" where
  "fetch h_read offset sz isPrefetch now rc =
     rc\<lparr>m_cache := m_cache rc @
        [case h_read offset sz of
           Inr buf \<Rightarrow> \<lparr>rd_offset = offset, rd_size = length buf, rd_t = Some now, rd_measured = (\<not> isPrefetch),
                       rd_buf = buf, rd_promise = Inr ()\<rparr>
         | Inl e \<Rightarrow> \<lparr>rd_offset = offset, rd_size = sz, rd_t = None, rd_measured = (\<not> isPrefetch),
                     rd_buf = [], rd_promise = Inl e\<rparr>]\<rparr>"

text \<open>The size of the intersection of two right-open intervals.\<close>

definition interval_size :: "int \<Rightarrow> int \<Rightarrow> int \<Rightarrow> int \<Rightarrow> nat" where
  "interval_size a b c d = nat (min b d - max a c)"

definition prefetchIfNeeded ::
  "(int \<Rightarrow> nat \<Rightarrow> bytes fut) \<Rightarrow> int \<Rightarrow> nat \<Rightarrow> int \<Rightarrow> read_cache \<Rightarrow> read_cache" where
  "prefetchIfNeeded h_read offset continuousSize now rc =
     (let back = last (m_cache rc);
          nextOffset = rd_offset back + int (rd_size back);
          prefetchSize = interval_size nextOffset (nextOffset + int (m_blockSize rc)) offset (offset + int continuousSize)
      in if length (m_cache rc) < 2 \<and> prefetchSize > 0 then fetch h_read nextOffset prefetchSize True now rc else rc)"

text \<open>The continuation of \<^verbatim>\<open>readFromCache\<close> on the block at the front.\<close>

definition readFromCache :: "int \<Rightarrow> nat \<Rightarrow> nat \<Rightarrow> read_cache \<Rightarrow> bytes fut \<times> read_cache" where
  "readFromCache offset sz latency rc =
     (let readData = hd (m_cache rc)
      in case rd_promise readData of
           Inl e \<Rightarrow> (Inl e, rc)
         | Inr _ \<Rightarrow>
             (let rc1 = (if rd_measured readData then rc
                         else rc\<lparr>m_latency := (m_latency rc + 2 * latency) div 3,
                                 m_cache := readData\<lparr>rd_measured := True\<rparr> # tl (m_cache rc)\<rparr>)
              in if rd_buf readData = [] \<or> rd_offset readData + int (length (rd_buf readData)) < offset
                 then (Inr [], rc1)
                 else (let buf = rd_buf readData;
                           buf1 = (if offset > rd_offset readData then drop (nat (offset - rd_offset readData)) buf else buf);
                           buf2 = (if length buf1 > sz then take sz buf1 else buf1)
                       in (Inr buf2, rc1))))"

definition dropUntilCurrent :: "int \<Rightarrow> read_cache \<Rightarrow> read_cache" where
  "dropUntilCurrent offset rc =
     rc\<lparr>m_cache := dropWhile (\<lambda>rd. \<not> (rd_offset rd \<le> offset \<and> offset < rd_offset rd + int (rd_size rd))) (m_cache rc)\<rparr>"

definition cache_read ::
  "(int \<Rightarrow> nat \<Rightarrow> bytes fut) \<Rightarrow> int \<Rightarrow> nat \<Rightarrow> nat \<Rightarrow> int \<Rightarrow> nat \<Rightarrow> read_cache \<Rightarrow> bytes fut \<times> read_cache" where
  "cache_read h_read offset sz continuousSize now latency rc =
     (let rc1 = (if m_clear rc then rc\<lparr>m_cache := [], m_clear := False\<rparr> else rc);
          rc2 = clearStaleEntries now rc1
      in if isCurrentRead offset rc2 then readFromCache offset sz latency rc2
         else
           (let (blockSize, prefetchCoeff) =
                  (if isSequential offset rc2 then increaseBlockSize rc2 else resetBlockSize);
                rc3 = dropUntilCurrent offset (rc2\<lparr>m_blockSize := blockSize, m_prefetchCoeff := prefetchCoeff\<rparr>);
                rc4 = (if m_cache rc3 = [] then fetch h_read offset sz False now rc3 else rc3);
                rc5 = prefetchIfNeeded h_read offset continuousSize now rc4
            in readFromCache offset sz latency rc5))"

definition wouldPrefetch :: "int \<Rightarrow> read_cache \<Rightarrow> nat" where
  "wouldPrefetch offset rc =
     (if \<not> isCurrentRead offset rc \<and> length (m_cache rc) < 2
      then fst (if isSequential offset rc then increaseBlockSize rc else resetBlockSize)
      else 0)"

definition cache_clear :: "read_cache \<Rightarrow> read_cache" where
  "cache_clear rc = rc\<lparr>m_clear := True\<rparr>"

section \<open>Coherence\<close>

text \<open>Reads of a file with the content \<open>f\<close>, which fail with errors of \<open>E\<close> only.\<close>

definition reads_file :: "cpp_exn set \<Rightarrow> (int \<Rightarrow> nat \<Rightarrow> bytes fut) \<Rightarrow> bytes \<Rightarrow> bool" where
  "reads_file E h_read f \<longleftrightarrow>
     (\<forall>offset sz. 0 \<le> offset \<longrightarrow>
        (case h_read offset sz of Inr b \<Rightarrow> b = take sz (drop (nat offset) f) | Inl e \<Rightarrow> e \<in> E))"

text \<open>A block read holds the bytes of the file at its offset; a block that failed holds none.\<close>

definition block_ok :: "cpp_exn set \<Rightarrow> bytes \<Rightarrow> read_data \<Rightarrow> bool" where
  "block_ok E f rd \<longleftrightarrow>
     0 \<le> rd_offset rd \<and>
     (\<forall>e. rd_promise rd = Inl e \<longrightarrow> e \<in> E) \<and>
     (rd_promise rd = Inr () \<longrightarrow>
        rd_size rd = length (rd_buf rd) \<and> (\<exists>n. rd_buf rd = take n (drop (nat (rd_offset rd)) f)))"

definition coherent :: "cpp_exn set \<Rightarrow> bytes \<Rightarrow> read_cache \<Rightarrow> bool" where
  "coherent E f rc \<longleftrightarrow> m_clear rc \<or> (\<forall>rd \<in> set (m_cache rc). block_ok E f rd)"

lemma fetch_ok:
  assumes "reads_file E h_read f" and "0 \<le> offset" and "\<forall>rd \<in> set (m_cache rc). block_ok E f rd"
  shows "\<forall>rd \<in> set (m_cache (fetch h_read offset sz p now rc)). block_ok E f rd"
proof -
  have "case h_read offset sz of Inr b \<Rightarrow> b = take sz (drop (nat offset) f) | Inl e \<Rightarrow> e \<in> E"
    using assms(1,2) by (simp add: reads_file_def)
  then show ?thesis using assms(2,3) by (auto simp: fetch_def block_ok_def split: sum.split sum.split_asm)
qed

text \<open>What \<^verbatim>\<open>readFromCache\<close> returns from a block that covers the offset, or starts at it.\<close>

lemma readFromCache_file:
  assumes "m_cache rc \<noteq> []" and "block_ok E f (hd (m_cache rc))" and "rd_offset (hd (m_cache rc)) \<le> offset"
    and "fst (readFromCache offset sz latency rc) = Inr b"
  shows "\<exists>n. b = take n (take sz (drop (nat offset) f))"
proof -
  let ?rd = "hd (m_cache rc)"
  let ?k = "nat (offset - rd_offset ?rd)"
  have p: "rd_promise ?rd = Inr ()" using assms(4) by (auto simp: readFromCache_def Let_def split: sum.split_asm)
  then obtain n where n: "rd_buf ?rd = take n (drop (nat (rd_offset ?rd)) f)" and "0 \<le> rd_offset ?rd"
    using assms(2) by (auto simp: block_ok_def)
  then have k: "?k + nat (rd_offset ?rd) = nat offset" using assms(3) by simp
  have "b = [] \<or> b = take sz (drop ?k (rd_buf ?rd))"
    using assms(3,4) p by (auto simp: readFromCache_def Let_def split: if_split_asm)
  moreover have "take sz (drop ?k (rd_buf ?rd)) = take (n - ?k) (take sz (drop (nat offset) f))"
    unfolding n drop_take drop_drop k by (simp add: min.commute)
  ultimately show ?thesis by (metis take0)
qed

lemma readFromCache_nonempty:
  assumes "block_ok E f (hd (m_cache rc))" and "rd_offset (hd (m_cache rc)) \<le> offset"
    and "offset < rd_offset (hd (m_cache rc)) + int (rd_size (hd (m_cache rc)))" and "0 < sz"
    and "fst (readFromCache offset sz latency rc) = Inr b"
  shows "b \<noteq> []"
proof -
  let ?rd = "hd (m_cache rc)"
  have p: "rd_promise ?rd = Inr ()" using assms(5) by (auto simp: readFromCache_def Let_def split: sum.split_asm)
  then have "rd_size ?rd = length (rd_buf ?rd)" using assms(1) by (simp add: block_ok_def)
  then show ?thesis using assms(2,3,4,5) p by (auto simp: readFromCache_def Let_def split: if_split_asm)
qed

lemma readFromCache_error:
  "fst (readFromCache offset sz latency rc) = Inl e \<Longrightarrow> rd_promise (hd (m_cache rc)) = Inl e"
  by (auto simp: readFromCache_def Let_def split: sum.split_asm if_split_asm)

lemma readFromCache_coherent:
  assumes "m_cache rc \<noteq> []" and "\<forall>rd \<in> set (m_cache rc). block_ok E f rd"
  shows "\<forall>rd \<in> set (m_cache (snd (readFromCache offset sz latency rc))). block_ok E f rd"
proof -
  have "block_ok E f (rd\<lparr>rd_measured := x\<rparr>) = block_ok E f rd" for rd x by (simp add: block_ok_def)
  then show ?thesis using assms
    by (auto simp: readFromCache_def Let_def split: sum.split dest: list.set_sel(2))
qed

lemma dropWhile_hd:
  assumes "m_cache rc \<noteq> []" and "m_cache rc = dropWhile P xs"
  shows "\<not> P (hd (m_cache rc))"
  using assms by (metis hd_dropWhile)

lemma prefetch_keeps:
  assumes "m_cache rc \<noteq> []"
  shows "hd (m_cache (prefetchIfNeeded h_read offset c now rc)) = hd (m_cache rc)"
    and "m_cache (prefetchIfNeeded h_read offset c now rc) \<noteq> []"
  using assms by (simp_all add: prefetchIfNeeded_def Let_def fetch_def)

lemma prefetch_ok:
  assumes "reads_file E h_read f" and "m_cache rc \<noteq> []" and "\<forall>rd \<in> set (m_cache rc). block_ok E f rd"
  shows "\<forall>rd \<in> set (m_cache (prefetchIfNeeded h_read offset c now rc)). block_ok E f rd"
proof -
  have "block_ok E f (last (m_cache rc))" using assms(2,3) by simp
  then have "0 \<le> rd_offset (last (m_cache rc)) + int (rd_size (last (m_cache rc)))" by (simp add: block_ok_def)
  then show ?thesis using fetch_ok [OF assms(1) _ assms(3)] assms(3) by (simp add: prefetchIfNeeded_def Let_def)
qed

text \<open>The cache from which \<^verbatim>\<open>read\<close> answers: its front block covers the offset, or was fetched for it.\<close>

definition serving ::
  "(int \<Rightarrow> nat \<Rightarrow> bytes fut) \<Rightarrow> int \<Rightarrow> nat \<Rightarrow> nat \<Rightarrow> int \<Rightarrow> read_cache \<Rightarrow> read_cache" where
  "serving h_read offset sz continuousSize now rc =
     (let rc2 = clearStaleEntries now (if m_clear rc then rc\<lparr>m_cache := [], m_clear := False\<rparr> else rc)
      in if isCurrentRead offset rc2 then rc2
         else
           (let (blockSize, prefetchCoeff) =
                  (if isSequential offset rc2 then increaseBlockSize rc2 else resetBlockSize);
                rc3 = dropUntilCurrent offset (rc2\<lparr>m_blockSize := blockSize, m_prefetchCoeff := prefetchCoeff\<rparr>);
                rc4 = (if m_cache rc3 = [] then fetch h_read offset sz False now rc3 else rc3)
            in prefetchIfNeeded h_read offset continuousSize now rc4))"

lemma cache_read_serving:
  "cache_read h_read offset sz continuousSize now latency rc =
     readFromCache offset sz latency (serving h_read offset sz continuousSize now rc)"
  by (simp add: cache_read_def serving_def Let_def case_prod_beta)

lemma serving_clear: "\<not> m_clear (serving h_read offset sz continuousSize now rc)"
  by (simp add: serving_def clearStaleEntries_def dropUntilCurrent_def fetch_def prefetchIfNeeded_def Let_def case_prod_beta)

lemma readFromCache_clear: "m_clear (snd (readFromCache offset sz latency rc)) = m_clear rc"
  by (simp add: readFromCache_def Let_def split: sum.split)

lemma serving_front:
  assumes "reads_file E h_read f" and "coherent E f rc" and "0 \<le> offset"
  shows "m_cache (serving h_read offset sz c now rc) \<noteq> [] \<and>
    (\<forall>rd \<in> set (m_cache (serving h_read offset sz c now rc)). block_ok E f rd) \<and>
    (let rd = hd (m_cache (serving h_read offset sz c now rc))
     in rd_offset rd \<le> offset \<and> (rd_promise rd = Inr () \<and> nat offset < length f \<and> 0 < sz \<longrightarrow> offset < rd_offset rd + int (rd_size rd)))"
proof -
  let ?rc2 = "clearStaleEntries now (if m_clear rc then rc\<lparr>m_cache := [], m_clear := False\<rparr> else rc)"
  have ok2: "\<forall>rd \<in> set (m_cache ?rc2). block_ok E f rd"
    using assms(2) by (auto simp: coherent_def clearStaleEntries_def dest: set_dropWhileD)
  show ?thesis
  proof (cases "isCurrentRead offset ?rc2")
    case True
    then show ?thesis using ok2 by (auto simp: serving_def Let_def isCurrentRead_def split: list.split_asm)
  next
    case False
    define bc where "bc = (if isSequential offset ?rc2 then increaseBlockSize ?rc2 else resetBlockSize)"
    define rc3 where "rc3 = dropUntilCurrent offset (?rc2\<lparr>m_blockSize := fst bc, m_prefetchCoeff := snd bc\<rparr>)"
    define rc4 where "rc4 = (if m_cache rc3 = [] then fetch h_read offset sz False now rc3 else rc3)"
    have s: "serving h_read offset sz c now rc = prefetchIfNeeded h_read offset c now rc4"
      using False by (simp add: serving_def Let_def case_prod_beta bc_def rc3_def rc4_def)
    have ok3: "\<forall>rd \<in> set (m_cache rc3). block_ok E f rd"
      using ok2 by (auto simp: rc3_def dropUntilCurrent_def dest: set_dropWhileD)
    have ok4: "\<forall>rd \<in> set (m_cache rc4). block_ok E f rd"
      using ok3 fetch_ok [OF assms(1,3) ok3] by (simp add: rc4_def)
    have ne4: "m_cache rc4 \<noteq> []" by (simp add: rc4_def fetch_def)
    have "let rd = hd (m_cache rc4)
       in rd_offset rd \<le> offset \<and> (rd_promise rd = Inr () \<and> nat offset < length f \<and> 0 < sz \<longrightarrow> offset < rd_offset rd + int (rd_size rd))"
    proof (cases "m_cache rc3 = []")
      case True
      show ?thesis
      proof (cases "h_read offset sz")
        case (Inr b)
        then have "b = take sz (drop (nat offset) f)" using assms(1,3) unfolding reads_file_def by (metis sum.case(2))
        then show ?thesis using True Inr by (simp add: rc4_def fetch_def Let_def)
      qed (use True in \<open>simp add: rc4_def fetch_def Let_def\<close>)
    next
      case False
      have "m_cache rc3 = dropWhile (\<lambda>rd. \<not> (rd_offset rd \<le> offset \<and> offset < rd_offset rd + int (rd_size rd))) (m_cache ?rc2)"
        by (simp add: rc3_def dropUntilCurrent_def)
      from dropWhile_hd [OF False this] show ?thesis using False by (simp add: rc4_def Let_def)
    qed
    then show ?thesis unfolding s using prefetch_keeps [OF ne4] prefetch_ok [OF assms(1) ne4 ok4] by simp
  qed
qed

lemma cache_read_file:
  assumes "reads_file E h_read f" and "coherent E f rc" and "0 \<le> offset"
    and "cache_read h_read offset sz c now latency rc = (r, rc')"
  shows "coherent E f rc' \<and> \<not> m_clear rc' \<and> (\<forall>e. r = Inl e \<longrightarrow> e \<in> E) \<and>
    (\<forall>b. r = Inr b \<longrightarrow> (\<exists>n. b = take n (take sz (drop (nat offset) f))) \<and> (nat offset < length f \<and> 0 < sz \<longrightarrow> b \<noteq> []))"
proof -
  let ?s = "serving h_read offset sz c now rc"
  have r: "r = fst (readFromCache offset sz latency ?s)" "rc' = snd (readFromCache offset sz latency ?s)"
    using assms(4) by (simp_all add: cache_read_serving)
  note f = serving_front [OF assms(1-3), of sz c now]
  then have ne: "m_cache ?s \<noteq> []" and ok: "\<forall>rd \<in> set (m_cache ?s). block_ok E f rd" and le: "rd_offset (hd (m_cache ?s)) \<le> offset"
    by (simp_all add: Let_def)
  have hd_ok: "block_ok E f (hd (m_cache ?s))" using ne ok by simp
  have "coherent E f rc' \<and> \<not> m_clear rc'"
    using readFromCache_coherent [OF ne ok] by (simp add: coherent_def r(2) readFromCache_clear serving_clear)
  moreover have "e \<in> E" if "r = Inl e" for e
    using hd_ok readFromCache_error [of offset sz latency ?s e] that r(1) by (simp add: block_ok_def)
  moreover have "\<exists>n. b = take n (take sz (drop (nat offset) f))" if "r = Inr b" for b
    using readFromCache_file [OF ne hd_ok le] that r(1) by simp
  moreover have "b \<noteq> []" if "r = Inr b" "nat offset < length f" "0 < sz" for b
  proof (rule readFromCache_nonempty [OF hd_ok le _ that(3)])
    show "fst (readFromCache offset sz latency ?s) = Inr b" using that(1) r(1) by simp
    then have "rd_promise (hd (m_cache ?s)) = Inr ()"
      by (auto simp: readFromCache_def Let_def split: sum.split_asm)
    then show "offset < rd_offset (hd (m_cache ?s)) + int (rd_size (hd (m_cache ?s)))"
      using f that(2,3) by (simp add: Let_def)
  qed
  ultimately show ?thesis by blast
qed


section \<open>A failed fetch\<close>

text \<open>The state of the cache right after a fetch that failed.\<close>

lemma cache_read_failed:
  assumes "h_read offset sz = Inl e" and "m_cache rc = [] \<or> m_clear rc"
  shows "\<exists>rd rest. m_cache (snd (cache_read h_read offset sz c now latency rc)) = rd # rest \<and> rd_offset rd = offset \<and>
    rd_size rd = sz \<and> rd_t rd = None \<and> rd_promise rd = Inl e" (is ?c)
    and "\<not> m_clear (snd (cache_read h_read offset sz c now latency rc))"
    and "fst (cache_read h_read offset sz c now latency rc) = Inl e"
proof -
  let ?rc2 = "clearStaleEntries now (if m_clear rc then rc\<lparr>m_cache := [], m_clear := False\<rparr> else rc)"
  have "m_cache ?rc2 = []" using assms(2) by (auto simp: clearStaleEntries_def)
  then have "\<exists>rd rest. m_cache (serving h_read offset sz c now rc) = rd # rest \<and> rd_offset rd = offset \<and>
      rd_size rd = sz \<and> rd_t rd = None \<and> rd_promise rd = Inl e"
    using assms(1)
    by (auto simp: serving_def Let_def case_prod_beta isCurrentRead_def isSequential_def dropUntilCurrent_def
        prefetchIfNeeded_def fetch_def)
  then obtain rd rest where s: "m_cache (serving h_read offset sz c now rc) = rd # rest" "rd_offset rd = offset"
    "rd_size rd = sz" "rd_t rd = None" "rd_promise rd = Inl e" by blast
  then show ?c by (simp add: cache_read_serving readFromCache_def)
  show "\<not> m_clear (snd (cache_read h_read offset sz c now latency rc))"
    using s by (simp add: cache_read_serving readFromCache_def serving_clear)
  show "fst (cache_read h_read offset sz c now latency rc) = Inl e"
    using s by (simp add: cache_read_serving readFromCache_def)
qed

lemma cache_read_again:
  assumes "m_cache rc = rd # rest" and "\<not> m_clear rc" and "rd_t rd = None" and "rd_promise rd = Inl e"
    and "rd_offset rd \<le> offset" and "offset < rd_offset rd + int (rd_size rd)"
  shows "cache_read h_read offset sz c now latency rc = (Inl e, rc)"
  using assms by (simp add: cache_read_def clearStaleEntries_def isCurrentRead_def readFromCache_def Let_def)



end
