(* ===== verification/Buffering.thy ===== *)
theory Buffering
  imports ReadCache StorageBase
begin

text \<open>
  \<^verbatim>\<open>src/src/buffering/writeBuffer.h\<close> and \<^verbatim>\<open>bufferAgent.h\<close>: buffered file handles, which
  collect writes and read through a cache, and the guard of the memory their buffers use.
  The wrapped file handle is given by the parameters \<open>h_read\<close>, \<open>h_multiwrite\<close> and the like
  on its state; its calls complete before the next one is made, as the chain of futures of
  the write buffer orders them. The durations measured, the time and latencies are
  parameters of the calls.
\<close>

section \<open>Limits\<close>

text \<open>Durations in seconds, latencies in nanoseconds.\<close>

record BufferLimits =
  readBufferMinSize :: u64
  readBufferMaxSize :: u64
  readBuffersTotalSize :: u64
  prefetchPowerBase :: real
  targetLatency :: nat
  readBufferPrefetchDuration :: int
  writeBufferMinSize :: u64
  writeBufferMaxSize :: u64
  writeBuffersTotalSize :: u64
  writeBufferFlushDelay :: int

text \<open>The limits by default.\<close>

definition default_limits :: BufferLimits where
  "default_limits =
     \<lparr>readBufferMinSize = 5 * 1024 * 1024, readBufferMaxSize = 10 * 1024 * 1024, readBuffersTotalSize = 0,
      prefetchPowerBase = 13 / 10, targetLatency = 1000, readBufferPrefetchDuration = 1,
      writeBufferMinSize = 20 * 1024 * 1024, writeBufferMaxSize = 50 * 1024 * 1024, writeBuffersTotalSize = 0,
      writeBufferFlushDelay = 5\<rparr>"

section \<open>Write buffer\<close>

record write_buffer =
  m_writeBufferMinSize :: u64
  m_writeBufferMaxSize :: u64
  m_bufferedSize :: nat
  m_nextOffset :: int
  m_buffers :: "(int \<times> bytes) list"
  m_bps :: u64
  m_pendingConfirmation :: nat
  m_confirmationFutures :: "(nat \<times> unit fut) list"

definition new_write_buffer :: "u64 \<Rightarrow> u64 \<Rightarrow> write_buffer" where
  "new_write_buffer minSize maxSize =
     \<lparr>m_writeBufferMinSize = minSize, m_writeBufferMaxSize = maxSize, m_bufferedSize = 0,
      m_nextOffset = 0, m_buffers = [], m_bps = 0, m_pendingConfirmation = 0, m_confirmationFutures = []\<rparr>"

definition calculateFlushThreshold :: "write_buffer \<Rightarrow> u64" where
  "calculateFlushThreshold wb = min (m_writeBufferMaxSize wb) (max (m_writeBufferMinSize wb) (2 * m_bps wb))"

definition calculateConfirmThreshold :: "write_buffer \<Rightarrow> u64" where
  "calculateConfirmThreshold wb = 6 * calculateFlushThreshold wb"

text \<open>A buffered file handle: the buffer, the cache and the wrapped handle's state.\<close>

record 's buffered =
  writeBuffer :: write_buffer
  readCache :: read_cache
  wrapped :: 's

type_synonym 's mw = "(int \<times> bytes) list \<Rightarrow> 's \<Rightarrow> nat fut \<times> 's"

text \<open>The bandwidth a finished write adds to the average.\<close>

definition adjust_bps :: "nat \<Rightarrow> u64 \<Rightarrow> write_buffer \<Rightarrow> write_buffer" where
  "adjust_bps sentSize duration wb =
     (if duration > 0
      then (let bandwidth = of_nat sentSize * 1000000000 div duration
            in wb\<lparr>m_bps := (m_bps wb * 1 + bandwidth * 2) div 3\<rparr>)
      else wb)"

definition pushBuffer :: "'s mw \<Rightarrow> u64 \<Rightarrow> 's buffered \<Rightarrow> 's buffered" where
  "pushBuffer h_multiwrite duration x =
     (let wb = writeBuffer x
      in if m_bufferedSize wb = 0 then x
         else
           (let sentSize = m_bufferedSize wb;
                (r, st) = h_multiwrite (m_buffers wb) (wrapped x);
                wb1 = wb\<lparr>m_buffers := [], m_pendingConfirmation := m_pendingConfirmation wb + sentSize,
                         m_bufferedSize := 0\<rparr>
            in case r of
                 Inr _ \<Rightarrow>
                   x\<lparr>wrapped := st, readCache := cache_clear (readCache x),
                     writeBuffer := (adjust_bps sentSize duration wb1)
                       \<lparr>m_confirmationFutures := m_confirmationFutures wb1 @ [(sentSize, Inr ())]\<rparr>\<rparr>
               | Inl e \<Rightarrow>
                   x\<lparr>wrapped := st,
                     writeBuffer := wb1\<lparr>m_confirmationFutures := m_confirmationFutures wb1 @ [(sentSize, Inl e)]\<rparr>\<rparr>))"

fun confirmLoop :: "nat \<Rightarrow> nat \<Rightarrow> (nat \<times> unit fut) list \<Rightarrow> unit fut list \<times> nat \<times> (nat \<times> unit fut) list" where
  "confirmLoop threshold pending [] = ([], pending, [])"
| "confirmLoop threshold pending ((n, fut) # futs) =
     (if pending > threshold
      then (let (fs, p, rest) = confirmLoop threshold (pending - n) futs in (fut # fs, p, rest))
      else ([], pending, (n, fut) # futs))"

fun firstException :: "unit fut list \<Rightarrow> unit fut" where
  "firstException [] = Inr ()"
| "firstException (Inl e # ts) = Inl e"
| "firstException (Inr _ # ts) = firstException ts"

definition confirm :: "nat \<Rightarrow> 's buffered \<Rightarrow> unit fut \<times> 's buffered" where
  "confirm threshold x =
     (let wb = writeBuffer x;
          (fs, pending, rest) = confirmLoop threshold (m_pendingConfirmation wb) (m_confirmationFutures wb)
      in (firstException fs,
          x\<lparr>writeBuffer := wb\<lparr>m_pendingConfirmation := pending, m_confirmationFutures := rest\<rparr>\<rparr>))"

text \<open>A buffer is appended to when the write goes on where the last one ended.\<close>

definition appendBuffer :: "int \<Rightarrow> bytes \<Rightarrow> write_buffer \<Rightarrow> write_buffer" where
  "appendBuffer offset buf wb =
     wb\<lparr>m_buffers := (if m_buffers wb = [] \<or> m_nextOffset wb \<noteq> offset then m_buffers wb @ [(offset, buf)]
                      else butlast (m_buffers wb) @ [(fst (last (m_buffers wb)), snd (last (m_buffers wb)) @ buf)]),
        m_bufferedSize := m_bufferedSize wb + length buf,
        m_nextOffset := offset + int (length buf)\<rparr>"

definition wb_write :: "'s mw \<Rightarrow> int \<Rightarrow> bytes \<Rightarrow> u64 \<Rightarrow> 's buffered \<Rightarrow> nat fut \<times> 's buffered" where
  "wb_write h_multiwrite offset buf duration x =
     (let x1 = x\<lparr>writeBuffer := appendBuffer offset buf (writeBuffer x)\<rparr>
      in if m_bufferedSize (writeBuffer x1) > unat (calculateFlushThreshold (writeBuffer x1))
         then (let x2 = pushBuffer h_multiwrite duration x1;
                   (r, x3) = confirm (unat (calculateConfirmThreshold (writeBuffer x2))) x2
               in (case r of Inl e \<Rightarrow> Inl e | Inr _ \<Rightarrow> Inr (length buf), x3))
         else (Inr (length buf), x1))"

definition wb_fsync :: "'s mw \<Rightarrow> u64 \<Rightarrow> 's buffered \<Rightarrow> unit fut \<times> 's buffered" where
  "wb_fsync h_multiwrite duration x = confirm 0 (pushBuffer h_multiwrite duration x)"

text \<open>The scheduled flush.\<close>

definition scheduledFlush :: "'s mw \<Rightarrow> u64 \<Rightarrow> 's buffered \<Rightarrow> 's buffered" where
  "scheduledFlush h_multiwrite duration x = pushBuffer h_multiwrite duration x"

section \<open>Buffered file handles\<close>

text \<open>A new handle; the times of the cache are in nanoseconds.\<close>

definition BufferedFileHandle :: "BufferLimits \<Rightarrow> 's \<Rightarrow> 's buffered" where
  "BufferedFileHandle bl st =
     \<lparr>writeBuffer = new_write_buffer (writeBufferMinSize bl) (writeBufferMaxSize bl),
      readCache = new_read_cache (unat (readBufferMinSize bl)) (unat (readBufferMaxSize bl))
        (readBufferPrefetchDuration bl * 1000000000) (prefetchPowerBase bl) (targetLatency bl),
      wrapped = st\<rparr>"

definition bh_read ::
  "'s mw \<Rightarrow> (int \<Rightarrow> nat \<Rightarrow> 's \<Rightarrow> bytes fut) \<Rightarrow> int \<Rightarrow> nat \<Rightarrow> nat \<Rightarrow> int \<Rightarrow> nat \<Rightarrow> u64 \<Rightarrow> 's buffered \<Rightarrow>
   bytes fut \<times> 's buffered" where
  "bh_read h_multiwrite h_read offset sz continuousSize now latency duration x =
     (case wb_fsync h_multiwrite duration x of
        (Inl e, x1) \<Rightarrow> (Inl e, x1)
      | (Inr _, x1) \<Rightarrow>
          (let (r, rc) = cache_read (\<lambda>o1 n. h_read o1 n (wrapped x1)) offset sz continuousSize now latency (readCache x1)
           in (r, x1\<lparr>readCache := rc\<rparr>)))"

definition bh_fsync :: "'s mw \<Rightarrow> ('s \<Rightarrow> unit fut \<times> 's) \<Rightarrow> u64 \<Rightarrow> 's buffered \<Rightarrow> unit fut \<times> 's buffered" where
  "bh_fsync h_multiwrite h_fsync duration x =
     (case wb_fsync h_multiwrite duration x of
        (Inl e, x1) \<Rightarrow> (Inl e, x1)
      | (Inr _, x1) \<Rightarrow>
          (let (r, st) = h_fsync (wrapped x1)
           in (r, x1\<lparr>readCache := cache_clear (readCache x1), wrapped := st\<rparr>)))"

definition bh_flush :: "'s mw \<Rightarrow> ('s \<Rightarrow> unit fut \<times> 's) \<Rightarrow> u64 \<Rightarrow> 's buffered \<Rightarrow> unit fut \<times> 's buffered" where
  "bh_flush h_multiwrite h_flush duration x = bh_fsync h_multiwrite h_flush duration x"

definition bh_release :: "'s mw \<Rightarrow> ('s \<Rightarrow> unit fut \<times> 's) \<Rightarrow> u64 \<Rightarrow> 's buffered \<Rightarrow> unit fut \<times> 's buffered" where
  "bh_release h_multiwrite h_release duration x =
     (case wb_fsync h_multiwrite duration x of
        (Inl e, x1) \<Rightarrow> (Inl e, x1)
      | (Inr _, x1) \<Rightarrow> (Inr (), x1\<lparr>wrapped := snd (h_release (wrapped x1))\<rparr>))"

text \<open>\<open>flushUnderlying\<close> flushes the wrapped handle only: what is buffered stays buffered.\<close>

definition bh_flushUnderlying :: "('s \<Rightarrow> unit fut \<times> 's) \<Rightarrow> 's buffered \<Rightarrow> unit fut \<times> 's buffered" where
  "bh_flushUnderlying h_flush x = (let (r, st) = h_flush (wrapped x) in (r, x\<lparr>wrapped := st\<rparr>))"

definition bh_wouldPrefetch :: "int \<Rightarrow> nat \<Rightarrow> 's buffered \<Rightarrow> nat" where
  "bh_wouldPrefetch offset sz x = wouldPrefetch offset (readCache x)"

section \<open>Memory of the buffers\<close>

record guard =
  m_readBuffersReservedSize :: u64
  m_writeBuffersReservedSize :: u64

definition new_guard :: guard where
  "new_guard = \<lparr>m_readBuffersReservedSize = 0, m_writeBuffersReservedSize = 0\<rparr>"

definition reserveBuffers :: "BufferLimits \<Rightarrow> u64 \<Rightarrow> u64 \<Rightarrow> guard \<Rightarrow> bool \<times> guard" where
  "reserveBuffers bl readSize writeSize g =
     (if (readBuffersTotalSize bl = 0 \<or> m_readBuffersReservedSize g + readSize \<le> readBuffersTotalSize bl) \<and>
         (writeBuffersTotalSize bl = 0 \<or> m_writeBuffersReservedSize g + writeSize \<le> writeBuffersTotalSize bl)
      then (True, g\<lparr>m_readBuffersReservedSize := m_readBuffersReservedSize g + readSize,
                    m_writeBuffersReservedSize := m_writeBuffersReservedSize g + writeSize\<rparr>)
      else (False, g))"

definition releaseBuffers :: "u64 \<Rightarrow> u64 \<Rightarrow> guard \<Rightarrow> bool \<times> guard" where
  "releaseBuffers readSize writeSize g =
     (if m_readBuffersReservedSize g - readSize \<ge> 0 \<and> m_writeBuffersReservedSize g - writeSize \<ge> 0
      then (True, g\<lparr>m_readBuffersReservedSize := m_readBuffersReservedSize g - readSize,
                    m_writeBuffersReservedSize := m_writeBuffersReservedSize g - writeSize\<rparr>)
      else (False, g))"

text \<open>
  The agent and its open files: \<open>buffered_files\<close> counts the buffered handles, \<open>plain_files\<close>
  the others.
\<close>

record agent =
  memoryGuard :: guard
  buffered_files :: nat
  plain_files :: nat

text \<open>\<open>opened\<close> is what \<^verbatim>\<open>open\<close> of the helper gives; the result tells whether the handle is buffered.\<close>

definition agent_open :: "BufferLimits \<Rightarrow> unit fut \<Rightarrow> agent \<Rightarrow> bool fut \<times> agent" where
  "agent_open bl opened a =
     (case opened of
        Inl e \<Rightarrow> (Inl e, a)
      | Inr _ \<Rightarrow>
          (case reserveBuffers bl (readBufferMaxSize bl) (writeBufferMaxSize bl) (memoryGuard a) of
             (True, g) \<Rightarrow> (Inr True, a\<lparr>memoryGuard := g, buffered_files := Suc (buffered_files a)\<rparr>)
           | (False, g) \<Rightarrow> (Inr False, a\<lparr>memoryGuard := g, plain_files := Suc (plain_files a)\<rparr>)))"

text \<open>The destructor of a buffered handle.\<close>

definition agent_close :: "BufferLimits \<Rightarrow> agent \<Rightarrow> agent" where
  "agent_close bl a =
     a\<lparr>memoryGuard := snd (releaseBuffers (readBufferMaxSize bl) (writeBufferMaxSize bl) (memoryGuard a)),
       buffered_files := buffered_files a - 1\<rparr>"

inductive agent_runs :: "BufferLimits \<Rightarrow> agent \<Rightarrow> bool" for bl where
  agent_new: "agent_runs bl \<lparr>memoryGuard = new_guard, buffered_files = 0, plain_files = 0\<rparr>"
| agent_opened: "agent_runs bl a \<Longrightarrow> agent_runs bl (snd (agent_open bl opened a))"
| agent_closed: "agent_runs bl a \<Longrightarrow> 0 < buffered_files a \<Longrightarrow> agent_runs bl (agent_close bl a)"
| agent_closed_plain: "agent_runs bl a \<Longrightarrow> 0 < plain_files a \<Longrightarrow> agent_runs bl (a\<lparr>plain_files := plain_files a - 1\<rparr>)"

section \<open>Runs\<close>

text \<open>
  What is done with a buffered handle, with the durations, times and latencies measured.
  \<open>h_sync\<close> is \<^verbatim>\<open>fsync\<close>, \<^verbatim>\<open>flush\<close> and \<^verbatim>\<open>release\<close> of the wrapped handle.
\<close>

datatype sync_op = Fsync | Flush | Release

datatype bh_op =
    BWrite int bytes u64
  | BRead int nat nat int nat u64
  | BSync sync_op u64
  | BTimer u64

datatype bh_result = RWrite "nat fut" | RRead "bytes fut" | RUnit "unit fut"

fun bh_sync :: "'s mw \<Rightarrow> (sync_op \<Rightarrow> 's \<Rightarrow> unit fut \<times> 's) \<Rightarrow> sync_op \<Rightarrow> u64 \<Rightarrow> 's buffered \<Rightarrow> unit fut \<times> 's buffered" where
  "bh_sync h_multiwrite h_sync Fsync d x = bh_fsync h_multiwrite (h_sync Fsync) d x"
| "bh_sync h_multiwrite h_sync Flush d x = bh_flush h_multiwrite (h_sync Flush) d x"
| "bh_sync h_multiwrite h_sync Release d x = bh_release h_multiwrite (h_sync Release) d x"

fun bh_step ::
  "(int \<Rightarrow> nat \<Rightarrow> 's \<Rightarrow> bytes fut) \<Rightarrow> 's mw \<Rightarrow> (sync_op \<Rightarrow> 's \<Rightarrow> unit fut \<times> 's) \<Rightarrow> bh_op \<Rightarrow> 's buffered \<Rightarrow>
   bh_result \<times> 's buffered" where
  "bh_step h_read h_multiwrite h_sync (BWrite offset buf d) x =
     (let (r, x') = wb_write h_multiwrite offset buf d x in (RWrite r, x'))"
| "bh_step h_read h_multiwrite h_sync (BRead offset sz c now lat d) x =
     (let (r, x') = bh_read h_multiwrite h_read offset sz c now lat d x in (RRead r, x'))"
| "bh_step h_read h_multiwrite h_sync (BSync k d) x =
     (let (r, x') = bh_sync h_multiwrite h_sync k d x in (RUnit r, x'))"
| "bh_step h_read h_multiwrite h_sync (BTimer d) x = (RUnit (Inr ()), scheduledFlush h_multiwrite d x)"

fun bh_run ::
  "(int \<Rightarrow> nat \<Rightarrow> 's \<Rightarrow> bytes fut) \<Rightarrow> 's mw \<Rightarrow> (sync_op \<Rightarrow> 's \<Rightarrow> unit fut \<times> 's) \<Rightarrow> bh_op list \<Rightarrow> 's buffered \<Rightarrow>
   bh_result list \<times> 's buffered" where
  "bh_run h_read h_multiwrite h_sync [] x = ([], x)"
| "bh_run h_read h_multiwrite h_sync (op # ops) x =
     (let (r, x1) = bh_step h_read h_multiwrite h_sync op x; (rs, x2) = bh_run h_read h_multiwrite h_sync ops x1
      in (r # rs, x2))"

section \<open>Files\<close>

text \<open>A file as its bytes: a write past the end fills the gap with zeros.\<close>

definition write_at :: "bytes \<Rightarrow> int \<times> bytes \<Rightarrow> bytes" where
  "write_at f w =
     (let off = nat (fst w); b = snd w
      in if b = [] then f else take off f @ replicate (off - length f) 0 @ b @ drop (off + length b) f)"

lemma length_write_at:
  "length (write_at f (off, b)) = (if b = [] then length f else max (length f) (nat off + length b))"
  by (auto simp: write_at_def Let_def)

lemma byte_at_write_at:
  "byte_at (write_at f (off, b)) i =
     (if nat off \<le> i \<and> i < nat off + length b then b ! (i - nat off) else byte_at f i)"
proof (cases "b = []")
  case False
  consider "i < nat off" | "nat off \<le> i" "i < nat off + length b" | "nat off + length b \<le> i" by linarith
  then show ?thesis
  proof cases
    case 1
    then show ?thesis using False by (auto simp: write_at_def Let_def byte_at_def nth_append min_def)
  next
    case 2
    then show ?thesis using False by (auto simp: write_at_def Let_def byte_at_def nth_append min_def)
  next
    case 3
    then show ?thesis using False by (auto simp: write_at_def Let_def byte_at_def nth_append min_def)
  qed
qed (auto simp: write_at_def)

text \<open>Two writes of which the second goes on where the first ended are one write.\<close>

lemma write_at_append:
  assumes "0 \<le> off"
  shows "write_at f (off, a @ b) = write_at (write_at f (off, a)) (off + int (length a), b)"
proof (rule bytes_eqI)
  have n: "nat (off + int (length a)) = nat off + length a" using assms by simp
  show "length (write_at f (off, a @ b)) = length (write_at (write_at f (off, a)) (off + int (length a), b))"
    by (auto simp: length_write_at n)
  show "byte_at (write_at f (off, a @ b)) i = byte_at (write_at (write_at f (off, a)) (off + int (length a), b)) i" for i
    by (auto simp: byte_at_write_at n nth_append)
qed

definition written :: "(int \<times> bytes) list \<Rightarrow> bytes \<Rightarrow> bytes" where
  "written bufs f = foldl write_at f bufs"

lemma written_append: "written (xs @ [w]) f = write_at (written xs f) w"
  by (simp add: written_def)

lemma written_empty: "sum_list (map (length \<circ> snd) bufs) = 0 \<Longrightarrow> written bufs f = f"
  by (induction bufs arbitrary: f) (auto simp: written_def write_at_def Let_def)

section \<open>The wrapped handle\<close>

text \<open>
  A file handle that, as long as it is \<open>usable\<close>, does not fail to write less than \<open>max_write\<close>
  bytes: a read returns the bytes of the file or fails with an error of \<open>E\<close>, writing several
  buffers writes them one after the other, and the other operations keep the file. Until it is
  released it remains usable.
\<close>

locale file_handle =
  fixes h_read :: "int \<Rightarrow> nat \<Rightarrow> 's \<Rightarrow> bytes fut"
    and h_multiwrite :: "'s mw"
    and h_sync :: "sync_op \<Rightarrow> 's \<Rightarrow> unit fut \<times> 's"
    and file_content :: "'s \<Rightarrow> bytes"
    and E :: "cpp_exn set"
    and usable :: "'s \<Rightarrow> bool"
    and max_write :: nat
  assumes read_content: "usable st \<Longrightarrow> reads_file E (\<lambda>offset n. h_read offset n st) (file_content st)"
    and multiwrite_content: "usable st \<Longrightarrow> (\<forall>w \<in> set bufs. 0 \<le> fst w) \<Longrightarrow> sum_list (map (length \<circ> snd) bufs) < max_write \<Longrightarrow>
      \<exists>n st'. h_multiwrite bufs st = (Inr n, st') \<and> usable st' \<and> file_content st' = written bufs (file_content st)"
    and sync_content: "usable st \<Longrightarrow> file_content (snd (h_sync k st)) = file_content st"
    and sync_usable: "usable st \<Longrightarrow> k \<noteq> Release \<Longrightarrow> usable (snd (h_sync k st))"
    and sync_errors: "usable st \<Longrightarrow> fst (h_sync k st) = Inl e \<Longrightarrow> e \<in> E"

text \<open>The file a buffered handle stands for: what is on the storage, with the buffered writes.\<close>

definition buffered_file :: "('s \<Rightarrow> bytes) \<Rightarrow> 's buffered \<Rightarrow> bytes" where
  "buffered_file file_content x = written (m_buffers (writeBuffer x)) (file_content (wrapped x))"

definition buffers_ok :: "write_buffer \<Rightarrow> bool" where
  "buffers_ok wb \<longleftrightarrow>
     (\<forall>w \<in> set (m_buffers wb). 0 \<le> fst w) \<and>
     (m_buffers wb \<noteq> [] \<longrightarrow>
        m_nextOffset wb = fst (last (m_buffers wb)) + int (length (snd (last (m_buffers wb))))) \<and>
     m_bufferedSize wb = sum_list (map (length \<circ> snd) (m_buffers wb)) \<and>
     (\<forall>c \<in> set (m_confirmationFutures wb). snd c = Inr ())"

definition buffered_ok :: "cpp_exn set \<Rightarrow> ('s \<Rightarrow> bool) \<Rightarrow> ('s \<Rightarrow> bytes) \<Rightarrow> 's buffered \<Rightarrow> bool" where
  "buffered_ok E usable file_content x \<longleftrightarrow>
     buffers_ok (writeBuffer x) \<and> coherent E (file_content (wrapped x)) (readCache x) \<and> usable (wrapped x)"

text \<open>Between the operations what is buffered is at most the largest size of the buffer.\<close>

definition within_max :: "nat \<Rightarrow> write_buffer \<Rightarrow> bool" where
  "within_max mx wb \<longleftrightarrow> unat (m_writeBufferMaxSize wb) = mx \<and> m_bufferedSize wb \<le> mx"

definition buffered_inv :: "cpp_exn set \<Rightarrow> ('s \<Rightarrow> bool) \<Rightarrow> nat \<Rightarrow> ('s \<Rightarrow> bytes) \<Rightarrow> 's buffered \<Rightarrow> bool" where
  "buffered_inv E usable mx file_content x \<longleftrightarrow> buffered_ok E usable file_content x \<and> within_max mx (writeBuffer x)"

lemma appendBuffer_ok:
  assumes "buffers_ok wb" and "0 \<le> offset"
  shows "buffers_ok (appendBuffer offset buf wb)"
    and "written (m_buffers (appendBuffer offset buf wb)) f = write_at (written (m_buffers wb) f) (offset, buf)"
proof -
  consider "m_buffers wb = [] \<or> m_nextOffset wb \<noteq> offset"
    | xs o0 b0 where "m_buffers wb = xs @ [(o0, b0)]" "m_nextOffset wb = offset"
    by (metis prod.exhaust rev_exhaust)
  then have "buffers_ok (appendBuffer offset buf wb) \<and>
      written (m_buffers (appendBuffer offset buf wb)) f = write_at (written (m_buffers wb) f) (offset, buf)"
  proof cases
    case 1
    then show ?thesis using assms by (auto simp: appendBuffer_def buffers_ok_def written_append)
  next
    case 2
    then have o: "offset = o0 + int (length b0)" and "0 \<le> o0" using assms(1) by (auto simp: buffers_ok_def)
    then have "write_at g (o0, b0 @ buf) = write_at (write_at g (o0, b0)) (offset, buf)" for g
      using write_at_append by simp
    then show ?thesis using assms 2 o by (auto simp: appendBuffer_def buffers_ok_def written_append)
  qed
  then show "buffers_ok (appendBuffer offset buf wb)"
    and "written (m_buffers (appendBuffer offset buf wb)) f = write_at (written (m_buffers wb) f) (offset, buf)" by blast+
qed

lemma confirmLoop_ok:
  assumes "confirmLoop t p cs = (fs, p', rest)" and "\<forall>c \<in> set cs. snd c = Inr ()"
  shows "firstException fs = Inr () \<and> set rest \<subseteq> set cs"
  using assms by (induction t p cs arbitrary: fs p' rest rule: confirmLoop.induct)
    (auto split: if_split_asm prod.split_asm)

lemma confirm_ok:
  assumes "buffers_ok (writeBuffer x)"
  shows "fst (confirm t x) = Inr () \<and> buffers_ok (writeBuffer (snd (confirm t x))) \<and>
    m_buffers (writeBuffer (snd (confirm t x))) = m_buffers (writeBuffer x) \<and>
    wrapped (snd (confirm t x)) = wrapped x \<and> readCache (snd (confirm t x)) = readCache x"
proof -
  obtain fs p rest where c: "confirmLoop t (m_pendingConfirmation (writeBuffer x)) (m_confirmationFutures (writeBuffer x)) = (fs, p, rest)"
    by (metis prod.exhaust)
  from confirmLoop_ok [OF this] assms have "firstException fs = Inr ()" "set rest \<subseteq> set (m_confirmationFutures (writeBuffer x))"
    by (simp_all add: buffers_ok_def)
  then show ?thesis using assms c by (auto simp: confirm_def Let_def buffers_ok_def)
qed

lemma confirm_keeps:
  assumes "buffered_ok E usable file_content x"
  shows "fst (confirm t x) = Inr () \<and> buffered_ok E usable file_content (snd (confirm t x)) \<and>
    buffered_file file_content (snd (confirm t x)) = buffered_file file_content x \<and> wrapped (snd (confirm t x)) = wrapped x"
  using assms confirm_ok [of x t] by (simp add: buffered_ok_def buffered_file_def)

lemma sizes:
  "m_writeBufferMaxSize (writeBuffer (snd (confirm t x))) = m_writeBufferMaxSize (writeBuffer x)"
  "m_bufferedSize (writeBuffer (snd (confirm t x))) = m_bufferedSize (writeBuffer x)"
  "m_writeBufferMaxSize (writeBuffer (pushBuffer h_multiwrite d x)) = m_writeBufferMaxSize (writeBuffer x)"
  "m_bufferedSize (writeBuffer (pushBuffer h_multiwrite d x)) = 0"
  "m_writeBufferMaxSize (appendBuffer offset buf wb) = m_writeBufferMaxSize wb"
  "m_bufferedSize (appendBuffer offset buf wb) = m_bufferedSize wb + length buf"
  by (simp_all add: confirm_def pushBuffer_def appendBuffer_def adjust_bps_def Let_def case_prod_beta split: sum.split)

lemma flush_threshold: "unat (calculateFlushThreshold wb) \<le> unat (m_writeBufferMaxSize wb)"
  by (simp add: calculateFlushThreshold_def word_le_nat_alt [symmetric])

lemma within_max_steps:
  assumes "within_max mx (writeBuffer x)"
  shows "within_max mx (writeBuffer (pushBuffer h_multiwrite d x))"
    and "within_max mx (writeBuffer (snd (wb_fsync h_multiwrite d x)))"
    and "within_max mx (writeBuffer (snd (wb_write h_multiwrite offset buf d x)))"
proof -
  show "within_max mx (writeBuffer (pushBuffer h_multiwrite d x))"
    and "within_max mx (writeBuffer (snd (wb_fsync h_multiwrite d x)))"
    using assms by (simp_all add: within_max_def wb_fsync_def sizes)
  show "within_max mx (writeBuffer (snd (wb_write h_multiwrite offset buf d x)))"
    using assms flush_threshold [of "appendBuffer offset buf (writeBuffer x)"]
    by (auto simp: within_max_def wb_write_def sizes Let_def case_prod_beta)
qed

context file_handle
begin

lemma pushBuffer_ok:
  assumes "buffered_ok E usable file_content x" and "m_bufferedSize (writeBuffer x) < max_write"
  shows "buffered_ok E usable file_content (pushBuffer h_multiwrite d x) \<and>
    file_content (wrapped (pushBuffer h_multiwrite d x)) = buffered_file file_content x \<and>
    buffered_file file_content (pushBuffer h_multiwrite d x) = buffered_file file_content x"
proof (cases "m_bufferedSize (writeBuffer x) = 0")
  case True
  then have "buffered_file file_content x = file_content (wrapped x)"
    using assms unfolding buffered_file_def buffered_ok_def buffers_ok_def by (metis written_empty)
  then show ?thesis using assms True by (simp add: pushBuffer_def)
next
  case False
  have "\<forall>w \<in> set (m_buffers (writeBuffer x)). 0 \<le> fst w"
    "sum_list (map (length \<circ> snd) (m_buffers (writeBuffer x))) < max_write"
    "usable (wrapped x)"
    using assms by (simp_all add: buffered_ok_def buffers_ok_def)
  from multiwrite_content [OF this(3,1,2)] obtain n st where
    st: "h_multiwrite (m_buffers (writeBuffer x)) (wrapped x) = (Inr n, st)" "usable st"
    "file_content st = written (m_buffers (writeBuffer x)) (file_content (wrapped x))" by blast
  then show ?thesis using assms False
    by (auto simp: pushBuffer_def adjust_bps_def buffered_ok_def buffers_ok_def buffered_file_def written_def
        coherent_def cache_clear_def Let_def)
qed

lemma fsync_ok:
  assumes "buffered_inv E usable mx file_content x" and "mx < max_write"
  shows "fst (wb_fsync h_multiwrite d x) = Inr () \<and> buffered_inv E usable mx file_content (snd (wb_fsync h_multiwrite d x)) \<and>
    file_content (wrapped (snd (wb_fsync h_multiwrite d x))) = buffered_file file_content x \<and>
    buffered_file file_content (snd (wb_fsync h_multiwrite d x)) = buffered_file file_content x"
proof -
  have w: "within_max mx (writeBuffer x)" and "buffered_ok E usable file_content x" "m_bufferedSize (writeBuffer x) < max_write"
    using assms by (simp_all add: buffered_inv_def within_max_def)
  from pushBuffer_ok [OF this(2,3), of d] within_max_steps(2) [OF w]
    confirm_keeps [of E usable file_content "pushBuffer h_multiwrite d x" 0]
  show ?thesis by (simp add: wb_fsync_def buffered_inv_def)
qed

lemma write_ok:
  assumes "buffered_inv E usable mx file_content x" and "0 \<le> offset" and "length buf + mx < max_write"
  shows "fst (wb_write h_multiwrite offset buf d x) = Inr (length buf) \<and>
    buffered_inv E usable mx file_content (snd (wb_write h_multiwrite offset buf d x)) \<and>
    buffered_file file_content (snd (wb_write h_multiwrite offset buf d x)) =
      write_at (buffered_file file_content x) (offset, buf)"
proof -
  let ?x1 = "x\<lparr>writeBuffer := appendBuffer offset buf (writeBuffer x)\<rparr>"
  have w: "within_max mx (writeBuffer x)" and b: "buffers_ok (writeBuffer x)"
    using assms(1) by (simp_all add: buffered_inv_def buffered_ok_def)
  have 1: "buffered_ok E usable file_content ?x1"
    "buffered_file file_content ?x1 = write_at (buffered_file file_content x) (offset, buf)"
    using appendBuffer_ok [OF b assms(2)] assms(1) by (simp_all add: buffered_inv_def buffered_ok_def buffered_file_def)
  have "m_bufferedSize (writeBuffer ?x1) < max_write" using w assms(3) by (simp add: within_max_def sizes)
  note 2 = pushBuffer_ok [OF 1(1) this, of d]
  note 3 = confirm_keeps [OF 2 [THEN conjunct1], of "unat (calculateConfirmThreshold (writeBuffer (pushBuffer h_multiwrite d ?x1)))"]
  show ?thesis unfolding buffered_inv_def
    using 1 2 3 within_max_steps(3) [OF w] by (simp add: wb_write_def Let_def case_prod_beta)
qed

lemma read_ok:
  assumes "buffered_inv E usable mx file_content x" and "mx < max_write" and "0 \<le> offset"
    and "bh_read h_multiwrite h_read offset sz c now lat d x = (r, x')"
  shows "buffered_inv E usable mx file_content x' \<and> buffered_file file_content x' = buffered_file file_content x \<and>
    (\<forall>e. r = Inl e \<longrightarrow> e \<in> E) \<and>
    (\<forall>b. r = Inr b \<longrightarrow> (\<exists>n. b = take n (take sz (drop (nat offset) (buffered_file file_content x)))) \<and>
       (nat offset < length (buffered_file file_content x) \<and> 0 < sz \<longrightarrow> b \<noteq> []))"
proof -
  let ?x1 = "snd (wb_fsync h_multiwrite d x)"
  note f = fsync_ok [OF assms(1,2), of d]
  obtain rc where rc: "cache_read (\<lambda>o1 n. h_read o1 n (wrapped ?x1)) offset sz c now lat (readCache ?x1) = (r, rc)"
    and x': "x' = ?x1\<lparr>readCache := rc\<rparr>"
    using assms(4) f by (auto simp: bh_read_def Let_def split: prod.split_asm sum.split_asm)
  have u: "coherent E (file_content (wrapped ?x1)) (readCache ?x1)" "usable (wrapped ?x1)"
    using f [THEN conjunct2, THEN conjunct1] by (simp_all add: buffered_inv_def buffered_ok_def)
  note c = cache_read_file [OF read_content [OF u(2)] u(1) assms(3) rc]
  have "buffered_file file_content x' = buffered_file file_content ?x1" by (simp add: x' buffered_file_def)
  moreover have "buffered_inv E usable mx file_content x'"
    using f [THEN conjunct2, THEN conjunct1] c by (simp add: x' buffered_inv_def buffered_ok_def)
  ultimately show ?thesis using c f by simp
qed

end

section \<open>A buffered handle is the file\<close>

text \<open>The same operations on a plain file: the file after each, and the results it allows.\<close>

fun file_step :: "bh_op \<Rightarrow> bytes \<Rightarrow> bytes" where
  "file_step (BWrite offset buf _) f = write_at f (offset, buf)"
| "file_step _ f = f"

fun allowed :: "cpp_exn set \<Rightarrow> bh_op \<Rightarrow> bytes \<Rightarrow> bh_result \<Rightarrow> bool" where
  "allowed E (BWrite _ buf _) f r = (r = RWrite (Inr (length buf)))"
| "allowed E (BRead offset sz _ _ _ _) f r =
     (case r of
        RRead (Inr b) \<Rightarrow> (\<exists>n. b = take n (take sz (drop (nat offset) f))) \<and> (nat offset < length f \<and> 0 < sz \<longrightarrow> b \<noteq> [])
      | RRead (Inl e) \<Rightarrow> e \<in> E
      | _ \<Rightarrow> False)"
| "allowed E (BSync _ _) f r = (case r of RUnit (Inr _) \<Rightarrow> True | RUnit (Inl e) \<Rightarrow> e \<in> E | _ \<Rightarrow> False)"
| "allowed E (BTimer _) f r = (r = RUnit (Inr ()))"

fun all_allowed :: "cpp_exn set \<Rightarrow> bh_op list \<Rightarrow> bytes \<Rightarrow> bh_result list \<Rightarrow> bool" where
  "all_allowed E [] f rs = (rs = [])"
| "all_allowed E (op # ops) f rs =
     (case rs of [] \<Rightarrow> False | r # rs' \<Rightarrow> allowed E op f r \<and> all_allowed E ops (file_step op f) rs')"

text \<open>Operations at valid offsets that fit in one write with a full buffer, before the release.\<close>

fun op_ok :: "nat \<Rightarrow> nat \<Rightarrow> bh_op \<Rightarrow> bool" where
  "op_ok mx max_write (BWrite offset buf _) = (0 \<le> offset \<and> length buf + mx < max_write)"
| "op_ok mx max_write (BRead offset _ _ _ _ _) = (0 \<le> offset)"
| "op_ok mx max_write (BSync k _) = (k \<noteq> Release)"
| "op_ok mx max_write (BTimer _) = True"

lemma coherent_cleared: "coherent E f (cache_clear rc)"
  by (simp add: coherent_def cache_clear_def)

context file_handle
begin

lemma sync_ok:
  assumes "buffered_inv E usable mx file_content x" and "mx < max_write"
  shows "(k \<noteq> Release \<longrightarrow> buffered_inv E usable mx file_content (snd (bh_sync h_multiwrite h_sync k d x))) \<and>
    buffered_file file_content (snd (bh_sync h_multiwrite h_sync k d x)) = buffered_file file_content x \<and>
    file_content (wrapped (snd (bh_sync h_multiwrite h_sync k d x))) = buffered_file file_content x \<and>
    (\<forall>e. fst (bh_sync h_multiwrite h_sync k d x) = Inl e \<longrightarrow> e \<in> E)"
proof -
  obtain x1 where w: "wb_fsync h_multiwrite d x = (Inr (), x1)" using fsync_ok [OF assms, of d] by (metis prod.collapse)
  let ?st = "snd (h_sync k (wrapped x1))"
  note f = fsync_ok [OF assms, of d, unfolded w fst_conv snd_conv]
  have s: "snd (bh_sync h_multiwrite h_sync k d x) \<in>
      {x1\<lparr>readCache := cache_clear (readCache x1), wrapped := ?st\<rparr>, x1\<lparr>wrapped := ?st\<rparr>}"
    by (cases k) (simp_all add: bh_fsync_def bh_flush_def bh_release_def w case_prod_beta)
  have e: "fst (bh_sync h_multiwrite h_sync k d x) \<in> {fst (h_sync k (wrapped x1)), Inr ()}"
    by (cases k) (simp_all add: bh_fsync_def bh_flush_def bh_release_def w case_prod_beta)
  have i: "buffers_ok (writeBuffer x1)" "coherent E (file_content (wrapped x1)) (readCache x1)" "usable (wrapped x1)"
    "within_max mx (writeBuffer x1)"
    using f [THEN conjunct2, THEN conjunct1] by (simp_all add: buffered_inv_def buffered_ok_def)
  have "buffered_file file_content y = buffered_file file_content x1 \<and>
      (k \<noteq> Release \<longrightarrow> buffered_inv E usable mx file_content y) \<and>
      file_content (wrapped y) = file_content (wrapped x1)"
    if "y \<in> {x1\<lparr>readCache := cache_clear (readCache x1), wrapped := ?st\<rparr>, x1\<lparr>wrapped := ?st\<rparr>}" for y
    using that i sync_content [OF i(3)] sync_usable [OF i(3)]
    by (auto simp: buffered_file_def buffered_inv_def buffered_ok_def coherent_cleared)
  from this [OF s] show ?thesis using f e sync_errors [OF i(3)] by auto
qed

lemma step_refines:
  assumes "buffered_inv E usable mx file_content x" and "mx < max_write" and "op_ok mx max_write op"
    and "bh_step h_read h_multiwrite h_sync op x = (r, x')"
  shows "buffered_inv E usable mx file_content x' \<and> allowed E op (buffered_file file_content x) r \<and>
    buffered_file file_content x' = file_step op (buffered_file file_content x)"
proof (cases op)
  case (BWrite offset buf d)
  then show ?thesis using write_ok [OF assms(1), of offset buf d] assms(2-4) by (auto simp: Let_def case_prod_beta)
next
  case (BRead offset sz c now lat d)
  moreover obtain b y where "bh_read h_multiwrite h_read offset sz c now lat d x = (b, y)" by (metis prod.exhaust)
  ultimately show ?thesis using read_ok [OF assms(1), of offset sz c now lat d b y] assms(2-4)
    by (auto split: sum.split)
next
  case (BSync k d)
  then show ?thesis using sync_ok [OF assms(1,2), of k d] assms(3,4) by (auto simp: Let_def case_prod_beta split: sum.split)
next
  case (BTimer d)
  then show ?thesis using pushBuffer_ok [of x d] within_max_steps(1) [of mx x h_multiwrite d] assms(1,2,4)
    by (auto simp: scheduledFlush_def buffered_inv_def within_max_def)
qed

lemma run_refines:
  assumes "buffered_inv E usable mx file_content x" and "mx < max_write" and "\<forall>op \<in> set ops. op_ok mx max_write op"
    and "bh_run h_read h_multiwrite h_sync ops x = (rs, x')"
  shows "all_allowed E ops (buffered_file file_content x) rs \<and> buffered_inv E usable mx file_content x' \<and>
    buffered_file file_content x' = fold file_step ops (buffered_file file_content x)"
  using assms
proof (induction ops arbitrary: x rs)
  case (Cons op ops)
  obtain r x1 where s: "bh_step h_read h_multiwrite h_sync op x = (r, x1)" by (metis prod.exhaust)
  obtain rs1 where b: "bh_run h_read h_multiwrite h_sync ops x1 = (rs1, x')" "rs = r # rs1"
    using Cons.prems(4) s by (auto split: prod.split_asm)
  have "op_ok mx max_write op" using Cons.prems(3) by simp
  note step_refines [OF Cons.prems(1,2) this s]
  then show ?case using Cons.IH [OF _ _ _ b(1)] Cons.prems(2,3) b(2) by simp
qed simp

lemma released_content:
  assumes "usable st" and "\<forall>op \<in> set ops. op_ok (unat (writeBufferMaxSize bl)) max_write op"
    and "unat (writeBufferMaxSize bl) < max_write"
    and "bh_run h_read h_multiwrite h_sync ops (BufferedFileHandle bl st) = (rs, x)"
  shows "all_allowed E ops (file_content st) rs \<and>
    file_content (wrapped (snd (bh_sync h_multiwrite h_sync k d x))) = fold file_step ops (file_content st)"
proof -
  have "buffered_inv E usable (unat (writeBufferMaxSize bl)) file_content (BufferedFileHandle bl st)"
    using assms(1) by (simp add: buffered_inv_def buffered_ok_def within_max_def BufferedFileHandle_def buffers_ok_def new_write_buffer_def coherent_def new_read_cache_def)
  moreover have "buffered_file file_content (BufferedFileHandle bl st) = file_content st"
    by (simp add: buffered_file_def BufferedFileHandle_def new_write_buffer_def written_def)
  ultimately have r: "all_allowed E ops (file_content st) rs" "buffered_inv E usable (unat (writeBufferMaxSize bl)) file_content x"
    "buffered_file file_content x = fold file_step ops (file_content st)"
    using run_refines [OF _ assms(3,2,4)] by simp_all
  then show ?thesis using sync_ok [OF r(2) assms(3), of k d] by simp
qed

end


section \<open>Handles that write buffers one by one\<close>

text \<open>A handle with the \<^verbatim>\<open>multiwrite\<close> of the base class, whose \<^verbatim>\<open>write\<close> is a write to the file for less than \<open>max_write\<close> bytes.\<close>

definition writes_file :: "('s \<Rightarrow> bool) \<Rightarrow> nat \<Rightarrow> ('s \<Rightarrow> bytes) \<Rightarrow> (int \<Rightarrow> bytes \<Rightarrow> 's \<Rightarrow> nat fut \<times> 's) \<Rightarrow> bool" where
  "writes_file usable max_write file_content h_write \<longleftrightarrow>
     (\<forall>off buf st. usable st \<longrightarrow> 0 \<le> off \<longrightarrow> length buf < max_write \<longrightarrow>
        (\<exists>st'. h_write off buf st = (Inr (length buf), st') \<and> usable st' \<and> file_content st' = write_at (file_content st) (off, buf)))"

lemma multiwriteFrom_written:
  assumes "writes_file usable max_write file_content h_write" and "usable st" and "\<forall>w \<in> set bufs. 0 \<le> fst w"
    and "sum_list (map (length \<circ> snd) bufs) < max_write"
  shows "\<exists>n st'. multiwriteFrom h_write should (Inr should) bufs st = (Inr n, st') \<and> usable st' \<and>
    file_content st' = written bufs (file_content st)"
  using assms(2-4)
proof (induction bufs arbitrary: should st)
  case (Cons w bufs)
  obtain off buf where w: "w = (off, buf)" by force
  have "length buf < max_write" "0 \<le> off" using Cons.prems by (auto simp: w)
  with Cons.prems(1) obtain st1 where st1: "h_write off buf st = (Inr (length buf), st1)" "usable st1"
    "file_content st1 = write_at (file_content st) (off, buf)"
    using assms(1) unfolding writes_file_def by blast
  from Cons.IH [of st1 "should + length buf"] Cons.prems st1(2) show ?case by (simp add: w st1(1,3) written_def)
qed (simp add: written_def)

lemma multiwrite_written:
  assumes "writes_file usable max_write file_content h_write" and "usable st" and "\<forall>w \<in> set bufs. 0 \<le> fst w"
    and "sum_list (map (length \<circ> snd) bufs) < max_write"
  shows "\<exists>n st'. multiwrite h_write bufs st = (Inr n, st') \<and> usable st' \<and> file_content st' = written bufs (file_content st)"
  unfolding multiwrite_def by (rule multiwriteFrom_written [OF assms])

text \<open>The operations a handle inherits from \<^verbatim>\<open>FileHandle\<close>.\<close>

definition default_sync :: "sync_op \<Rightarrow> 's \<Rightarrow> unit fut \<times> 's" where
  "default_sync c st = (Inr (), st)"

text \<open>A file in memory.\<close>

abbreviation memory_read :: "int \<Rightarrow> nat \<Rightarrow> bytes \<Rightarrow> bytes fut" where
  "memory_read offset n f \<equiv> Inr (take n (drop (nat offset) f))"

abbreviation memory_write :: "int \<Rightarrow> bytes \<Rightarrow> bytes \<Rightarrow> nat fut \<times> bytes" where
  "memory_write offset buf f \<equiv> (Inr (length buf), write_at f (offset, buf))"

abbreviation memory_sync :: "sync_op \<Rightarrow> bytes \<Rightarrow> unit fut \<times> bytes" where
  "memory_sync k f \<equiv> (Inr (), f)"

lemma memory_writes_file: "writes_file (\<lambda>_. True) max_write (\<lambda>f. f) memory_write"
  by (simp add: writes_file_def)

interpretation memory_file: file_handle memory_read "multiwrite memory_write" memory_sync "\<lambda>f. f" "{}" "\<lambda>_. True" "2 ^ 64"
  using multiwrite_written [OF memory_writes_file [of "2 ^ 64"]] by unfold_locales (simp_all add: reads_file_def)

text \<open>
  C37. A buffered handle is the file. Whatever is written, read, synchronised and flushed by
  the timer, in any order and with any limits, each result is one the plain file allows:
  writes report all their bytes; reads return a prefix of the bytes of the file, with all the
  writes before them, and not nothing before the end of the file; no error comes but those of
  reading from and synchronising the wrapped handle. After \<^verbatim>\<open>fsync\<close>, \<^verbatim>\<open>flush\<close> or \<^verbatim>\<open>release\<close> the file on the
  storage is the one written. \<open>max_write\<close> is what the wrapped handle writes at once: a write and a full
  buffer are below it. The handle is usable until its release, which comes last.
\<close>

theorem buffered_handle_is_file:
  assumes "file_handle h_read h_multiwrite h_sync file_content E usable max_write"
    and "usable st" and "\<forall>op \<in> set ops. op_ok (unat (writeBufferMaxSize bl)) max_write op"
    and "unat (writeBufferMaxSize bl) < max_write"
    and "bh_run h_read h_multiwrite h_sync ops (BufferedFileHandle bl st) = (rs, x)"
  shows "all_allowed E ops (file_content st) rs \<and>
    file_content (wrapped (snd (bh_sync h_multiwrite h_sync k d x))) = fold file_step ops (file_content st)"
  by (rule file_handle.released_content [OF assms])

abbreviation small_limits :: BufferLimits where
  "small_limits \<equiv>
     \<lparr>readBufferMinSize = 2, readBufferMaxSize = 4, readBuffersTotalSize = 10, prefetchPowerBase = 2, targetLatency = 1,
      readBufferPrefetchDuration = 1, writeBufferMinSize = 2, writeBufferMaxSize = 4, writeBuffersTotalSize = 0,
      writeBufferFlushDelay = 5\<rparr>"

theorem buffered_handle_is_file_witness:
  "wrapped (snd (bh_sync (multiwrite memory_write) memory_sync Release 7 (snd (bh_run memory_read (multiwrite memory_write) memory_sync
     [BWrite 0 [1, 2] 5, BRead 1 9 9 0 3 5, BWrite 2 [3, 4, 5] 5, BWrite 6 [7] 5, BTimer 4, BRead 1 2 9 1 3 5, BWrite 0 [9] 1]
     (BufferedFileHandle small_limits []))))) = [9, 2, 3, 4, 5, 0, 7]"
proof -
  let ?ops = "[BWrite 0 [1, 2] 5, BRead 1 9 9 0 3 5, BWrite 2 [3, 4, 5] 5, BWrite 6 [7] 5, BTimer 4, BRead 1 2 9 1 3 5, BWrite 0 [9] 1]"
  obtain rs x where r: "bh_run memory_read (multiwrite memory_write) memory_sync ?ops (BufferedFileHandle small_limits []) = (rs, x)"
    by (rule prod.exhaust)
  have "wrapped (snd (bh_sync (multiwrite memory_write) memory_sync Release 7 x)) = fold file_step ?ops []"
    by (rule buffered_handle_is_file [OF memory_file.file_handle_axioms _ _ _ r, THEN conjunct2]) simp_all
  also have "\<dots> = [9, 2, 3, 4, 5, 0, 7]" by (simp add: write_at_def)
  finally show ?thesis unfolding r snd_conv .
qed


section \<open>Failed writes\<close>

text \<open>
  What is pending is what the futures not yet confirmed are for, so that the loop of
  \<^verbatim>\<open>confirm\<close> never takes the front of an empty queue.
\<close>

definition pending_ok :: "write_buffer \<Rightarrow> bool" where
  "pending_ok wb \<longleftrightarrow>
     m_pendingConfirmation wb = sum_list (map fst (m_confirmationFutures wb)) \<and>
     (\<forall>c \<in> set (m_confirmationFutures wb). 0 < fst c)"

lemma confirmLoop_pending:
  assumes "confirmLoop t (sum_list (map fst cs)) cs = (fs, p, rest)"
  shows "p = sum_list (map fst rest) \<and> set rest \<subseteq> set cs"
  using assms
proof (induction cs arbitrary: fs p rest)
  case (Cons c cs)
  then show ?case by (cases c) (auto split: if_split_asm prod.split_asm)
qed simp

lemma confirmLoop_all:
  assumes "\<forall>c \<in> set cs. 0 < fst c"
  shows "confirmLoop 0 (sum_list (map fst cs)) cs = (map snd cs, 0, [])"
  using assms
proof (induction cs)
  case (Cons c cs)
  then show ?case by (cases c) auto
qed simp

lemma confirm_pending:
  assumes "pending_ok (writeBuffer x)"
  shows "pending_ok (writeBuffer (snd (confirm t x)))"
proof -
  obtain fs p rest where "confirmLoop t (m_pendingConfirmation (writeBuffer x)) (m_confirmationFutures (writeBuffer x)) = (fs, p, rest)"
    by (metis prod.exhaust)
  then show ?thesis using assms confirmLoop_pending [of t "m_confirmationFutures (writeBuffer x)" fs p rest]
    by (auto simp: confirm_def pending_ok_def Let_def)
qed

lemma pushBuffer_pending:
  assumes "pending_ok (writeBuffer x)"
  shows "pending_ok (writeBuffer (pushBuffer h_multiwrite d x))"
  using assms by (auto simp: pushBuffer_def pending_ok_def adjust_bps_def Let_def split: prod.split sum.split)

lemma wb_pending:
  assumes "pending_ok (writeBuffer x)"
  shows "pending_ok (writeBuffer (snd (wb_write h_multiwrite offset buf d x)))"
    and "pending_ok (writeBuffer (snd (wb_fsync h_multiwrite d x)))"
proof -
  let ?x1 = "x\<lparr>writeBuffer := appendBuffer offset buf (writeBuffer x)\<rparr>"
  have "pending_ok (writeBuffer ?x1)" using assms by (simp add: pending_ok_def appendBuffer_def)
  then show "pending_ok (writeBuffer (snd (wb_write h_multiwrite offset buf d x)))"
    using confirm_pending [OF pushBuffer_pending [of ?x1 h_multiwrite d]] by (simp add: wb_write_def Let_def case_prod_beta)
  show "pending_ok (writeBuffer (snd (wb_fsync h_multiwrite d x)))"
    using confirm_pending [OF pushBuffer_pending [OF assms]] by (simp add: wb_fsync_def)
qed

lemma sync_writeBuffer:
  "writeBuffer (snd (bh_sync h_multiwrite h_sync k d x)) = writeBuffer (snd (wb_fsync h_multiwrite d x))"
  by (cases k) (simp_all add: bh_fsync_def bh_flush_def bh_release_def split: prod.split sum.split)

lemma read_writeBuffer:
  "writeBuffer (snd (bh_read h_multiwrite h_read offset sz c now lat d x)) = writeBuffer (snd (wb_fsync h_multiwrite d x))"
  by (simp add: bh_read_def split: prod.split sum.split)

lemma step_pending:
  assumes "pending_ok (writeBuffer x)"
  shows "pending_ok (writeBuffer (snd (bh_step h_read h_multiwrite h_sync op x)))"
  using wb_pending [OF assms] pushBuffer_pending [OF assms]
  by (cases op) (simp_all add: scheduledFlush_def sync_writeBuffer read_writeBuffer case_prod_beta)

lemma run_pending:
  assumes "pending_ok (writeBuffer x)"
  shows "pending_ok (writeBuffer (snd (bh_run h_read h_multiwrite h_sync ops x)))"
  using assms
proof (induction ops arbitrary: x)
  case (Cons op ops)
  from Cons.IH [OF step_pending [OF Cons.prems]] show ?case by (simp add: case_prod_beta)
qed simp

lemma fsync_confirms:
  assumes "pending_ok (writeBuffer x)"
  shows "fst (wb_fsync h_multiwrite d x) = firstException (map snd (m_confirmationFutures (writeBuffer x)) @
      (if m_bufferedSize (writeBuffer x) = 0 then []
       else [map_sum id (\<lambda>_. ()) (fst (h_multiwrite (m_buffers (writeBuffer x)) (wrapped x)))])) \<and>
    m_confirmationFutures (writeBuffer (snd (wb_fsync h_multiwrite d x))) = []"
proof -
  let ?x1 = "pushBuffer h_multiwrite d x"
  have p: "pending_ok (writeBuffer ?x1)" by (rule pushBuffer_pending [OF assms])
  then have "confirmLoop 0 (m_pendingConfirmation (writeBuffer ?x1)) (m_confirmationFutures (writeBuffer ?x1)) =
      (map snd (m_confirmationFutures (writeBuffer ?x1)), 0, [])"
    using confirmLoop_all by (simp add: pending_ok_def)
  moreover have "map snd (m_confirmationFutures (writeBuffer ?x1)) = map snd (m_confirmationFutures (writeBuffer x)) @
      (if m_bufferedSize (writeBuffer x) = 0 then []
       else [map_sum id (\<lambda>_. ()) (fst (h_multiwrite (m_buffers (writeBuffer x)) (wrapped x)))])"
    by (auto simp: pushBuffer_def adjust_bps_def Let_def split: prod.split sum.split)
  ultimately show ?thesis by (simp add: wb_fsync_def confirm_def Let_def)
qed



section \<open>Bounds of the buffers\<close>

text \<open>Reservations of \<open>n\<close> handles of a limited total that leaves room for one sum.\<close>

definition reserved :: "u64 \<Rightarrow> u64 \<Rightarrow> u64 \<Rightarrow> nat \<Rightarrow> bool" where
  "reserved total_size sz r n \<longleftrightarrow>
     (total_size \<noteq> 0 \<and> unat total_size + unat sz < 2 ^ 64 \<longrightarrow> unat r = n * unat sz \<and> n * unat sz \<le> unat total_size)"

lemma reserved_add:
  assumes "reserved t sz r n" and "t = 0 \<or> r + sz \<le> t"
  shows "reserved t sz (r + sz) (Suc n)"
proof -
  have "unat (r + sz) = unat r + unat sz" if "unat r \<le> unat t" "unat t + unat sz < 2 ^ 64"
    using that by (intro unat_add_lem [THEN iffD1]) simp
  then show ?thesis using assms by (auto simp: reserved_def word_le_nat_alt)
qed

lemma reserved_sub:
  assumes "reserved t sz r (Suc n)"
  shows "reserved t sz (r - sz) n"
proof -
  have "unat (r - sz) = unat r - unat sz" if "unat r = Suc n * unat sz"
    by (rule unat_sub) (simp add: word_le_nat_alt that)
  then show ?thesis using assms by (auto simp: reserved_def)
qed

lemma agent_reserved:
  assumes "agent_runs bl a"
  shows "reserved (readBuffersTotalSize bl) (readBufferMaxSize bl) (m_readBuffersReservedSize (memoryGuard a)) (buffered_files a) \<and>
    reserved (writeBuffersTotalSize bl) (writeBufferMaxSize bl) (m_writeBuffersReservedSize (memoryGuard a)) (buffered_files a)"
  using assms
proof induction
  case agent_new
  then show ?case by (simp add: reserved_def new_guard_def)
next
  case (agent_opened a opened)
  then show ?case by (auto simp: agent_open_def reserveBuffers_def intro: reserved_add split: sum.split)
next
  case (agent_closed a)
  then obtain n where "buffered_files a = Suc n" using gr0_conv_Suc by auto
  then show ?case using agent_closed.IH by (auto simp: agent_close_def releaseBuffers_def intro: reserved_sub)
qed simp

text \<open>
  C39. The buffers of the open files stay within the limits: whatever files are opened and
  closed, the number of buffered handles times the size of their read buffers is at most
  the total size allowed for read buffers, and so for write buffers, and the guard's counter
  is exactly this product. The total is limited when it is not 0; the sum of the total and
  of one buffer is within 64 bits, since else the sum of the guard's test wraps around.
\<close>

theorem memory_guard_bounds:
  assumes "agent_runs bl a"
    and "unat (readBuffersTotalSize bl) + unat (readBufferMaxSize bl) < 2 ^ 64"
    and "unat (writeBuffersTotalSize bl) + unat (writeBufferMaxSize bl) < 2 ^ 64"
  shows "(readBuffersTotalSize bl \<noteq> 0 \<longrightarrow>
      unat (m_readBuffersReservedSize (memoryGuard a)) = buffered_files a * unat (readBufferMaxSize bl) \<and>
      buffered_files a * unat (readBufferMaxSize bl) \<le> unat (readBuffersTotalSize bl)) \<and>
    (writeBuffersTotalSize bl \<noteq> 0 \<longrightarrow>
      unat (m_writeBuffersReservedSize (memoryGuard a)) = buffered_files a * unat (writeBufferMaxSize bl) \<and>
      buffered_files a * unat (writeBufferMaxSize bl) \<le> unat (writeBuffersTotalSize bl))"
  using agent_reserved [OF assms(1)] assms(2,3) by (simp add: reserved_def)

theorem memory_guard_bounds_witness:
  "let open_file = (\<lambda>a. snd (agent_open small_limits (Inr ()) a));
       a = open_file (open_file (open_file \<lparr>memoryGuard = new_guard, buffered_files = 0, plain_files = 0\<rparr>))
   in buffered_files a = 2 \<and> plain_files a = 1 \<and> buffered_files a * 4 \<le> (10 :: nat)"
proof -
  let ?o = "\<lambda>a. snd (agent_open small_limits (Inr ()) a)"
  let ?a = "?o (?o (?o \<lparr>memoryGuard = new_guard, buffered_files = 0, plain_files = 0\<rparr>))"
  have "agent_runs small_limits ?a" by (intro agent_runs.intros)
  from memory_guard_bounds [OF this] have "buffered_files ?a * 4 \<le> 10" by simp
  moreover have "buffered_files ?a = 2" "plain_files ?a = 1" by (simp_all add: agent_open_def reserveBuffers_def new_guard_def)
  ultimately show ?thesis by simp
qed

end
