(* ===== verification/Posix.thy ===== *)
theory Posix
  imports Buffering
begin

unbundle bit_operations_syntax

text \<open>
  \<^verbatim>\<open>src/src/posixHelper.cc\<close> and \<^verbatim>\<open>posixHelper.h\<close>: files of a mounted file system. The system calls are
  the parameter \<open>kernel\<close>, on a kernel state; a call gives \<open>Inl errno\<close> where it returns \<open>-1\<close> or a
  null pointer. Operations run to their end within the call.
\<close>

section \<open>System calls\<close>

text \<open>The calls that return no value.\<close>

datatype unit_call =
    sys_close int
  | sys_fsync int
  | sys_access string int
  | sys_mkfifo string u32
  | sys_mknod string u32 u64
  | sys_mkdir string u32
  | sys_unlink string
  | sys_rmdir string
  | sys_symlink string string
  | sys_rename string string
  | sys_link string string
  | sys_chmod string u32
  | sys_chown string u32 u32
  | sys_truncate string int
  | sys_setxattr string string string int
  | sys_removexattr string string

text \<open>
  \<open>'t\<close> is \<^verbatim>\<open>struct stat\<close>. The size given to \<open>sys_pread\<close>, \<open>sys_readlink\<close> and the like is that of the
  buffer; they return what they put into it. \<open>path_append\<close> is the operator \<open>/\<close> of
  \<^verbatim>\<open>boost::filesystem::path\<close>.
\<close>

record ('k, 't) kernel =
  setfsuid :: "u32 \<Rightarrow> 'k \<Rightarrow> u32 \<times> 'k"
  setfsgid :: "u32 \<Rightarrow> 'k \<Rightarrow> u32 \<times> 'k"
  sys_unit :: "unit_call \<Rightarrow> 'k \<Rightarrow> (int + unit) \<times> 'k"
  sys_pread :: "int \<Rightarrow> nat \<Rightarrow> int \<Rightarrow> 'k \<Rightarrow> (int + bytes) \<times> 'k"
  sys_lseek :: "int \<Rightarrow> int \<Rightarrow> 'k \<Rightarrow> (int + int) \<times> 'k"
  sys_writev :: "int \<Rightarrow> bytes list \<Rightarrow> 'k \<Rightarrow> (int + nat) \<times> 'k"
  sys_open :: "string \<Rightarrow> u32 \<Rightarrow> u32 \<Rightarrow> 'k \<Rightarrow> (int + int) \<times> 'k"
  sys_lstat :: "string \<Rightarrow> 'k \<Rightarrow> (int + 't) \<times> 'k"
  sys_opendir :: "string \<Rightarrow> 'k \<Rightarrow> (int + nat) \<times> 'k"
  sys_readdir :: "nat \<Rightarrow> 'k \<Rightarrow> (int + string) \<times> 'k"
  sys_closedir :: "nat \<Rightarrow> 'k \<Rightarrow> 'k"
  sys_readlink :: "string \<Rightarrow> nat \<Rightarrow> 'k \<Rightarrow> (int + string) \<times> 'k"
  sys_getxattr :: "string \<Rightarrow> string \<Rightarrow> nat \<Rightarrow> 'k \<Rightarrow> (int + string) \<times> 'k"
  sys_listxattr_size :: "string \<Rightarrow> 'k \<Rightarrow> (int + nat) \<times> 'k"
  sys_listxattr :: "string \<Rightarrow> nat \<Rightarrow> 'k \<Rightarrow> (int + string) \<times> 'k"
  path_append :: "string \<Rightarrow> string \<Rightarrow> string"

text \<open>
  The values on Linux of EINTR, EIO, EAGAIN, EACCES, EBUSY, EMFILE, ETXTBSY, ESPIPE, EMLINK, EPIPE,
  EDEADLK, EWOULDBLOCK, ENOLINK, EADDRINUSE, EADDRNOTAVAIL, ENETDOWN, ENETUNREACH, ECONNABORTED,
  ECONNRESET, ENOTCONN, EHOSTUNREACH, ECANCELED, ESTALE, ENONET, EHOSTDOWN, EREMOTEIO and ENOMEDIUM.
\<close>

definition POSIX_RETRY_ERRORS :: "int list" where
  "POSIX_RETRY_ERRORS =
     [4, 5, 11, 13, 16, 24, 26, 29, 31, 32, 35, 11, 67, 98, 99, 100, 101, 103, 104, 107, 113, 125, 116,
      64, 112, 121, 123]"

definition POSIXRetryCondition :: "int + 'a \<Rightarrow> bool" where
  "POSIXRetryCondition result = (case result of Inr _ \<Rightarrow> True | Inl errno \<Rightarrow> errno \<notin> set POSIX_RETRY_ERRORS)"

text \<open>A call that is retried, and its failure as an exception.\<close>

definition setResult :: "('k \<Rightarrow> (int + 'a) \<times> 'k) \<Rightarrow> 'k \<Rightarrow> 'a fut \<times> 'k" where
  "setResult fun_call st =
     (case retry_io fun_call POSIXRetryCondition st of
        (Inl errno, st') \<Rightarrow> (Inl (makePosixException errno), st')
      | (Inr r, st') \<Rightarrow> (Inr r, st'))"

section \<open>User context\<close>

record user_ctx =
  ctx_uid :: u32
  ctx_gid :: u32
  m_prevUid :: u32
  m_prevGid :: u32
  m_currUid :: u32
  m_currGid :: u32

definition UserCtxSetter :: "('k, 't) kernel \<Rightarrow> u32 \<Rightarrow> u32 \<Rightarrow> 'k \<Rightarrow> user_ctx \<times> 'k" where
  "UserCtxSetter k uid gid st =
     (let (prevUid, st1) = setfsuid k uid st;
          (prevGid, st2) = setfsgid k gid st1;
          (currUid, st3) = setfsuid k (- 1) st2;
          (currGid, st4) = setfsgid k (- 1) st3
      in (\<lparr>ctx_uid = uid, ctx_gid = gid, m_prevUid = prevUid, m_prevGid = prevGid, m_currUid = currUid,
           m_currGid = currGid\<rparr>, st4))"

definition resetUserCtx :: "('k, 't) kernel \<Rightarrow> user_ctx \<Rightarrow> 'k \<Rightarrow> 'k" where
  "resetUserCtx k ctx st = snd (setfsgid k (m_prevGid ctx) (snd (setfsuid k (m_prevUid ctx) st)))"

definition validUserCtx :: "user_ctx \<Rightarrow> bool" where
  "validUserCtx ctx \<longleftrightarrow>
     (ctx_uid ctx = - 1 \<or> m_currUid ctx = ctx_uid ctx) \<and> (ctx_gid ctx = - 1 \<or> m_currGid ctx = ctx_gid ctx)"

text \<open>The frame of the helper's operations: the body runs when the context is valid.\<close>

definition as_user :: "('k, 't) kernel \<Rightarrow> u32 \<Rightarrow> u32 \<Rightarrow> ('k \<Rightarrow> 'a fut \<times> 'k) \<Rightarrow> 'k \<Rightarrow> 'a fut \<times> 'k" where
  "as_user k uid gid body st =
     (let (ctx, st1) = UserCtxSetter k uid gid st;
          (r, st2) = (if validUserCtx ctx then body st1 else (Inl (makePosixException EDOM), st1))
      in (r, resetUserCtx k ctx st2))"

section \<open>File handles\<close>

record posix_handle =
  p_uid :: u32
  p_gid :: u32
  m_fh :: int
  m_needsRelease :: bool

text \<open>What every visitor checks first: the context of the drain and that the handle is alive.\<close>

definition op_guard :: "bool \<Rightarrow> bool \<Rightarrow> ('k \<Rightarrow> 'a fut \<times> 'k) \<Rightarrow> 'k \<Rightarrow> 'a fut \<times> 'k" where
  "op_guard validCtx alive body st =
     (if \<not> validCtx then (Inl (makePosixException EDOM), st)
      else if \<not> alive then (Inl (makePosixException ECANCELED), st)
      else body st)"

definition exec_read ::
  "('k, 't) kernel \<Rightarrow> bool \<Rightarrow> bool \<Rightarrow> posix_handle \<Rightarrow> int \<Rightarrow> nat \<Rightarrow> 'k \<Rightarrow> bytes fut \<times> 'k" where
  "exec_read k validCtx alive h offset sz st =
     op_guard validCtx alive (setResult (sys_pread k (m_fh h) sz offset)) st"

text \<open>At most \<^verbatim>\<open>IOV_MAX\<close> buffers are given to one call.\<close>

definition IOV_MAX :: nat where "IOV_MAX = 1024"

definition iov_groups :: "bytes list \<Rightarrow> bytes list list" where
  "iov_groups iov = map (\<lambda>i. take IOV_MAX (drop (i * IOV_MAX) iov)) [0..<(length iov + IOV_MAX - 1) div IOV_MAX]"

text \<open>The sizes are added up in an \<^verbatim>\<open>int\<close>, which the promise takes as \<^verbatim>\<open>std::size_t\<close>.\<close>

fun writevLoop :: "('k, 't) kernel \<Rightarrow> int \<Rightarrow> bytes list list \<Rightarrow> u32 \<Rightarrow> 'k \<Rightarrow> nat fut \<times> 'k" where
  "writevLoop k fh [] sz st = (Inr (unat (scast sz :: u64)), st)"
| "writevLoop k fh (iov # iovs) sz st =
     (case retry_io (sys_writev k fh iov) (\<lambda>r. \<not> isl r) st of
        (Inl errno, st1) \<Rightarrow> (Inl (makePosixException errno), st1)
      | (Inr n, st1) \<Rightarrow> writevLoop k fh iovs (sz + of_nat n) st1)"

text \<open>\<open>buf\<close> is the chain of buffers; \<^verbatim>\<open>getIov\<close> skips the empty ones.\<close>

definition exec_write ::
  "('k, 't) kernel \<Rightarrow> bool \<Rightarrow> bool \<Rightarrow> posix_handle \<Rightarrow> int \<Rightarrow> bytes list \<Rightarrow> 'k \<Rightarrow> nat fut \<times> 'k" where
  "exec_write k validCtx alive h offset buf st =
     op_guard validCtx alive (\<lambda>st.
       case sys_lseek k (m_fh h) offset st of
         (Inl errno, st1) \<Rightarrow> (Inl (makePosixException errno), st1)
       | (Inr _, st1) \<Rightarrow>
           (if concat buf = [] then (Inr 0, st1)
            else writevLoop k (m_fh h) (iov_groups (filter (\<lambda>b. b \<noteq> []) buf)) 0 st1)) st"

definition exec_release :: "('k, 't) kernel \<Rightarrow> bool \<Rightarrow> bool \<Rightarrow> posix_handle \<Rightarrow> 'k \<Rightarrow> unit fut \<times> 'k" where
  "exec_release k validCtx alive h st = op_guard validCtx alive (setResult (sys_unit k (sys_close (m_fh h)))) st"

definition exec_fsync :: "('k, 't) kernel \<Rightarrow> bool \<Rightarrow> bool \<Rightarrow> posix_handle \<Rightarrow> 'k \<Rightarrow> unit fut \<times> 'k" where
  "exec_fsync k validCtx alive h st = op_guard validCtx alive (setResult (sys_unit k (sys_fsync (m_fh h)))) st"

definition exec_flush :: "('k, 't) kernel \<Rightarrow> bool \<Rightarrow> bool \<Rightarrow> posix_handle \<Rightarrow> 'k \<Rightarrow> unit fut \<times> 'k" where
  "exec_flush k validCtx alive h st = op_guard validCtx alive (\<lambda>st. (Inr (), st)) st"

text \<open>
  A drain with one operation: \<^verbatim>\<open>startDrain\<close> sets the context, which lasts until the drain ends.
  The state of an open file is its handle and the kernel.
\<close>

definition drain_with :: "('k, 't) kernel \<Rightarrow> posix_handle \<Rightarrow> (bool \<Rightarrow> 'k \<Rightarrow> 'a fut \<times> 'k) \<Rightarrow> 'k \<Rightarrow> 'a fut \<times> 'k" where
  "drain_with k h visitor st =
     (let (ctx, st1) = UserCtxSetter k (p_uid h) (p_gid h) st;
          (r, st2) = visitor (validUserCtx ctx) st1
      in (r, resetUserCtx k ctx st2))"

type_synonym 'k open_file = "posix_handle \<times> 'k"

definition px_read :: "('k, 't) kernel \<Rightarrow> int \<Rightarrow> nat \<Rightarrow> 'k open_file \<Rightarrow> bytes fut \<times> 'k open_file" where
  "px_read k offset sz f =
     (let (r, st) = drain_with k (fst f) (\<lambda>v. exec_read k v True (fst f) offset sz) (snd f) in (r, (fst f, st)))"

definition px_write :: "('k, 't) kernel \<Rightarrow> int \<Rightarrow> bytes list \<Rightarrow> 'k open_file \<Rightarrow> nat fut \<times> 'k open_file" where
  "px_write k offset buf f =
     (let (r, st) = drain_with k (fst f) (\<lambda>v. exec_write k v True (fst f) offset buf) (snd f) in (r, (fst f, st)))"

definition px_release :: "('k, 't) kernel \<Rightarrow> 'k open_file \<Rightarrow> unit fut \<times> 'k open_file" where
  "px_release k f =
     (if \<not> m_needsRelease (fst f) then (Inr (), f)
      else (let h = (fst f)\<lparr>m_needsRelease := False\<rparr>;
                (r, st) = drain_with k h (\<lambda>v. exec_release k v True h) (snd f)
            in (r, (h, st))))"

definition px_flush :: "('k, 't) kernel \<Rightarrow> 'k open_file \<Rightarrow> unit fut \<times> 'k open_file" where
  "px_flush k f = (let (r, st) = drain_with k (fst f) (\<lambda>v. exec_flush k v True (fst f)) (snd f) in (r, (fst f, st)))"

definition px_fsync :: "('k, 't) kernel \<Rightarrow> 'k open_file \<Rightarrow> unit fut \<times> 'k open_file" where
  "px_fsync k f = (let (r, st) = drain_with k (fst f) (\<lambda>v. exec_fsync k v True (fst f)) (snd f) in (r, (fst f, st)))"

text \<open>The destructor of a handle.\<close>

definition px_destroy :: "('k, 't) kernel \<Rightarrow> 'k open_file \<Rightarrow> 'k" where
  "px_destroy k f =
     (if m_needsRelease (fst f)
      then (let (ctx, st1) = UserCtxSetter k (p_uid (fst f)) (p_gid (fst f)) (snd f);
                st2 = (if validUserCtx ctx then snd (sys_unit k (sys_close (m_fh (fst f))) st1) else st1)
            in resetUserCtx k ctx st2)
      else snd f)"


section \<open>The helper\<close>

record posix_helper =
  m_mountPoint :: string
  h_uid :: u32
  h_gid :: u32

definition root :: "('k, 't) kernel \<Rightarrow> posix_helper \<Rightarrow> string \<Rightarrow> string" where
  "root k h fileId = path_append k (m_mountPoint h) fileId"

text \<open>\<open>PosixHelperFactory::createStorageHelper\<close>; \<open>to_int\<close> and \<open>to_size\<close> are the casts of \<^verbatim>\<open>getParam\<close>.\<close>

definition createPosixHelper ::
  "(string \<Rightarrow> int option) \<Rightarrow> (string \<Rightarrow> u64 option) \<Rightarrow> u64 \<Rightarrow> Params \<Rightarrow> posix_helper fut" where
  "createPosixHelper to_int to_size asyncOpsTimeout parameters =
     (case getParam_string parameters ''mountPoint'' of
        Inl e \<Rightarrow> Inl e
      | Inr mountPoint \<Rightarrow>
          (case getParam_def_val to_int parameters ''uid'' (- 1) of
             Inl e \<Rightarrow> Inl e
           | Inr uid \<Rightarrow>
               (case getParam_def_val to_int parameters ''gid'' (- 1) of
                  Inl e \<Rightarrow> Inl e
                | Inr gid \<Rightarrow>
                    (case getParam_def_val to_size parameters ''timeout'' asyncOpsTimeout of
                       Inl e \<Rightarrow> Inl e
                     | Inr _ \<Rightarrow> Inr \<lparr>m_mountPoint = mountPoint, h_uid = of_int uid, h_gid = of_int gid\<rparr>))))"

abbreviation as_owner :: "('k, 't) kernel \<Rightarrow> posix_helper \<Rightarrow> ('k \<Rightarrow> 'a fut \<times> 'k) \<Rightarrow> 'k \<Rightarrow> 'a fut \<times> 'k" where
  "as_owner k h \<equiv> as_user k (h_uid h) (h_gid h)"

definition px_getattr :: "('k, 't) kernel \<Rightarrow> posix_helper \<Rightarrow> string \<Rightarrow> 'k \<Rightarrow> 't fut \<times> 'k" where
  "px_getattr k h fileId = as_owner k h (setResult (sys_lstat k (root k h fileId)))"

definition px_access :: "('k, 't) kernel \<Rightarrow> posix_helper \<Rightarrow> string \<Rightarrow> int \<Rightarrow> 'k \<Rightarrow> unit fut \<times> 'k" where
  "px_access k h fileId msk = as_owner k h (setResult (sys_unit k (sys_access (root k h fileId) msk)))"

text \<open>
  The loop over the entries of a directory, which ends when \<^verbatim>\<open>readdir\<close> returns a null pointer or,
  after one entry more, when enough are listed.
\<close>

partial_function (option) readdirLoop ::
  "('k, 't) kernel \<Rightarrow> nat \<Rightarrow> int \<Rightarrow> int \<Rightarrow> 'k \<Rightarrow> (string list \<times> 'k) option" where
  "readdirLoop k dir off cnt st =
     (case retry_io (sys_readdir k dir) POSIXRetryCondition st of
        (Inl _, st1) \<Rightarrow> Some ([], st1)
      | (Inr d_name, st1) \<Rightarrow>
          (if cnt \<le> 0 then Some ([], st1)
           else if d_name \<noteq> ''.'' \<and> d_name \<noteq> ''..''
           then (if off > 0 then readdirLoop k dir (off - 1) cnt st1
                 else Option.bind (readdirLoop k dir off (cnt - 1) st1) (\<lambda>(ret, st2). Some (d_name # ret, st2)))
           else readdirLoop k dir off cnt st1))"

text \<open>The offset and the count are kept in variables of type \<^verbatim>\<open>int\<close>.\<close>

definition to_int32 :: "int \<Rightarrow> int" where
  "to_int32 i = sint (of_int i :: 32 word)"

definition px_readdir ::
  "('k, 't) kernel \<Rightarrow> posix_helper \<Rightarrow> string \<Rightarrow> int \<Rightarrow> u64 \<Rightarrow> 'k \<Rightarrow> (string list fut \<times> 'k) option" where
  "px_readdir k h fileId offset cnt st =
     (let (ctx, st1) = UserCtxSetter k (h_uid h) (h_gid h) st
      in if \<not> validUserCtx ctx then Some (Inl (makePosixException EDOM), resetUserCtx k ctx st1)
         else
           (case setResult (sys_opendir k (root k h fileId)) st1 of
              (Inl e, st2) \<Rightarrow> Some (Inl e, resetUserCtx k ctx st2)
            | (Inr dir, st2) \<Rightarrow>
                Option.bind (readdirLoop k dir (to_int32 offset) (to_int32 (uint cnt)) st2)
                  (\<lambda>(ret, st3). Some (Inr ret, resetUserCtx k ctx (sys_closedir k dir st3)))))"

definition px_readlink :: "('k, 't) kernel \<Rightarrow> posix_helper \<Rightarrow> string \<Rightarrow> 'k \<Rightarrow> string fut \<times> 'k" where
  "px_readlink k h fileId = as_owner k h (setResult (sys_readlink k (root k h fileId) (1024 - 1)))"

abbreviation S_IFMT :: u32 where "S_IFMT \<equiv> 0xF000"

text \<open>A regular file is created by \<^verbatim>\<open>open\<close> with \<^verbatim>\<open>O_CREAT | O_EXCL | O_WRONLY\<close> and closed.\<close>

definition px_mknod ::
  "('k, 't) kernel \<Rightarrow> posix_helper \<Rightarrow> string \<Rightarrow> u32 \<Rightarrow> Flag set \<Rightarrow> u64 \<Rightarrow> 'k \<Rightarrow> unit fut \<times> 'k" where
  "px_mknod k h fileId unmaskedMode flags rdev =
     (let mode = unmaskedMode OR flagsToMask flags; filePath = root k h fileId
      in as_owner k h (\<lambda>st.
           if mode AND S_IFMT = 0x8000
           then (case setResult (sys_open k filePath 0xC1 mode) st of
                   (Inl e, st1) \<Rightarrow> (Inl e, st1)
                 | (Inr fd, st1) \<Rightarrow>
                     (case sys_unit k (sys_close fd) st1 of
                        (Inl errno, st2) \<Rightarrow> (Inl (makePosixException errno), st2)
                      | (Inr _, st2) \<Rightarrow> (Inr (), st2)))
           else if mode AND S_IFMT = 0x1000
           then setResult (sys_unit k (sys_mkfifo filePath mode)) st
           else setResult (sys_unit k (sys_mknod filePath mode rdev)) st))"

definition px_mkdir :: "('k, 't) kernel \<Rightarrow> posix_helper \<Rightarrow> string \<Rightarrow> u32 \<Rightarrow> 'k \<Rightarrow> unit fut \<times> 'k" where
  "px_mkdir k h fileId mode = as_owner k h (setResult (sys_unit k (sys_mkdir (root k h fileId) mode)))"

definition px_unlink :: "('k, 't) kernel \<Rightarrow> posix_helper \<Rightarrow> string \<Rightarrow> 'k \<Rightarrow> unit fut \<times> 'k" where
  "px_unlink k h fileId = as_owner k h (setResult (sys_unit k (sys_unlink (root k h fileId))))"

definition px_rmdir :: "('k, 't) kernel \<Rightarrow> posix_helper \<Rightarrow> string \<Rightarrow> 'k \<Rightarrow> unit fut \<times> 'k" where
  "px_rmdir k h fileId = as_owner k h (setResult (sys_unit k (sys_rmdir (root k h fileId))))"

definition px_symlink :: "('k, 't) kernel \<Rightarrow> posix_helper \<Rightarrow> string \<Rightarrow> string \<Rightarrow> 'k \<Rightarrow> unit fut \<times> 'k" where
  "px_symlink k h from_id to_id = as_owner k h (setResult (sys_unit k (sys_symlink (root k h from_id) (root k h to_id))))"

definition px_rename :: "('k, 't) kernel \<Rightarrow> posix_helper \<Rightarrow> string \<Rightarrow> string \<Rightarrow> 'k \<Rightarrow> unit fut \<times> 'k" where
  "px_rename k h from_id to_id = as_owner k h (setResult (sys_unit k (sys_rename (root k h from_id) (root k h to_id))))"

definition px_link :: "('k, 't) kernel \<Rightarrow> posix_helper \<Rightarrow> string \<Rightarrow> string \<Rightarrow> 'k \<Rightarrow> unit fut \<times> 'k" where
  "px_link k h from_id to_id = as_owner k h (setResult (sys_unit k (sys_link (root k h from_id) (root k h to_id))))"

definition px_chmod :: "('k, 't) kernel \<Rightarrow> posix_helper \<Rightarrow> string \<Rightarrow> u32 \<Rightarrow> 'k \<Rightarrow> unit fut \<times> 'k" where
  "px_chmod k h fileId mode = as_owner k h (setResult (sys_unit k (sys_chmod (root k h fileId) mode)))"

definition px_chown :: "('k, 't) kernel \<Rightarrow> posix_helper \<Rightarrow> string \<Rightarrow> u32 \<Rightarrow> u32 \<Rightarrow> 'k \<Rightarrow> unit fut \<times> 'k" where
  "px_chown k h fileId uid gid = as_owner k h (setResult (sys_unit k (sys_chown (root k h fileId) uid gid)))"

definition px_truncate :: "('k, 't) kernel \<Rightarrow> posix_helper \<Rightarrow> string \<Rightarrow> int \<Rightarrow> 'k \<Rightarrow> unit fut \<times> 'k" where
  "px_truncate k h fileId sz = as_owner k h (setResult (sys_unit k (sys_truncate (root k h fileId) sz)))"

definition px_open :: "('k, 't) kernel \<Rightarrow> posix_helper \<Rightarrow> string \<Rightarrow> u32 \<Rightarrow> 'k \<Rightarrow> posix_handle fut \<times> 'k" where
  "px_open k h fileId flags = as_owner k h (\<lambda>st.
     case setResult (sys_open k (root k h fileId) flags 0) st of
       (Inl e, st1) \<Rightarrow> (Inl e, st1)
     | (Inr fd, st1) \<Rightarrow> (Inr \<lparr>p_uid = h_uid h, p_gid = h_gid h, m_fh = fd, m_needsRelease = True\<rparr>, st1))"

abbreviation XATTR_SIZE_MAX :: nat where "XATTR_SIZE_MAX \<equiv> 65536"

definition px_getxattr :: "('k, 't) kernel \<Rightarrow> posix_helper \<Rightarrow> string \<Rightarrow> string \<Rightarrow> 'k \<Rightarrow> string fut \<times> 'k" where
  "px_getxattr k h fileId nm = as_owner k h (\<lambda>st.
     let filePath = root k h fileId
     in case retry_io (sys_getxattr k filePath nm (256 - 1)) POSIXRetryCondition st of
          (Inr v, st1) \<Rightarrow> (Inr v, st1)
        | (Inl errno, st1) \<Rightarrow>
            (if errno = ERANGE then setResult (sys_getxattr k filePath nm (XATTR_SIZE_MAX - 1)) st1
             else (Inl (makePosixException errno), st1)))"

definition px_setxattr ::
  "('k, 't) kernel \<Rightarrow> posix_helper \<Rightarrow> string \<Rightarrow> string \<Rightarrow> string \<Rightarrow> bool \<Rightarrow> bool \<Rightarrow> 'k \<Rightarrow> unit fut \<times> 'k" where
  "px_setxattr k h fileId nm val create repl = as_owner k h (\<lambda>st.
     if create \<and> repl then (Inl (makePosixException EINVAL), st)
     else setResult (sys_unit k (sys_setxattr (root k h fileId) nm val (if create then 1 else if repl then 2 else 0))) st)"

definition px_removexattr :: "('k, 't) kernel \<Rightarrow> posix_helper \<Rightarrow> string \<Rightarrow> string \<Rightarrow> 'k \<Rightarrow> unit fut \<times> 'k" where
  "px_removexattr k h fileId nm = as_owner k h (setResult (sys_unit k (sys_removexattr (root k h fileId) nm)))"

text \<open>The names in the list the kernel gives, each ended by a zero byte.\<close>

function xattr_names :: "string \<Rightarrow> string list" where
  "xattr_names buf =
     (if buf = [] then []
      else (let nm = takeWhile (\<lambda>c. c \<noteq> CHR 0x00) buf in nm # xattr_names (drop (length nm + 1) buf)))"
  by pat_completeness auto
termination by (relation "measure length") (auto simp: Let_def)

definition px_listxattr :: "('k, 't) kernel \<Rightarrow> posix_helper \<Rightarrow> string \<Rightarrow> 'k \<Rightarrow> string list fut \<times> 'k" where
  "px_listxattr k h fileId = as_owner k h (\<lambda>st.
     let filePath = root k h fileId
     in case setResult (sys_listxattr_size k filePath) st of
          (Inl e, st1) \<Rightarrow> (Inl e, st1)
        | (Inr buflen, st1) \<Rightarrow>
            (if buflen = 0 then (Inr [], st1)
             else (case sys_listxattr k filePath buflen st1 of
                     (Inl errno, st2) \<Rightarrow> (Inl (makePosixException errno), st2)
                   | (Inr buf, st2) \<Rightarrow> (Inr (xattr_names buf), st2))))"


section \<open>Listing a directory\<close>

text \<open>
  On a directory whose entries come one by one and end with a null pointer, and \<^verbatim>\<open>errno\<close> 0, the loop
  ends with the entries from the offset, at most the count, without the two for the directory
  and its parent.
\<close>

lemma readdirLoop_lists:
  assumes "\<And>st. entries st = [] \<Longrightarrow> sys_readdir k dir st = (Inl 0, st)"
    and "\<And>st e es. entries st = e # es \<Longrightarrow> \<exists>st'. sys_readdir k dir st = (Inr e, st') \<and> entries st' = es"
    and "0 \<le> off"
  shows "\<exists>st'. readdirLoop k dir off cnt st =
    Some (take (nat cnt) (drop (nat off) (filter (\<lambda>e. e \<noteq> ''.'' \<and> e \<noteq> ''..'') (entries st))), st')"
  using assms(3)
proof (induction "entries st" arbitrary: st off cnt)
  case Nil
  then have "retry_io (sys_readdir k dir) POSIXRetryCondition st = (Inl 0, st)"
    using assms(1) [of st] by (intro retry_io_first) (auto simp: POSIXRetryCondition_def POSIX_RETRY_ERRORS_def)
  then show ?case using Nil by (subst readdirLoop.simps) simp
next
  case (Cons e es)
  obtain st1 where st1: "sys_readdir k dir st = (Inr e, st1)" "entries st1 = es"
    using assms(2) [OF Cons.hyps(2) [symmetric]] by blast
  have rt: "retry_io (sys_readdir k dir) POSIXRetryCondition st = (Inr e, st1)"
    using st1(1) by (intro retry_io_first) (auto simp: POSIXRetryCondition_def)
  note IH = Cons.hyps(1) [OF st1(2) [symmetric]]
  consider "cnt \<le> 0" | "0 < cnt" "e = ''.'' \<or> e = ''..''" | "0 < cnt" "e \<noteq> ''.''" "e \<noteq> ''..''" "0 < off"
    | "0 < cnt" "e \<noteq> ''.''" "e \<noteq> ''..''" "off = 0" using Cons.prems by fastforce
  then show ?case
  proof cases
    case 1
    then show ?thesis using rt by (subst readdirLoop.simps) simp
  next
    case 2
    then show ?thesis using rt IH [OF Cons.prems, of cnt] Cons.hyps(2) [symmetric] st1(2)
      by (subst readdirLoop.simps) auto
  next
    case 3
    then have n: "nat off = Suc (nat (off - 1))" by simp
    show ?thesis using 3 rt IH [of "off - 1" cnt] Cons.hyps(2) [symmetric] st1(2)
      by (subst readdirLoop.simps) (auto simp: n)
  next
    case 4
    then have n: "nat cnt = Suc (nat (cnt - 1))" by simp
    show ?thesis using 4 rt IH [of 0 "cnt - 1"] Cons.hyps(2) [symmetric] st1(2)
      by (subst readdirLoop.simps) (auto simp: n)
  qed
qed

section \<open>User ids\<close>

text \<open>
  The ids of the calling thread, as \<^verbatim>\<open>setfsuid(2)\<close> documents them: the call returns the id before it
  and sets an id the thread may have; \<open>- 1\<close> is none.
\<close>

locale kernel_ids =
  fixes k :: "('k, 't) kernel"
    and ids :: "'k \<Rightarrow> u32 \<times> u32"
    and may_uid :: "u32 \<Rightarrow> bool"
    and may_gid :: "u32 \<Rightarrow> bool"
  assumes setfsuid_prev: "fst (setfsuid k u st) = fst (ids st)"
    and setfsuid_ids: "ids (snd (setfsuid k u st)) = (if may_uid u then (u, snd (ids st)) else ids st)"
    and setfsgid_prev: "fst (setfsgid k g st) = snd (ids st)"
    and setfsgid_ids: "ids (snd (setfsgid k g st)) = (if may_gid g then (fst (ids st), g) else ids st)"
    and no_id: "\<not> may_uid (- 1)" "\<not> may_gid (- 1)"
begin

lemma ctx_prev:
  "m_prevUid (fst (UserCtxSetter k uid gid st)) = fst (ids st)"
  "m_prevGid (fst (UserCtxSetter k uid gid st)) = snd (ids st)"
  by (simp_all add: UserCtxSetter_def case_prod_beta setfsuid_prev setfsgid_prev setfsuid_ids)

lemma ctx_valid:
  "validUserCtx (fst (UserCtxSetter k uid gid st)) \<longleftrightarrow>
     (uid = - 1 \<or> may_uid uid \<or> fst (ids st) = uid) \<and> (gid = - 1 \<or> may_gid gid \<or> snd (ids st) = gid)"
  by (auto simp: UserCtxSetter_def validUserCtx_def case_prod_beta setfsuid_prev setfsgid_prev setfsuid_ids
      setfsgid_ids no_id)

lemma reset_ids:
  assumes "may_uid (fst (ids st))" and "may_gid (snd (ids st))"
  shows "ids (resetUserCtx k (fst (UserCtxSetter k uid gid st)) st') = ids st"
  using assms by (simp add: resetUserCtx_def ctx_prev setfsuid_ids setfsgid_ids)

text \<open>Whether the thread can act as a user.\<close>

lemma as_user_invalid:
  assumes "\<not> validUserCtx (fst (UserCtxSetter k uid gid st))"
  shows "fst (as_user k uid gid body st) = Inl (makePosixException EDOM)"
  using assms by (simp add: as_user_def case_prod_beta)

lemma as_user_ids:
  assumes "may_uid (fst (ids st))" and "may_gid (snd (ids st))"
  shows "ids (snd (as_user k uid gid body st)) = ids st"
  using reset_ids [OF assms] by (simp add: as_user_def case_prod_beta)

end

section \<open>A regular file\<close>

text \<open>
  An open regular file: \<open>file_of\<close> is its content, the position of the descriptor \<open>fd\<close> and whether it
  is open. Reads return all there is; \<^verbatim>\<open>writev\<close> takes at most \<open>IOV_MAX\<close> buffers and writes all of
  them at the position, less than \<open>2^31\<close> bytes at once.
\<close>

locale posix_file = kernel_ids +
  fixes fd :: int
    and file_of :: "'k \<Rightarrow> bytes \<times> nat \<times> bool"
  assumes setfs_file: "file_of (snd (setfsuid k u st)) = file_of st" "file_of (snd (setfsgid k u st)) = file_of st"
    and pread_file: "file_of st = (f, p, True) \<Longrightarrow> 0 \<le> off \<Longrightarrow>
      \<exists>st'. sys_pread k fd n off st = (Inr (take n (drop (nat off) f)), st') \<and> file_of st' = (f, p, True)"
    and lseek_file: "file_of st = (f, p, True) \<Longrightarrow> 0 \<le> off \<Longrightarrow>
      \<exists>st'. sys_lseek k fd off st = (Inr off, st') \<and> file_of st' = (f, nat off, True)"
    and writev_file: "file_of st = (f, p, True) \<Longrightarrow> length iov \<le> IOV_MAX \<Longrightarrow> length (concat iov) < 2 ^ 31 \<Longrightarrow>
      \<exists>st'. sys_writev k fd iov st = (Inr (length (concat iov)), st') \<and>
        file_of st' = (write_at f (int p, concat iov), p + length (concat iov), True)"
    and fsync_file: "file_of st = (f, p, True) \<Longrightarrow>
      \<exists>st'. sys_unit k (sys_fsync fd) st = (Inr (), st') \<and> file_of st' = (f, p, True)"
    and close_file: "file_of st = (f, p, True) \<Longrightarrow>
      \<exists>st'. sys_unit k (sys_close fd) st = (Inr (), st') \<and> file_of st' = (f, p, False)"

definition px_sync :: "('k, 't) kernel \<Rightarrow> sync_op \<Rightarrow> 'k open_file \<Rightarrow> unit fut \<times> 'k open_file" where
  "px_sync k c = (case c of Fsync \<Rightarrow> px_fsync k | Flush \<Rightarrow> px_flush k | Release \<Rightarrow> px_release k)"

text \<open>An open handle whose user the thread may act as.\<close>

definition usable_file ::
  "(u32 \<Rightarrow> bool) \<Rightarrow> (u32 \<Rightarrow> bool) \<Rightarrow> int \<Rightarrow> ('k \<Rightarrow> bytes \<times> nat \<times> bool) \<Rightarrow> 'k open_file \<Rightarrow> bool" where
  "usable_file may_uid may_gid fd file_of f \<longleftrightarrow>
     m_fh (fst f) = fd \<and> m_needsRelease (fst f) \<and> snd (snd (file_of (snd f))) \<and>
     (p_uid (fst f) = - 1 \<or> may_uid (p_uid (fst f))) \<and> (p_gid (fst f) = - 1 \<or> may_gid (p_gid (fst f)))"

lemma concat_slices:
  "concat (map (\<lambda>i. take n (drop (i * n) xs)) [0..<m]) = take (m * n) xs"
proof (induction m)
  case (Suc m)
  have "take (m * n + n) xs = take (m * n) xs @ take n (drop (m * n) xs)" by (rule take_add)
  then show ?case using Suc by (simp add: add.commute)
qed simp

lemma concat_iov_groups: "concat (iov_groups iov) = iov"
proof -
  have "length iov \<le> ((length iov + IOV_MAX - 1) div IOV_MAX) * IOV_MAX" unfolding IOV_MAX_def by linarith
  then show ?thesis unfolding iov_groups_def concat_slices by simp
qed

lemma iov_groups_small: "g \<in> set (iov_groups iov) \<Longrightarrow> length g \<le> IOV_MAX"
  by (auto simp: iov_groups_def)

lemma concat_nonempty: "concat (filter (\<lambda>b. b \<noteq> []) bufs) = concat bufs"
  by (induction bufs) auto

lemma int_size:
  assumes "n < 2 ^ 31"
  shows "unat (scast (of_nat n :: 32 word) :: 64 word) = n"
proof -
  have "signed_take_bit 31 (int n) = int n" using assms by (intro signed_take_bit_int_eq_self) auto
  then show ?thesis using assms by (simp add: signed_of_nat unat_of_nat take_bit_nat_eq_self)
qed


lemma setResult_first:
  assumes "fun_call st = (Inr r, st')"
  shows "setResult fun_call st = (Inr r, st')"
  using retry_io_first [of fun_call st "Inr r" st' POSIXRetryCondition] assms
  by (simp add: setResult_def POSIXRetryCondition_def)

context posix_file
begin

abbreviation (input) usable_here :: "'k open_file \<Rightarrow> bool" where
  "usable_here \<equiv> usable_file may_uid may_gid fd file_of"

lemma ctx_file:
  "file_of (snd (UserCtxSetter k uid gid st)) = file_of st"
  "file_of (resetUserCtx k ctx st) = file_of st"
  by (simp_all add: UserCtxSetter_def resetUserCtx_def case_prod_beta setfs_file)

text \<open>A drain of a usable handle runs its operation on the file as it is.\<close>

lemma drain_file:
  assumes "usable_here (h, st)" and "file_of st = (f, p, True)"
    and "\<And>st1. file_of st1 = (f, p, True) \<Longrightarrow> \<exists>st2. visitor True st1 = (r, st2) \<and> file_of st2 = f'"
  shows "\<exists>st'. drain_with k h visitor st = (r, st') \<and> file_of st' = f'"
proof -
  let ?c = "UserCtxSetter k (p_uid h) (p_gid h) st"
  have v: "validUserCtx (fst ?c)" using assms(1) unfolding ctx_valid usable_file_def by auto
  obtain st2 where "visitor True (snd ?c) = (r, st2)" "file_of st2 = f'"
    using assms(3) [of "snd ?c"] assms(2) by (auto simp: ctx_file)
  then show ?thesis using v by (auto simp: drain_with_def case_prod_beta ctx_file)
qed

lemma usable_open:
  assumes "usable_here f"
  obtains c p where "file_of (snd f) = (c, p, True)" "m_fh (fst f) = fd"
  using assms by (cases "file_of (snd f)") (auto simp: usable_file_def)

lemma px_read_file:
  assumes "usable_here f" and "0 \<le> off"
  shows "fst (px_read k off n f) = Inr (take n (drop (nat off) (fst (file_of (snd f)))))"
proof -
  obtain c p where c: "file_of (snd f) = (c, p, True)" and fh: "m_fh (fst f) = fd" using usable_open [OF assms(1)] .
  have "\<exists>st2. exec_read k True True (fst f) off n st1 = (Inr (take n (drop (nat off) c)), st2) \<and> file_of st2 = (c, p, True)"
    if "file_of st1 = (c, p, True)" for st1
    using pread_file [OF that assms(2), of n] setResult_first by (fastforce simp: exec_read_def op_guard_def fh)
  from drain_file [where visitor = "\<lambda>v. exec_read k v True (fst f) off n" and h = "fst f", OF _ c this] assms(1) c show ?thesis
    by (auto simp: px_read_def)
qed

lemma writevLoop_file:
  assumes "file_of st = (f, p, True)" and "\<forall>g \<in> set gs. length g \<le> IOV_MAX" and "length (concat (concat gs)) < 2 ^ 31"
  shows "\<exists>st'. writevLoop k fd gs sz st = (Inr (unat (scast (sz + of_nat (length (concat (concat gs)))) :: u64)), st') \<and>
    file_of st' = (write_at f (int p, concat (concat gs)), p + length (concat (concat gs)), True)"
  using assms
proof (induction gs arbitrary: sz st f p)
  case Nil
  then show ?case by (simp add: write_at_def)
next
  case (Cons g gs)
  have g: "length g \<le> IOV_MAX" "length (concat g) < 2 ^ 31" using Cons.prems(2,3) by auto
  obtain st1 where w: "sys_writev k fd g st = (Inr (length (concat g)), st1)"
    and f1: "file_of st1 = (write_at f (int p, concat g), p + length (concat g), True)"
    using writev_file [OF Cons.prems(1) g] by blast
  have "retry_io (sys_writev k fd g) (\<lambda>r. \<not> isl r) st = (Inr (length (concat g)), st1)"
    using retry_io_first [of "sys_writev k fd g" st _ st1 "\<lambda>r. \<not> isl r", OF w] by simp
  moreover have "write_at (write_at f (int p, concat g)) (int (p + length (concat g)), concat (concat gs)) =
      write_at f (int p, concat g @ concat (concat gs))"
    using write_at_append [of "int p" f "concat g"] by simp
  ultimately show ?case using Cons.IH [OF f1, of "sz + of_nat (length (concat g))"] Cons.prems(2,3)
    by (auto simp: add.assoc)
qed

lemma px_write_file:
  assumes "usable_here f" and "0 \<le> off" and "length (concat buf) < 2 ^ 31"
  shows "\<exists>f'. px_write k off buf f = (Inr (length (concat buf)), f') \<and> usable_here f' \<and>
    fst (file_of (snd f')) = write_at (fst (file_of (snd f))) (off, concat buf)"
proof -
  obtain c p where c: "file_of (snd f) = (c, p, True)" and fh: "m_fh (fst f) = fd" using usable_open [OF assms(1)] .
  let ?c' = "(write_at c (off, concat buf), nat off + length (concat buf), True)"
  let ?gs = "iov_groups (filter (\<lambda>b. b \<noteq> []) buf)"
  have gs: "\<forall>g \<in> set ?gs. length g \<le> IOV_MAX" "concat (concat ?gs) = concat buf"
    by (simp_all add: iov_groups_small concat_iov_groups concat_nonempty)
  have "\<exists>st2. exec_write k True True (fst f) off buf st1 = (Inr (length (concat buf)), st2) \<and> file_of st2 = ?c'"
    if "file_of st1 = (c, p, True)" for st1
  proof -
    note st1 = that
    obtain st2 where l: "sys_lseek k fd off st1 = (Inr off, st2)" "file_of st2 = (c, nat off, True)"
      using lseek_file [OF st1 assms(2)] by blast
    from writevLoop_file [OF l(2) gs(1), of 0] gs(2) assms(2,3) l show ?thesis
      by (auto simp: exec_write_def op_guard_def fh int_size write_at_def)
  qed
  from drain_file [where visitor = "\<lambda>v. exec_write k v True (fst f) off buf" and h = "fst f", OF _ c this] assms(1) obtain st' where
    "drain_with k (fst f) (\<lambda>v. exec_write k v True (fst f) off buf) (snd f) = (Inr (length (concat buf)), st')"
    "file_of st' = ?c'" by (auto simp: prod_eq_iff)
  then show ?thesis using assms(1) c by (simp add: px_write_def usable_file_def)
qed

lemma px_sync_file:
  assumes "usable_here f"
  shows "fst (px_sync k c f) = Inr () \<and> fst (file_of (snd (snd (px_sync k c f)))) = fst (file_of (snd f)) \<and>
    (c \<noteq> Release \<longrightarrow> usable_here (snd (px_sync k c f)))"
proof -
  obtain b p where b: "file_of (snd f) = (b, p, True)" and fh: "m_fh (fst f) = fd" using usable_open [OF assms] .
  show ?thesis
  proof (cases c)
    case Fsync
    have "\<exists>st2. exec_fsync k True True (fst f) st1 = (Inr (), st2) \<and> file_of st2 = (b, p, True)"
      if "file_of st1 = (b, p, True)" for st1
      using fsync_file [OF that] setResult_first by (fastforce simp: exec_fsync_def op_guard_def fh)
    from drain_file [where visitor = "\<lambda>v. exec_fsync k v True (fst f)" and h = "fst f", OF _ b this] assms b Fsync show ?thesis
      by (auto simp: px_sync_def px_fsync_def usable_file_def)
  next
    case Flush
    have "\<exists>st2. exec_flush k True True (fst f) st1 = (Inr (), st2) \<and> file_of st2 = (b, p, True)"
      if "file_of st1 = (b, p, True)" for st1
      using that by (simp add: exec_flush_def op_guard_def)
    from drain_file [where visitor = "\<lambda>v. exec_flush k v True (fst f)" and h = "fst f", OF _ b this] assms b Flush show ?thesis
      by (auto simp: px_sync_def px_flush_def usable_file_def)
  next
    case Release
    let ?h = "(fst f)\<lparr>m_needsRelease := False\<rparr>"
    have d: "drain_with k ?h v st = drain_with k (fst f) v st" for v :: "bool \<Rightarrow> 'k \<Rightarrow> unit fut \<times> 'k" and st
      by (simp add: drain_with_def)
    have "\<exists>st2. exec_release k True True ?h st1 = (Inr (), st2) \<and> file_of st2 = (b, p, False)"
      if "file_of st1 = (b, p, True)" for st1
      using close_file [OF that] setResult_first by (fastforce simp: exec_release_def op_guard_def fh)
    from drain_file [where visitor = "\<lambda>v. exec_release k v True ?h" and h = "fst f", OF _ b this] assms b Release show ?thesis
      by (auto simp: px_sync_def px_release_def usable_file_def d)
  qed
qed

end

sublocale posix_file \<subseteq> file_handle "\<lambda>off n f. fst (px_read k off n f)" "multiwrite (\<lambda>off b f. px_write k off [b] f)"
  "px_sync k" "\<lambda>f. fst (file_of (snd f))" "{}" "usable_file may_uid may_gid fd file_of" "2 ^ 31"
proof -
  have "writes_file (usable_file may_uid may_gid fd file_of) (2 ^ 31) (\<lambda>f. fst (file_of (snd f))) (\<lambda>off b f. px_write k off [b] f)"
    unfolding writes_file_def using px_write_file [where buf = "[b]" for b] by simp
  note multiwrite_written [OF this]
  then show "file_handle (\<lambda>off n f. fst (px_read k off n f)) (multiwrite (\<lambda>off b f. px_write k off [b] f)) (px_sync k)
    (\<lambda>f. fst (file_of (snd f))) {} (usable_file may_uid may_gid fd file_of) (2 ^ 31)"
    using px_read_file px_sync_file by unfold_locales (simp_all add: reads_file_def)
qed


section \<open>A kernel with one file\<close>

text \<open>A file in memory and a thread that may take any id.\<close>

record one_file =
  kf_ids :: "u32 \<times> u32"
  kf_file :: "bytes \<times> nat \<times> bool"


fun kf_unit :: "unit_call \<Rightarrow> one_file \<Rightarrow> (int + unit) \<times> one_file" where
  "kf_unit (sys_close _) st =
     (if snd (snd (kf_file st))
      then (Inr (), st\<lparr>kf_file := (fst (kf_file st), fst (snd (kf_file st)), False)\<rparr>) else (Inl EBADF, st))"
| "kf_unit (sys_fsync _) st = (if snd (snd (kf_file st)) then Inr () else Inl EBADF, st)"
| "kf_unit _ st = (Inl ENOSYS, st)"

definition file_kernel :: "(one_file, unit) kernel" where
  "file_kernel =
     \<lparr>setfsuid = (\<lambda>u st. (fst (kf_ids st), if u = - 1 then st else st\<lparr>kf_ids := (u, snd (kf_ids st))\<rparr>)),
      setfsgid = (\<lambda>g st. (snd (kf_ids st), if g = - 1 then st else st\<lparr>kf_ids := (fst (kf_ids st), g)\<rparr>)),
      sys_unit = kf_unit,
      sys_pread = (\<lambda>_ n off st. (if snd (snd (kf_file st)) then Inr (take n (drop (nat off) (fst (kf_file st)))) else Inl EBADF, st)),
      sys_lseek = (\<lambda>_ off st. if snd (snd (kf_file st)) then (Inr off, st\<lparr>kf_file := (fst (kf_file st), nat off, True)\<rparr>)
                             else (Inl EBADF, st)),
      sys_writev = (\<lambda>_ iov st. case kf_file st of (f, p, op) \<Rightarrow>
         if op then (Inr (length (concat iov)),
                     st\<lparr>kf_file := (write_at f (int p, concat iov), p + length (concat iov), True)\<rparr>)
         else (Inl EBADF, st)),
      sys_open = (\<lambda>_ _ _ st. (Inr 3, st\<lparr>kf_file := (fst (kf_file st), 0, True)\<rparr>)),
      sys_lstat = (\<lambda>_ st. (Inr (), st)),
      sys_opendir = (\<lambda>_ st. (Inl ENOENT, st)),
      sys_readdir = (\<lambda>_ st. (Inl 0, st)),
      sys_closedir = (\<lambda>_ st. st),
      sys_readlink = (\<lambda>_ _ st. (Inl EINVAL, st)),
      sys_getxattr = (\<lambda>_ _ _ st. (Inl ENOENT, st)),
      sys_listxattr_size = (\<lambda>_ st. (Inr 0, st)),
      sys_listxattr = (\<lambda>_ _ st. (Inr [], st)),
      path_append = (\<lambda>a b. a @ ''/'' @ b)\<rparr>"

interpretation one_file: posix_file file_kernel kf_ids "\<lambda>u. u \<noteq> - 1" "\<lambda>g. g \<noteq> - 1" 3 kf_file
  by unfold_locales (auto simp: file_kernel_def)

context posix_file
begin

lemmas buffered_content = released_content

end



section \<open>Ids are restored\<close>

text \<open>The operations of the helper, with their results left out.\<close>

datatype px_request =
    Getattr string
  | Access string int
  | Readlink string
  | Mknod string u32 "Flag set" u64
  | Mkdir string u32
  | Unlink string
  | Rmdir string
  | Symlink string string
  | Rename string string
  | Link string string
  | Chmod string u32
  | Chown string u32 u32
  | Truncate string int
  | Open string u32
  | Getxattr string string
  | Setxattr string string string bool bool
  | Removexattr string string
  | Listxattr string

definition settled :: "'a fut \<times> 'k \<Rightarrow> unit fut \<times> 'k" where
  "settled r = (map_sum id (\<lambda>_. ()) (fst r), snd r)"

fun px_run :: "('k, 't) kernel \<Rightarrow> posix_helper \<Rightarrow> px_request \<Rightarrow> 'k \<Rightarrow> unit fut \<times> 'k" where
  "px_run k h (Getattr p) st = settled (px_getattr k h p st)"
| "px_run k h (Access p m) st = px_access k h p m st"
| "px_run k h (Readlink p) st = settled (px_readlink k h p st)"
| "px_run k h (Mknod p m fl d) st = px_mknod k h p m fl d st"
| "px_run k h (Mkdir p m) st = px_mkdir k h p m st"
| "px_run k h (Unlink p) st = px_unlink k h p st"
| "px_run k h (Rmdir p) st = px_rmdir k h p st"
| "px_run k h (Symlink p q) st = px_symlink k h p q st"
| "px_run k h (Rename p q) st = px_rename k h p q st"
| "px_run k h (Link p q) st = px_link k h p q st"
| "px_run k h (Chmod p m) st = px_chmod k h p m st"
| "px_run k h (Chown p u g) st = px_chown k h p u g st"
| "px_run k h (Truncate p n) st = px_truncate k h p n st"
| "px_run k h (Open p fl) st = settled (px_open k h p fl st)"
| "px_run k h (Getxattr p nm) st = settled (px_getxattr k h p nm st)"
| "px_run k h (Setxattr p nm v c r) st = px_setxattr k h p nm v c r st"
| "px_run k h (Removexattr p nm) st = px_removexattr k h p nm st"
| "px_run k h (Listxattr p) st = settled (px_listxattr k h p st)"

lemmas px_defs = px_getattr_def px_access_def px_readlink_def px_mknod_def px_mkdir_def px_unlink_def px_rmdir_def
  px_symlink_def px_rename_def px_link_def px_chmod_def px_chown_def px_truncate_def px_open_def px_getxattr_def
  px_setxattr_def px_removexattr_def px_listxattr_def

text \<open>Every operation is one body run as the user.\<close>

lemma settled_as_user: "settled (as_user k uid gid body st) = as_user k uid gid (\<lambda>s. settled (body s)) st"
  by (simp add: settled_def as_user_def case_prod_beta)

lemma px_run_as_user: "\<exists>body. \<forall>st. px_run k h req st = as_user k (h_uid h) (h_gid h) body st"
  by (cases req) (auto simp: px_defs settled_as_user Let_def)

context kernel_ids
begin

lemma readdir_ids:
  assumes "may_uid (fst (ids st))" and "may_gid (snd (ids st))" and "px_readdir k h fileId off n st = Some (r, st')"
  shows "ids st' = ids st"
  using assms(3) reset_ids [OF assms(1,2), of "h_uid h" "h_gid h"]
  by (auto simp: px_readdir_def case_prod_beta Option.bind_eq_Some_conv split: if_split_asm prod.split_asm sum.split_asm)

lemma run_ids:
  assumes "may_uid (fst (ids st))" and "may_gid (snd (ids st))"
  shows "ids (snd (px_run k h req st)) = ids st"
  using as_user_ids [OF assms] px_run_as_user [of k h req] by metis

lemma run_denied:
  assumes "\<not> validUserCtx (fst (UserCtxSetter k (h_uid h) (h_gid h) st))"
  shows "px_run k h req st = (Inl (makePosixException EDOM), resetUserCtx k (fst (UserCtxSetter k (h_uid h) (h_gid h) st))
    (snd (UserCtxSetter k (h_uid h) (h_gid h) st)))"
proof -
  obtain body where "px_run k h req st = as_user k (h_uid h) (h_gid h) body st" using px_run_as_user [of k h req] by blast
  then show ?thesis using assms by (simp add: as_user_def case_prod_beta)
qed

end



end
