(* ===== verification/Messages.thy ===== *)
theory Messages
  imports Prelude
begin

text \<open>
  \<^verbatim>\<open>src/src/messages\<close>: the messages of the helpers and how they are written into and read from
  Protocol Buffers messages. The latter are records of the fields the code sets and reads; an optional
  field, or a message that may be missing, is an \<open>option\<close>. A missing message reads as its
  default instance, as \<^verbatim>\<open>mutable_\<close> accessors create it.
\<close>

section \<open>Status\<close>

text \<open>The codes of \<^verbatim>\<open>clproto::Status\<close> the table names, and any other.\<close>

datatype status_code =
    Status_Code_ok | Status_Code_eafnosupport | Status_Code_eaddrinuse | Status_Code_eaddrnotavail
  | Status_Code_eisconn | Status_Code_e2big | Status_Code_edom | Status_Code_efault | Status_Code_ebadf
  | Status_Code_ebadmsg | Status_Code_epipe | Status_Code_econnaborted | Status_Code_ealready
  | Status_Code_econnrefused | Status_Code_econnreset | Status_Code_exdev | Status_Code_edestaddrreq
  | Status_Code_ebusy | Status_Code_enotempty | Status_Code_enoexec | Status_Code_eexist | Status_Code_efbig
  | Status_Code_enametoolong | Status_Code_enosys | Status_Code_ehostunreach | Status_Code_eidrm
  | Status_Code_eilseq | Status_Code_enotty | Status_Code_eintr | Status_Code_einval | Status_Code_espipe
  | Status_Code_eio | Status_Code_eisdir | Status_Code_emsgsize | Status_Code_enetdown
  | Status_Code_enetreset | Status_Code_enetunreach | Status_Code_enobufs | Status_Code_echild
  | Status_Code_enolink | Status_Code_enolck | Status_Code_enodata | Status_Code_enomsg
  | Status_Code_enoprotoopt | Status_Code_enospc | Status_Code_enosr | Status_Code_enxio | Status_Code_enodev
  | Status_Code_enoent | Status_Code_esrch | Status_Code_enotdir | Status_Code_enotsock | Status_Code_enostr
  | Status_Code_enotconn | Status_Code_enomem | Status_Code_enotsup | Status_Code_ecanceled
  | Status_Code_einprogress | Status_Code_eperm | Status_Code_eopnotsupp | Status_Code_ewouldblock
  | Status_Code_eownerdead | Status_Code_eacces | Status_Code_eproto | Status_Code_eprotonosupport
  | Status_Code_erofs | Status_Code_edeadlk | Status_Code_eagain | Status_Code_erange
  | Status_Code_enotrecoverable | Status_Code_etime | Status_Code_etxtbsy | Status_Code_etimedout
  | Status_Code_enfile | Status_Code_emfile | Status_Code_emlink | Status_Code_eloop | Status_Code_eoverflow
  | Status_Code_eprototype | Status_Code_other int

text \<open>The table of codes and error numbers; on Linux some codes share a number.\<close>

definition translation :: "(status_code \<times> int) list" where
  "translation =
     [(Status_Code_ok, 0), (Status_Code_eafnosupport, 97), (Status_Code_eaddrinuse, 98),
      (Status_Code_eaddrnotavail, 99), (Status_Code_eisconn, 106), (Status_Code_e2big, 7),
      (Status_Code_edom, 33), (Status_Code_efault, 14), (Status_Code_ebadf, 9), (Status_Code_ebadmsg, 74),
      (Status_Code_epipe, 32), (Status_Code_econnaborted, 103), (Status_Code_ealready, 114),
      (Status_Code_econnrefused, 111), (Status_Code_econnreset, 104), (Status_Code_exdev, 18),
      (Status_Code_edestaddrreq, 89), (Status_Code_ebusy, 16), (Status_Code_enotempty, 39),
      (Status_Code_enoexec, 8), (Status_Code_eexist, 17), (Status_Code_efbig, 27),
      (Status_Code_enametoolong, 36), (Status_Code_enosys, 38), (Status_Code_ehostunreach, 113),
      (Status_Code_eidrm, 43), (Status_Code_eilseq, 84), (Status_Code_enotty, 25), (Status_Code_eintr, 4),
      (Status_Code_einval, 22), (Status_Code_espipe, 29), (Status_Code_eio, 5), (Status_Code_eisdir, 21),
      (Status_Code_emsgsize, 90), (Status_Code_enetdown, 100), (Status_Code_enetreset, 102),
      (Status_Code_enetunreach, 101), (Status_Code_enobufs, 105), (Status_Code_echild, 10),
      (Status_Code_enolink, 67), (Status_Code_enolck, 37), (Status_Code_enodata, 61),
      (Status_Code_enomsg, 42), (Status_Code_enoprotoopt, 92), (Status_Code_enospc, 28),
      (Status_Code_enosr, 63), (Status_Code_enxio, 6), (Status_Code_enodev, 19), (Status_Code_enoent, 2),
      (Status_Code_esrch, 3), (Status_Code_enotdir, 20), (Status_Code_enotsock, 88),
      (Status_Code_enostr, 60), (Status_Code_enotconn, 107), (Status_Code_enomem, 12),
      (Status_Code_enotsup, 95), (Status_Code_ecanceled, 125), (Status_Code_einprogress, 115),
      (Status_Code_eperm, 1), (Status_Code_eopnotsupp, 95), (Status_Code_ewouldblock, 11),
      (Status_Code_eownerdead, 130), (Status_Code_eacces, 13), (Status_Code_eproto, 71),
      (Status_Code_eprotonosupport, 93), (Status_Code_erofs, 30), (Status_Code_edeadlk, 35),
      (Status_Code_eagain, 11), (Status_Code_erange, 34), (Status_Code_enotrecoverable, 131),
      (Status_Code_etime, 62), (Status_Code_etxtbsy, 26), (Status_Code_etimedout, 110),
      (Status_Code_enfile, 23), (Status_Code_emfile, 24), (Status_Code_emlink, 31), (Status_Code_eloop, 40),
      (Status_Code_eoverflow, 75), (Status_Code_eprototype, 91)]"

definition translation_left :: "status_code \<Rightarrow> int option" where
  "translation_left c = map_of translation c"

definition translation_right :: "int \<Rightarrow> status_code option" where
  "translation_right e = map_of (map (\<lambda>(c, e). (e, c)) translation) e"

record status_msg =
  pb_code :: status_code
  pb_description :: "string option"

record status =
  m_code :: int
  m_description :: "string option"

definition Status :: "status_msg \<Rightarrow> status" where
  "Status msg =
     \<lparr>m_code = (case translation_left (pb_code msg) of None \<Rightarrow> EPROTO | Some errc \<Rightarrow> errc),
      m_description = pb_description msg\<rparr>"

definition throwOnError :: "status \<Rightarrow> unit fut" where
  "throwOnError s = (if m_code s = 0 then Inr () else Inl (system_error (m_code s)))"

definition status_serializeAndDestroy :: "status \<Rightarrow> status_msg fut" where
  "status_serializeAndDestroy s =
     (case translation_right (m_code s) of
        None \<Rightarrow> Inl assertion_failed
      | Some c \<Rightarrow> Inr \<lparr>pb_code = c, pb_description = m_description s\<rparr>)"

lemma translation_distinct: "distinct (map fst translation)"
  by (simp add: translation_def)

text \<open>A status that can be sent is the same when it is received.\<close>

lemma status_roundtrip:
  assumes "status_serializeAndDestroy s = Inr msg"
  shows "Status msg = s"
proof -
  from assms obtain c where c: "translation_right (m_code s) = Some c"
    and msg: "msg = \<lparr>pb_code = c, pb_description = m_description s\<rparr>"
    by (auto simp: status_serializeAndDestroy_def split: option.split_asm)
  from c have "(c, m_code s) \<in> set translation" unfolding translation_right_def by (auto dest: map_of_SomeD)
  then have "translation_left c = Some (m_code s)" unfolding translation_left_def by (rule map_of_is_SomeI [OF translation_distinct])
  then show ?thesis by (simp add: msg Status_def)
qed


section \<open>Handshake\<close>

text \<open>\<^verbatim>\<open>clproto::HandshakeStatus\<close> as far as the code names it.\<close>

datatype HandshakeStatus =
    HS_OK | HS_MACAROON_NOT_FOUND | HS_MACAROON_EXPIRED | HS_INVALID_MACAROON | HS_INVALID_METHOD
  | HS_ROOT_RESOURCE_NOT_FOUND | HS_INVALID_PROVIDER | HS_BAD_SIGNATURE_FOR_MACAROON
  | HS_FAILED_TO_DESCRYPT_CAVEAT | HS_NO_DISCHARGE_MACAROON_FOR_CAVEAT | HS_INCOMPATIBLE_VERSION
  | HS_INTERNAL_SERVER_ERROR

datatype ErrorCode =
    ok | macaroon_expired | macaroon_not_found | invalid_macaroon | invalid_method | root_resource_not_found
  | invalid_provider | bad_signature_for_macaroon | failed_to_decrypt_caveat | no_discharge_macaroon_for_caveat
  | incompatible_version | internal_server_error

definition translateStatus :: "HandshakeStatus \<Rightarrow> ErrorCode" where
  "translateStatus msg_status =
     (case msg_status of
        HS_OK \<Rightarrow> ok
      | HS_MACAROON_NOT_FOUND \<Rightarrow> macaroon_not_found
      | HS_MACAROON_EXPIRED \<Rightarrow> macaroon_expired
      | HS_INVALID_MACAROON \<Rightarrow> invalid_macaroon
      | HS_INVALID_METHOD \<Rightarrow> invalid_method
      | HS_ROOT_RESOURCE_NOT_FOUND \<Rightarrow> root_resource_not_found
      | HS_INVALID_PROVIDER \<Rightarrow> invalid_provider
      | HS_BAD_SIGNATURE_FOR_MACAROON \<Rightarrow> bad_signature_for_macaroon
      | HS_FAILED_TO_DESCRYPT_CAVEAT \<Rightarrow> failed_to_decrypt_caveat
      | HS_NO_DISCHARGE_MACAROON_FOR_CAVEAT \<Rightarrow> no_discharge_macaroon_for_caveat
      | HS_INCOMPATIBLE_VERSION \<Rightarrow> incompatible_version
      | _ \<Rightarrow> internal_server_error)"

definition isMacaroonError :: "ErrorCode \<Rightarrow> bool" where
  "isMacaroonError m_status \<longleftrightarrow> m_status \<noteq> ok \<and> m_status \<noteq> internal_server_error"

text \<open>\<^verbatim>\<open>makeErrorCode\<close>: the position of the code in its enumeration; 0 is no error.\<close>

definition makeErrorCode :: "ErrorCode \<Rightarrow> int" where
  "makeErrorCode e =
     (case e of ok \<Rightarrow> 0 | macaroon_expired \<Rightarrow> 1 | macaroon_not_found \<Rightarrow> 2 | invalid_macaroon \<Rightarrow> 3 | invalid_method \<Rightarrow> 4
      | root_resource_not_found \<Rightarrow> 5 | invalid_provider \<Rightarrow> 6 | bad_signature_for_macaroon \<Rightarrow> 7 | failed_to_decrypt_caveat \<Rightarrow> 8
      | no_discharge_macaroon_for_caveat \<Rightarrow> 9 | incompatible_version \<Rightarrow> 10 | internal_server_error \<Rightarrow> 11)"

record handshake_request_msg =
  pb_session_id :: string
  pb_macaroon :: "string option"
  pb_version :: string

record ClientHandshakeRequest =
  m_sessionId :: string
  m_macaroon :: "string option"
  m_version :: string

definition handshake_serializeAndDestroy :: "ClientHandshakeRequest \<Rightarrow> handshake_request_msg" where
  "handshake_serializeAndDestroy r = \<lparr>pb_session_id = m_sessionId r, pb_macaroon = m_macaroon r, pb_version = m_version r\<rparr>"

text \<open>No handshake error is taken for success, and each keeps its own code.\<close>

lemma translateStatus_ok: "translateStatus s = ok \<longleftrightarrow> s = HS_OK"
  by (cases s) (simp_all add: translateStatus_def)

lemma makeErrorCode_inj: "makeErrorCode a = makeErrorCode b \<longleftrightarrow> a = b"
  by (cases a; cases b) (simp_all add: makeErrorCode_def)

lemma handshake_fails: "makeErrorCode (translateStatus s) = 0 \<longleftrightarrow> s = HS_OK"
  using makeErrorCode_inj [of "translateStatus s" ok] by (simp add: translateStatus_ok makeErrorCode_def)

section \<open>Proxied reads and writes\<close>

text \<open>Sizes are natural numbers: those of buffers stay within \<^verbatim>\<open>std::size_t\<close>.\<close>

record byte_sequence =
  bs_offset :: int
  bs_data :: bytes

record proxyio_request_msg =
  pb_parameters :: "(string \<times> string) list"
  pb_storage_id :: string
  pb_file_id :: string
  pb_remote_read :: "(int \<times> nat) option"
  pb_remote_write :: "byte_sequence list option"

record ProxyIORequest =
  m_parameters :: "(string \<times> string) list"
  rq_storageId :: string
  rq_fileId :: string

definition request_serializeAndDestroy :: "ProxyIORequest \<Rightarrow> proxyio_request_msg" where
  "request_serializeAndDestroy r =
     \<lparr>pb_parameters = m_parameters r, pb_storage_id = rq_storageId r, pb_file_id = rq_fileId r, pb_remote_read = None,
      pb_remote_write = None\<rparr>"

definition remoteRead_serializeAndDestroy :: "ProxyIORequest \<Rightarrow> int \<Rightarrow> nat \<Rightarrow> proxyio_request_msg" where
  "remoteRead_serializeAndDestroy r offset sz = (request_serializeAndDestroy r)\<lparr>pb_remote_read := Some (offset, sz)\<rparr>"

definition remoteWrite_serializeAndDestroy :: "ProxyIORequest \<Rightarrow> (int \<times> bytes) list \<Rightarrow> proxyio_request_msg" where
  "remoteWrite_serializeAndDestroy r data =
     (request_serializeAndDestroy r)\<lparr>pb_remote_write := Some (map (\<lambda>e. \<lparr>bs_offset = fst e, bs_data = snd e\<rparr>) data)\<rparr>"

record proxyio_response_msg =
  pb_status :: status_msg
  pb_remote_data :: "bytes option"
  pb_remote_write_result :: "nat option"

text \<open>A server message, which may hold no response.\<close>

type_synonym proxyio_server_msg = "proxyio_response_msg option"

definition ProxyIOResponse :: "proxyio_server_msg \<Rightarrow> unit fut" where
  "ProxyIOResponse msg =
     (case msg of None \<Rightarrow> Inl (system_error EPROTO) | Some response \<Rightarrow> throwOnError (Status (pb_status response)))"

definition RemoteData :: "proxyio_server_msg \<Rightarrow> bytes fut" where
  "RemoteData msg =
     (case ProxyIOResponse msg of
        Inl e \<Rightarrow> Inl e
      | Inr _ \<Rightarrow> (case pb_remote_data (the msg) of None \<Rightarrow> Inl (system_error EPROTO) | Some data \<Rightarrow> Inr data))"

definition RemoteWriteResult :: "proxyio_server_msg \<Rightarrow> nat fut" where
  "RemoteWriteResult msg =
     (case ProxyIOResponse msg of
        Inl e \<Rightarrow> Inl e
      | Inr _ \<Rightarrow> (case pb_remote_write_result (the msg) of None \<Rightarrow> Inl (system_error EPROTO) | Some wrote \<Rightarrow> Inr wrote))"

section \<open>Processing status\<close>

text \<open>The code of a processing status must be present.\<close>

definition ProcessingStatus :: "'c option \<Rightarrow> 'c fut" where
  "ProcessingStatus msg_code = (case msg_code of None \<Rightarrow> Inl (system_error EPROTO) | Some c \<Rightarrow> Inr c)"

end
