(* ===== verification/Proxy.thy ===== *)
theory Proxy
  imports Buffering Messages
begin

text \<open>
  \<^verbatim>\<open>src/src/proxyHelper.cc\<close> and \<^verbatim>\<open>proxyHelper.h\<close>: files read and written
  through a provider. The communicator is the
  parameter \<open>communicate\<close>, which gives the provider's answer or the error of the call.
\<close>

section \<open>Proxied files\<close>

record ProxyFileHandle =
  pf_fileId :: string
  pf_storageId :: string
  pf_openParams :: "(string \<times> string) list"

type_synonym 's communicator = "proxyio_request_msg \<Rightarrow> 's \<Rightarrow> proxyio_server_msg fut \<times> 's"

definition request_of :: "ProxyFileHandle \<Rightarrow> ProxyIORequest" where
  "request_of h = \<lparr>m_parameters = pf_openParams h, rq_storageId = pf_storageId h, rq_fileId = pf_fileId h\<rparr>"

definition proxy_read :: "'s communicator \<Rightarrow> ProxyFileHandle \<Rightarrow> int \<Rightarrow> nat \<Rightarrow> 's \<Rightarrow> bytes fut \<times> 's" where
  "proxy_read communicate h offset sz st =
     (case communicate (remoteRead_serializeAndDestroy (request_of h) offset sz) st of
        (Inl e, st') \<Rightarrow> (Inl e, st')
      | (Inr msg, st') \<Rightarrow> (RemoteData msg, st'))"

definition proxy_multiwrite :: "'s communicator \<Rightarrow> ProxyFileHandle \<Rightarrow> (int \<times> bytes) list \<Rightarrow> 's \<Rightarrow> nat fut \<times> 's" where
  "proxy_multiwrite communicate h buffs st =
     (let stringBuffs = filter (\<lambda>elem. snd elem \<noteq> []) buffs
      in case communicate (remoteWrite_serializeAndDestroy (request_of h) stringBuffs) st of
           (Inl e, st') \<Rightarrow> (Inl e, st')
         | (Inr msg, st') \<Rightarrow> (RemoteWriteResult msg, st'))"

definition proxy_write :: "'s communicator \<Rightarrow> ProxyFileHandle \<Rightarrow> int \<Rightarrow> bytes \<Rightarrow> 's \<Rightarrow> nat fut \<times> 's" where
  "proxy_write communicate h offset buf st = proxy_multiwrite communicate h [(offset, buf)] st"

text \<open>\<open>ProxyHelper\<close> holds the id of the storage; it opens files without asking the provider.\<close>

definition proxy_open :: "string \<Rightarrow> string \<Rightarrow> (string \<times> string) list \<Rightarrow> ProxyFileHandle fut" where
  "proxy_open storageId fileId openParams =
     Inr \<lparr>pf_fileId = fileId, pf_storageId = storageId, pf_openParams = openParams\<rparr>"

definition createProxyHelper :: "(string \<Rightarrow> u64 option) \<Rightarrow> u64 \<Rightarrow> Params \<Rightarrow> string fut" where
  "createProxyHelper to_size asyncOpsTimeout parameters =
     (case getParam_string parameters ''storageId'' of
        Inl e \<Rightarrow> Inl e
      | Inr storageId \<Rightarrow>
          (case getParam_def_val to_size parameters ''timeout'' asyncOpsTimeout of
             Inl e \<Rightarrow> Inl e
           | Inr _ \<Rightarrow> Inr storageId))"

text \<open>A provider that serves the file of a handle.\<close>

locale provider =
  fixes communicate :: "'s communicator"
    and h :: ProxyFileHandle
    and file_on :: "'s \<Rightarrow> bytes"
  assumes serves_read: "0 \<le> off \<Longrightarrow>
      \<exists>st'. communicate (remoteRead_serializeAndDestroy (request_of h) off n) st =
        (Inr (Some \<lparr>pb_status = \<lparr>pb_code = Status_Code_ok, pb_description = None\<rparr>,
           pb_remote_data = Some (take n (drop (nat off) (file_on st))), pb_remote_write_result = None\<rparr>), st') \<and> file_on st' = file_on st"
    and serves_write: "\<forall>w \<in> set data. 0 \<le> fst w \<Longrightarrow>
      \<exists>st'. communicate (remoteWrite_serializeAndDestroy (request_of h) data) st =
        (Inr (Some \<lparr>pb_status = \<lparr>pb_code = Status_Code_ok, pb_description = None\<rparr>, pb_remote_data = None,
           pb_remote_write_result = Some (sum_list (map (length \<circ> snd) data))\<rparr>), st') \<and> file_on st' = written data (file_on st)"

lemma written_nonempty: "written (filter (\<lambda>e. snd e \<noteq> []) bufs) f = written bufs f"
  by (induction bufs arbitrary: f) (auto simp: written_def write_at_def Let_def)

lemma length_nonempty:
  "sum_list (map (length \<circ> snd) (filter (\<lambda>e. snd e \<noteq> []) bufs)) = sum_list (map (length \<circ> snd) bufs)"
  by (induction bufs) auto

lemma status_ok: "throwOnError (Status \<lparr>pb_code = Status_Code_ok, pb_description = d\<rparr>) = Inr ()"
  by (simp add: throwOnError_def Status_def translation_left_def translation_def)

context provider
begin

lemma proxy_read_file:
  assumes "0 \<le> off"
  shows "fst (proxy_read communicate h off n st) = Inr (take n (drop (nat off) (file_on st)))"
  using serves_read [OF assms, of n st] by (auto simp: proxy_read_def RemoteData_def ProxyIOResponse_def status_ok)

lemma proxy_multiwrite_file:
  assumes "\<forall>w \<in> set bufs. 0 \<le> fst w"
  shows "\<exists>st'. proxy_multiwrite communicate h bufs st = (Inr (sum_list (map (length \<circ> snd) bufs)), st') \<and>
    file_on st' = written bufs (file_on st)"
proof -
  have "\<forall>w \<in> set (filter (\<lambda>e. snd e \<noteq> []) bufs). 0 \<le> fst w" using assms by simp
  from serves_write [OF this, of st] show ?thesis
    by (auto simp: proxy_multiwrite_def RemoteWriteResult_def ProxyIOResponse_def status_ok written_nonempty length_nonempty)
qed

end

sublocale provider \<subseteq> file_handle "\<lambda>off n st. fst (proxy_read communicate h off n st)" "proxy_multiwrite communicate h"
  default_sync file_on "{}" "\<lambda>_. True" "2 ^ 64"
proof -
  show "file_handle (\<lambda>off n st. fst (proxy_read communicate h off n st)) (proxy_multiwrite communicate h) default_sync file_on {}
      (\<lambda>_. True) (2 ^ 64)"
    using proxy_read_file proxy_multiwrite_file by unfold_locales (fastforce simp: reads_file_def default_sync_def)+
qed

text \<open>A provider with the file in memory.\<close>

definition serve :: "bytes communicator" where
  "serve msg f =
     (let answer = \<lparr>pb_status = \<lparr>pb_code = Status_Code_ok, pb_description = None\<rparr>, pb_remote_data = None,
                    pb_remote_write_result = None\<rparr>
      in case pb_remote_read msg of
           Some (off, n) \<Rightarrow> (Inr (Some (answer\<lparr>pb_remote_data := Some (take n (drop (nat off) f))\<rparr>)), f)
         | None \<Rightarrow>
             (case pb_remote_write msg of
                Some seqs \<Rightarrow>
                  (Inr (Some (answer\<lparr>pb_remote_write_result := Some (sum_list (map (length \<circ> bs_data) seqs))\<rparr>)),
                   written (map (\<lambda>s. (bs_offset s, bs_data s)) seqs) f)
              | None \<Rightarrow> (Inr None, f)))"

interpretation memory_provider: provider serve h "\<lambda>f. f"
  by unfold_locales
    (simp_all add: serve_def remoteRead_serializeAndDestroy_def remoteWrite_serializeAndDestroy_def request_serializeAndDestroy_def
      o_def)

end
