(* ===== verification/CephStriper.thy ===== *)
theory CephStriper
  imports Buffering
begin

text \<open>
  \<^verbatim>\<open>src/src/cephHelper.cc\<close> and \<^verbatim>\<open>cephHelper.h\<close>: files on Ceph through libradosstriper. The library is the
  parameter \<open>striper\<close>: its calls return an \<^verbatim>\<open>int\<close>, negative on failure, or \<open>Inl\<close> of the negative
  code where they also give data.
\<close>

section \<open>The library\<close>

record 's striper =
  rados_init2 :: "string \<Rightarrow> string \<Rightarrow> 's \<Rightarrow> int \<times> 's"
  rados_conf_set :: "string \<Rightarrow> string \<Rightarrow> 's \<Rightarrow> int \<times> 's"
  rados_connect :: "'s \<Rightarrow> int \<times> 's"
  rados_ioctx_create :: "string \<Rightarrow> 's \<Rightarrow> int \<times> 's"
  rados_striper_create :: "'s \<Rightarrow> int \<times> 's"
  rados_alignment :: "'s \<Rightarrow> int \<times> 's"
  rados_close :: "'s \<Rightarrow> 's"
  rados_set_layout :: "u64 \<Rightarrow> u64 \<Rightarrow> u64 \<Rightarrow> 's \<Rightarrow> 's"
  rs_read :: "string \<Rightarrow> nat \<Rightarrow> int \<Rightarrow> 's \<Rightarrow> (int + bytes) \<times> 's"
  rs_write :: "string \<Rightarrow> bytes \<Rightarrow> int \<Rightarrow> 's \<Rightarrow> int \<times> 's"
  rs_write_full :: "string \<Rightarrow> bytes \<Rightarrow> 's \<Rightarrow> int \<times> 's"
  rs_remove :: "string \<Rightarrow> 's \<Rightarrow> int \<times> 's"
  rs_trunc :: "string \<Rightarrow> int \<Rightarrow> 's \<Rightarrow> int \<times> 's"
  rs_getxattr :: "string \<Rightarrow> string \<Rightarrow> 's \<Rightarrow> (int + string) \<times> 's"
  rs_setxattr :: "string \<Rightarrow> string \<Rightarrow> string \<Rightarrow> 's \<Rightarrow> int \<times> 's"
  rs_rmxattr :: "string \<Rightarrow> string \<Rightarrow> 's \<Rightarrow> int \<times> 's"
  rs_getxattrs :: "string \<Rightarrow> 's \<Rightarrow> (int + string list) \<times> 's"
  list_lockers :: "string \<Rightarrow> string \<Rightarrow> 's \<Rightarrow> (int + (string \<times> string) list) \<times> 's"
  break_lock :: "string \<Rightarrow> string \<Rightarrow> string \<times> string \<Rightarrow> 's \<Rightarrow> int \<times> 's"

text \<open>The values on Linux of the errors named.\<close>

definition CEPH_RETRY_ERRORS :: "int list" where
  "CEPH_RETRY_ERRORS =
     [4, 5, 11, 13, 16, 24, 26, 29, 31, 32, 35, 11, 64, 67, 98, 99, 100, 101, 103, 104, 107, 112, 113, 121, 123, 125]"

definition CephRetryCondition :: "int \<Rightarrow> bool" where
  "CephRetryCondition result \<longleftrightarrow> - result \<notin> set CEPH_RETRY_ERRORS"

definition CephRetryCondition_data :: "int + 'a \<Rightarrow> bool" where
  "CephRetryCondition_data result = (case result of Inl ret \<Rightarrow> CephRetryCondition ret | Inr _ \<Rightarrow> True)"

definition striper_result :: "int \<times> 's \<Rightarrow> unit fut \<times> 's" where
  "striper_result r = (if fst r < 0 then Inl (makePosixException (fst r)) else Inr (), snd r)"

definition striper_data :: "(int + 'a) \<times> 's \<Rightarrow> 'a fut \<times> 's" where
  "striper_data r = (map_sum makePosixException id (fst r), snd r)"

section \<open>Connecting\<close>

record CephHelper =
  m_clusterName :: string
  m_monHost :: string
  m_poolName :: string
  m_userName :: string
  m_key :: string

record 's striper_state =
  m_connected :: bool
  cluster :: 's

text \<open>
  \<open>then_call\<close> makes the next call when the one before did not fail; \<open>cleanup\<close> is done when the call fails.
\<close>

definition then_call :: "('s \<Rightarrow> int \<times> 's) \<Rightarrow> ('s \<Rightarrow> 's) \<Rightarrow> unit fut \<times> 's \<Rightarrow> unit fut \<times> 's" where
  "then_call call cleanup r =
     (case r of
        (Inl e, st) \<Rightarrow> (Inl e, st)
      | (Inr _, st) \<Rightarrow>
          (let (ret, st') = call st
           in if ret < 0 then (Inl (makePosixException ret), cleanup st') else (Inr (), st')))"

definition connect_cluster :: "'s striper \<Rightarrow> CephHelper \<Rightarrow> 's \<Rightarrow> unit fut \<times> 's" where
  "connect_cluster lib h st =
     then_call (rados_alignment lib) (rados_close lib)
     (then_call (retry_io (rados_striper_create lib) CephRetryCondition) (rados_close lib)
     (then_call (retry_io (rados_ioctx_create lib (m_poolName h)) CephRetryCondition) id
     (then_call (retry_io (rados_connect lib) CephRetryCondition) id
     (then_call (rados_conf_set lib ''key'' (m_key h)) id
     (then_call (rados_conf_set lib ''mon host'' (m_monHost h)) id
     (then_call (rados_init2 lib (m_userName h) (m_clusterName h)) id (Inr (), st)))))))"

definition m_stripeUnit :: u64 where "m_stripeUnit = 4 * 1024 * 1024"
definition m_stripeCount :: u64 where "m_stripeCount = 8"
definition m_objectSize :: u64 where "m_objectSize = 16 * 1024 * 1024"

definition striper_connect :: "'s striper \<Rightarrow> CephHelper \<Rightarrow> 's striper_state \<Rightarrow> unit fut \<times> 's striper_state" where
  "striper_connect lib h s =
     (if m_connected s then (Inr (), s)
      else (case connect_cluster lib h (cluster s) of
              (Inl e, st) \<Rightarrow> (Inl e, s\<lparr>cluster := st\<rparr>)
            | (Inr _, st) \<Rightarrow>
                (Inr (), \<lparr>m_connected = True, cluster = rados_set_layout lib m_stripeUnit m_stripeCount m_objectSize st\<rparr>)))"

text \<open>Every operation connects first; the helper is alive.\<close>

definition connected_do ::
  "'s striper \<Rightarrow> CephHelper \<Rightarrow> ('s \<Rightarrow> 'a fut \<times> 's) \<Rightarrow> 's striper_state \<Rightarrow> 'a fut \<times> 's striper_state" where
  "connected_do lib h body s =
     (case striper_connect lib h s of
        (Inl e, s1) \<Rightarrow> (Inl e, s1)
      | (Inr _, s1) \<Rightarrow> (let (r, st) = body (cluster s1) in (r, s1\<lparr>cluster := st\<rparr>)))"

section \<open>Files\<close>

definition striper_read ::
  "'s striper \<Rightarrow> CephHelper \<Rightarrow> string \<Rightarrow> int \<Rightarrow> nat \<Rightarrow> 's striper_state \<Rightarrow> bytes fut \<times> 's striper_state" where
  "striper_read lib h fileId offset sz =
     connected_do lib h (\<lambda>st. striper_data (retry_io (rs_read lib fileId sz offset) CephRetryCondition_data st))"

definition striper_write ::
  "'s striper \<Rightarrow> CephHelper \<Rightarrow> string \<Rightarrow> int \<Rightarrow> bytes \<Rightarrow> 's striper_state \<Rightarrow> nat fut \<times> 's striper_state" where
  "striper_write lib h fileId offset buf =
     connected_do lib h (\<lambda>st.
       let (ret, st') = retry_io (rs_write lib fileId buf offset) CephRetryCondition st
       in (if ret < 0 then Inl (makePosixException ret) else Inr (length buf), st'))"

fun break_locks :: "'s striper \<Rightarrow> string \<Rightarrow> (string \<times> string) list \<Rightarrow> 's \<Rightarrow> int \<times> 's" where
  "break_locks lib striperFileId [] st = (0, st)"
| "break_locks lib striperFileId (locker # lockers) st =
     (let (result, st') = break_lock lib striperFileId ''striper.lock'' locker st
      in if result < 0 then (result, st') else break_locks lib striperFileId lockers st')"

definition removeStriperLocks :: "'s striper \<Rightarrow> string \<Rightarrow> 's \<Rightarrow> int \<times> 's" where
  "removeStriperLocks lib fileId st =
     (let striperFileId = fileId @ ''.0000000000000000''
      in case list_lockers lib striperFileId ''striper.lock'' st of
           (Inl result, st') \<Rightarrow> (result, st')
         | (Inr lockers, st') \<Rightarrow> break_locks lib striperFileId lockers st')"


text \<open>A call that failed because of locks is made once more after they are broken.\<close>

definition unlocked :: "'s striper \<Rightarrow> string \<Rightarrow> ('s \<Rightarrow> int \<times> 's) \<Rightarrow> int \<times> 's \<Rightarrow> int \<times> 's" where
  "unlocked lib fileId call r =
     (let (broken, st1) = removeStriperLocks lib fileId (snd r)
      in if broken = 0 then call st1 else (fst r, st1))"

definition striper_unlink ::
  "'s striper \<Rightarrow> CephHelper \<Rightarrow> string \<Rightarrow> 's striper_state \<Rightarrow> unit fut \<times> 's striper_state" where
  "striper_unlink lib h fileId =
     connected_do lib h (\<lambda>st.
       let r = retry_io (rs_remove lib fileId) CephRetryCondition st
       in striper_result (if fst r = - EBUSY then unlocked lib fileId (rs_remove lib fileId) r else r))"

definition striper_truncate ::
  "'s striper \<Rightarrow> CephHelper \<Rightarrow> string \<Rightarrow> int \<Rightarrow> 's striper_state \<Rightarrow> unit fut \<times> 's striper_state" where
  "striper_truncate lib h fileId sz =
     connected_do lib h (\<lambda>st.
       let r = retry_io (rs_trunc lib fileId sz) CephRetryCondition st
       in striper_result
            (if fst r = - ENOENT then rs_trunc lib fileId sz (snd (rs_write_full lib fileId [] (snd r)))
             else if fst r = - EBUSY then unlocked lib fileId (rs_trunc lib fileId sz) r
             else r))"

definition striper_getxattr ::
  "'s striper \<Rightarrow> CephHelper \<Rightarrow> string \<Rightarrow> string \<Rightarrow> 's striper_state \<Rightarrow> string fut \<times> 's striper_state" where
  "striper_getxattr lib h fileId nm =
     connected_do lib h (\<lambda>st. striper_data (retry_io (rs_getxattr lib fileId nm) CephRetryCondition_data st))"

definition striper_setxattr ::
  "'s striper \<Rightarrow> CephHelper \<Rightarrow> string \<Rightarrow> string \<Rightarrow> string \<Rightarrow> bool \<Rightarrow> bool \<Rightarrow> 's striper_state \<Rightarrow>
   unit fut \<times> 's striper_state" where
  "striper_setxattr lib h fileId nm val create repl =
     connected_do lib h (\<lambda>st.
       if create \<and> repl then (Inl (makePosixException EINVAL), st)
       else
         (let (xattrExists, st1) =
                (if create \<or> repl then retry_io (rs_getxattr lib fileId nm) CephRetryCondition_data st else (Inl 0, st))
          in if create \<and> \<not> isl xattrExists then (Inl (makePosixException EEXIST), st1)
             else if repl \<and> isl xattrExists then (Inl (makePosixException ENODATA), st1)
             else striper_result (retry_io (rs_setxattr lib fileId nm val) CephRetryCondition st1)))"

definition striper_removexattr ::
  "'s striper \<Rightarrow> CephHelper \<Rightarrow> string \<Rightarrow> string \<Rightarrow> 's striper_state \<Rightarrow> unit fut \<times> 's striper_state" where
  "striper_removexattr lib h fileId nm =
     connected_do lib h (\<lambda>st. striper_result (retry_io (rs_rmxattr lib fileId nm) CephRetryCondition st))"

definition striper_listxattr ::
  "'s striper \<Rightarrow> CephHelper \<Rightarrow> string \<Rightarrow> 's striper_state \<Rightarrow> string list fut \<times> 's striper_state" where
  "striper_listxattr lib h fileId =
     connected_do lib h (\<lambda>st. striper_data (retry_io (rs_getxattrs lib fileId) CephRetryCondition_data st))"

definition createCephHelper :: "(string \<Rightarrow> u64 option) \<Rightarrow> u64 \<Rightarrow> Params \<Rightarrow> CephHelper fut" where
  "createCephHelper to_size asyncOpsTimeout parameters =
     (case getParam_string parameters ''clusterName'' of
        Inl e \<Rightarrow> Inl e
      | Inr clusterName \<Rightarrow>
          (case getParam_string parameters ''monitorHostname'' of
             Inl e \<Rightarrow> Inl e
           | Inr monHost \<Rightarrow>
               (case getParam_string parameters ''poolName'' of
                  Inl e \<Rightarrow> Inl e
                | Inr poolName \<Rightarrow>
                    (case getParam_string parameters ''username'' of
                       Inl e \<Rightarrow> Inl e
                     | Inr userName \<Rightarrow>
                         (case getParam_string parameters ''key'' of
                            Inl e \<Rightarrow> Inl e
                          | Inr ky \<Rightarrow>
                              (case getParam_def_val to_size parameters ''timeout'' asyncOpsTimeout of
                                 Inl e \<Rightarrow> Inl e
                               | Inr _ \<Rightarrow> Inr \<lparr>m_clusterName = clusterName, m_monHost = monHost, m_poolName = poolName,
                                              m_userName = userName, m_key = ky\<rparr>))))))"


section \<open>Connection and locks\<close>

text \<open>The helper counts as connected exactly when connecting succeeded.\<close>

lemma connect_sets:
  "m_connected (snd (striper_connect lib h s)) \<longleftrightarrow> fst (striper_connect lib h s) = Inr ()"
  by (auto simp: striper_connect_def split: prod.split sum.split)

text \<open>A failed call ends the connection at once: no later call of the chain is made.\<close>

lemma then_call_failed: "then_call call cleanup (Inl e, st) = (Inl e, st)"
  by (simp add: then_call_def)

lemma connect_init_fails:
  assumes "rados_init2 lib (m_userName h) (m_clusterName h) st = (ret, st')" and "ret < 0"
  shows "connect_cluster lib h st = (Inl (makePosixException ret), st')"
  using assms by (simp add: connect_cluster_def then_call_def)

text \<open>The locks of a file are broken one after the other until one cannot be.\<close>

lemma break_locks_all:
  assumes "\<And>l st. l \<in> set lockers \<Longrightarrow> fst (break_lock lib f ''striper.lock'' l st) \<ge> 0"
  shows "break_locks lib f lockers st = (0, fold (\<lambda>l st. snd (break_lock lib f ''striper.lock'' l st)) lockers st)"
  using assms
proof (induction lockers arbitrary: st)
  case (Cons l lockers)
  have "\<not> fst (break_lock lib f ''striper.lock'' l st) < 0" using Cons.prems [of l st] by simp
  then show ?case using Cons by (simp add: case_prod_beta)
qed simp

lemma unlink_breaks_locks:
  assumes "m_connected s" and "retry_io (rs_remove lib fileId) CephRetryCondition (cluster s) = (- EBUSY, st1)"
    and "list_lockers lib (fileId @ ''.0000000000000000'') ''striper.lock'' st1 = (Inr lockers, st2)"
    and "\<And>l st. l \<in> set lockers \<Longrightarrow> fst (break_lock lib (fileId @ ''.0000000000000000'') ''striper.lock'' l st) \<ge> 0"
    and "rs_remove lib fileId (fold (\<lambda>l st. snd (break_lock lib (fileId @ ''.0000000000000000'') ''striper.lock'' l st)) lockers st2) =
      (ret, st3)"
  shows "striper_unlink lib h fileId s = (if ret < 0 then Inl (makePosixException ret) else Inr (), s\<lparr>cluster := st3\<rparr>)"
  using assms(1-3,5) break_locks_all [OF assms(4), of lockers st2]
  by (simp add: striper_unlink_def connected_do_def striper_connect_def unlocked_def removeStriperLocks_def striper_result_def)

section \<open>A file on the cluster\<close>

locale striper_file =
  fixes lib :: "'s striper"
    and h :: CephHelper
    and fileId :: string
    and object :: "'s \<Rightarrow> bytes"
  assumes connects: "\<exists>st'. connect_cluster lib h st = (Inr (), st') \<and> object st' = object st"
    and layout_object: "object (rados_set_layout lib a b c st) = object st"
    and read_object: "0 \<le> off \<Longrightarrow> \<exists>st'. rs_read lib fileId n off st = (Inr (take n (drop (nat off) (object st))), st') \<and> object st' = object st"
    and write_object: "0 \<le> off \<Longrightarrow>
      \<exists>ret st'. rs_write lib fileId buf off st = (ret, st') \<and> 0 \<le> ret \<and> object st' = write_at (object st) (off, buf)"
begin

lemma connected_body:
  assumes "\<And>st. object st = f \<Longrightarrow> \<exists>st'. body st = (r, st') \<and> object st' = f'" and "object (cluster s) = f"
  shows "\<exists>s'. connected_do lib h body s = (r, s') \<and> object (cluster s') = f'"
proof -
  obtain s1 where "striper_connect lib h s = (Inr (), s1)" "object (cluster s1) = f"
    using connects [of "cluster s"] assms(2) by (cases "m_connected s") (auto simp: striper_connect_def layout_object)
  then show ?thesis using assms(1) [of "cluster s1"] by (auto simp: connected_do_def)
qed

lemma striper_read_file:
  assumes "0 \<le> off"
  shows "fst (striper_read lib h fileId off n s) = Inr (take n (drop (nat off) (object (cluster s))))"
proof -
  have "\<exists>st'. striper_data (retry_io (rs_read lib fileId n off) CephRetryCondition_data st) =
      (Inr (take n (drop (nat off) (object (cluster s)))), st') \<and> object st' = object (cluster s)" if "object st = object (cluster s)" for st
  proof -
    note st = that
    obtain st' where r: "rs_read lib fileId n off st = (Inr (take n (drop (nat off) (object st))), st')" "object st' = object st"
      using read_object [OF assms] by blast
    have "retry_io (rs_read lib fileId n off) CephRetryCondition_data st = (Inr (take n (drop (nat off) (object st))), st')"
      by (rule retry_io_first) (simp_all add: r(1) CephRetryCondition_data_def)
    then show ?thesis using r(2) st by (simp add: striper_data_def)
  qed
  from connected_body [where s = s and
      body = "\<lambda>st. striper_data (retry_io (rs_read lib fileId n off) CephRetryCondition_data st)", OF this refl]
  show ?thesis by (auto simp: striper_read_def)
qed

lemma striper_write_file:
  assumes "0 \<le> off"
  shows "\<exists>s'. striper_write lib h fileId off buf s = (Inr (length buf), s') \<and>
    object (cluster s') = write_at (object (cluster s)) (off, buf)"
  unfolding striper_write_def
proof (rule connected_body [OF _ refl])
  fix st assume st: "object st = object (cluster s)"
  obtain ret st' where w: "rs_write lib fileId buf off st = (ret, st')" "0 \<le> ret" "object st' = write_at (object st) (off, buf)"
    using write_object [OF assms] by blast
  have "- ret \<notin> set CEPH_RETRY_ERRORS" using w(2) by (auto simp: CEPH_RETRY_ERRORS_def)
  then have "retry_io (rs_write lib fileId buf off) CephRetryCondition st = (ret, st')"
    by (intro retry_io_first) (simp_all add: w(1) CephRetryCondition_def)
  then show "\<exists>st'. (let (ret, st') = retry_io (rs_write lib fileId buf off) CephRetryCondition st
      in (if ret < 0 then Inl (makePosixException ret) else Inr (length buf), st')) = (Inr (length buf), st') \<and>
    object st' = write_at (object (cluster s)) (off, buf)" using w st by simp
qed

end

sublocale striper_file \<subseteq> file_handle "\<lambda>off n s. fst (striper_read lib h fileId off n s)"
  "multiwrite (striper_write lib h fileId)" default_sync "\<lambda>s. object (cluster s)" "{}" "\<lambda>_. True" "2 ^ 64"
proof -
  have "writes_file (\<lambda>_. True) (2 ^ 64) (\<lambda>s. object (cluster s)) (striper_write lib h fileId)"
    unfolding writes_file_def using striper_write_file by blast
  note multiwrite_written [OF this]
  then show "file_handle (\<lambda>off n s. fst (striper_read lib h fileId off n s)) (multiwrite (striper_write lib h fileId)) default_sync
      (\<lambda>s. object (cluster s)) {} (\<lambda>_. True) (2 ^ 64)"
    using striper_read_file by unfold_locales (simp_all add: reads_file_def default_sync_def)
qed

text \<open>A cluster with one file in memory.\<close>

definition memory_striper :: "bytes striper" where
  "memory_striper =
     \<lparr>rados_init2 = (\<lambda>_ _ f. (0, f)), rados_conf_set = (\<lambda>_ _ f. (0, f)), rados_connect = (\<lambda>f. (0, f)),
      rados_ioctx_create = (\<lambda>_ f. (0, f)), rados_striper_create = (\<lambda>f. (0, f)), rados_alignment = (\<lambda>f. (0, f)),
      rados_close = (\<lambda>f. f), rados_set_layout = (\<lambda>_ _ _ f. f),
      rs_read = (\<lambda>_ n off f. (Inr (take n (drop (nat off) f)), f)),
      rs_write = (\<lambda>_ buf off f. (0, write_at f (off, buf))),
      rs_write_full = (\<lambda>_ buf f. (0, buf)), rs_remove = (\<lambda>_ f. (0, [])),
      rs_trunc = (\<lambda>_ sz f. (0, take (nat sz) f @ replicate (nat sz - length f) 0)),
      rs_getxattr = (\<lambda>_ _ f. (Inl (- ENODATA), f)), rs_setxattr = (\<lambda>_ _ _ f. (0, f)), rs_rmxattr = (\<lambda>_ _ f. (0, f)),
      rs_getxattrs = (\<lambda>_ f. (Inr [], f)), list_lockers = (\<lambda>_ _ f. (Inr [], f)), break_lock = (\<lambda>_ _ _ f. (0, f))\<rparr>"

interpretation memory_cluster: striper_file memory_striper h fileId "\<lambda>f. f"
  by unfold_locales
    (simp_all add: memory_striper_def connect_cluster_def then_call_def retry_io_def retry_def CephRetryCondition_def
      CEPH_RETRY_ERRORS_def IO_RETRY_COUNT_def eval_nat_numeral)

end
