(* ===== verification/GlusterFS.thy ===== *)
theory GlusterFS
  imports Posix KvKeys
begin

unbundle bit_operations_syntax

text \<open>
  \<^verbatim>\<open>src/src/glusterfsHelper.cc\<close> and \<^verbatim>\<open>glusterfsHelper.h\<close>: files of a GlusterFS volume. The library
  \<^verbatim>\<open>libgfapi\<close> is the parameter \<open>lib\<close>, on a state of its own; a call gives \<open>Inl errno\<close> where it
  returns \<open>-1\<close> or a null pointer. The release of contexts nothing refers to any more is left out.
\<close>

section \<open>Relative paths\<close>

text \<open>Paths without their root, as the elements \<^verbatim>\<open>boost::filesystem\<close> iterates over.\<close>

fun skipCommon :: "string list \<Rightarrow> string list \<Rightarrow> string list" where
  "skipCommon (p # ps) (c # cs) = (if p = c then skipCommon ps cs else c # cs)"
| "skipCommon _ cs = cs"

definition appendElement :: "string list \<Rightarrow> string \<Rightarrow> string list" where
  "appendElement ret e = (if e = ''..'' then butlast ret else if e = ''.'' then ret else ret @ [e])"

definition makeRelative :: "string list \<Rightarrow> string list \<Rightarrow> string list" where
  "makeRelative parent child = (if parent = [] then child else foldl appendElement [] (skipCommon parent child))"

section \<open>The library\<close>

text \<open>
  A context is a number, a null pointer the number 0. The calls on paths are named as the
  system calls they stand for; \<open>glfs_path\<close> takes those of \<^typ>\<open>unit_call\<close> that name a path.
\<close>

record ('s, 't) gfapi =
  glfs_new :: "string \<Rightarrow> 's \<Rightarrow> nat \<times> 's"
  glfs_set_volfile_server :: "nat \<Rightarrow> string \<Rightarrow> string \<Rightarrow> int \<Rightarrow> 's \<Rightarrow> (int + unit) \<times> 's"
  glfs_set_xlator_option :: "nat \<Rightarrow> string \<Rightarrow> string \<Rightarrow> string \<Rightarrow> 's \<Rightarrow> (int + unit) \<times> 's"
  glfs_init :: "nat \<Rightarrow> 's \<Rightarrow> (int + unit) \<times> 's"
  glfs_setfsuid :: "u32 \<Rightarrow> 's \<Rightarrow> 's"
  glfs_setfsgid :: "u32 \<Rightarrow> 's \<Rightarrow> 's"
  glfs_path :: "nat \<Rightarrow> unit_call \<Rightarrow> 's \<Rightarrow> (int + unit) \<times> 's"
  glfs_close :: "nat \<Rightarrow> 's \<Rightarrow> (int + unit) \<times> 's"
  glfs_fsync :: "nat \<Rightarrow> 's \<Rightarrow> (int + unit) \<times> 's"
  glfs_fdatasync :: "nat \<Rightarrow> 's \<Rightarrow> (int + unit) \<times> 's"
  glfs_pread :: "nat \<Rightarrow> nat \<Rightarrow> int \<Rightarrow> 's \<Rightarrow> (int + bytes) \<times> 's"
  glfs_pwritev :: "nat \<Rightarrow> bytes list \<Rightarrow> int \<Rightarrow> 's \<Rightarrow> (int + nat) \<times> 's"
  glfs_creat :: "nat \<Rightarrow> string \<Rightarrow> u32 \<Rightarrow> u32 \<Rightarrow> 's \<Rightarrow> (int + nat) \<times> 's"
  glfs_open :: "nat \<Rightarrow> string \<Rightarrow> u32 \<Rightarrow> 's \<Rightarrow> (int + nat) \<times> 's"
  glfs_lstat :: "nat \<Rightarrow> string \<Rightarrow> 's \<Rightarrow> (int + 't) \<times> 's"
  glfs_opendir :: "nat \<Rightarrow> string \<Rightarrow> 's \<Rightarrow> (int + nat) \<times> 's"
  glfs_readdir :: "nat \<Rightarrow> 's \<Rightarrow> string option \<times> 's"
  glfs_closedir :: "nat \<Rightarrow> 's \<Rightarrow> 's"
  glfs_readlink :: "nat \<Rightarrow> string \<Rightarrow> nat \<Rightarrow> 's \<Rightarrow> (int + string) \<times> 's"
  glfs_getxattr :: "nat \<Rightarrow> string \<Rightarrow> string \<Rightarrow> nat \<Rightarrow> 's \<Rightarrow> (int + string) \<times> 's"
  glfs_listxattr_size :: "nat \<Rightarrow> string \<Rightarrow> 's \<Rightarrow> (int + nat) \<times> 's"
  glfs_listxattr :: "nat \<Rightarrow> string \<Rightarrow> nat \<Rightarrow> 's \<Rightarrow> (int + string) \<times> 's"
  glfs_append :: "string \<Rightarrow> string \<Rightarrow> string"
  glfs_elements :: "string \<Rightarrow> string list"

text \<open>The values on Linux of the errors named; ESTALE is not among them.\<close>

definition GLUSTERFS_RETRY_ERRORS :: "int list" where
  "GLUSTERFS_RETRY_ERRORS =
     [4, 5, 11, 13, 16, 24, 26, 29, 31, 32, 35, 11, 67, 98, 99, 100, 101, 103, 104, 107, 113, 125,
      64, 112, 121, 123]"

text \<open>The conditions on results and on handles.\<close>

definition GlusterFSRetryCondition :: "int + 'a \<Rightarrow> bool" where
  "GlusterFSRetryCondition result =
     (case result of Inr _ \<Rightarrow> True | Inl errno \<Rightarrow> errno \<notin> set GLUSTERFS_RETRY_ERRORS)"

text \<open>A retried call and its failure as an exception: \<open>setHandleResult\<close> and \<open>setContextResult\<close>.\<close>

definition setContextResult :: "('s \<Rightarrow> (int + 'a) \<times> 's) \<Rightarrow> 's \<Rightarrow> 'a fut \<times> 's" where
  "setContextResult call st =
     (case retry_io call GlusterFSRetryCondition st of
        (Inl errno, st') \<Rightarrow> (Inl (makePosixException errno), st')
      | (Inr r, st') \<Rightarrow> (Inr r, st'))"

section \<open>Options of the translators\<close>

fun parseOptionPairs :: "string list \<Rightarrow> (string \<times> string) list fut" where
  "parseOptionPairs [] = Inr []"
| "parseOptionPairs (optionPair # optionPairs) =
     (if optionPair = [] then parseOptionPairs optionPairs
      else
        (let v = split_at (CHR ''='') [] optionPair
         in if length v \<noteq> 2 \<or> v ! 0 = [] \<or> v ! 1 = [] then Inl runtime_error
            else (case parseOptionPairs optionPairs of Inl e \<Rightarrow> Inl e | Inr result \<Rightarrow> Inr ((v ! 0, v ! 1) # result))))"

definition parseXlatorOptions :: "string \<Rightarrow> (string \<times> string) list fut" where
  "parseXlatorOptions options =
     (if options = [] then Inr [] else parseOptionPairs (split_at (CHR '';'') [] options))"

section \<open>Connections\<close>

record GlusterFSConnection =
  glfsCtx :: nat
  connected :: bool

definition generateCtxId :: "string \<Rightarrow> int \<Rightarrow> string \<Rightarrow> string" where
  "generateCtxId hostname port volume = hostname @ ''::'' @ off_to_string port @ ''::'' @ volume"

record GlusterFSHelper = posix_helper +
  m_hostname :: string
  m_port :: int
  m_volume :: string
  m_transport :: string
  m_xlatorOptions :: string

text \<open>The connections all helpers share, the context of this helper and the library.\<close>

record 's gluster =
  glusterFSConnections :: "string \<Rightarrow> GlusterFSConnection option"
  m_glfsCtx :: nat
  gfapi_state :: 's

fun setXlatorOptions ::
  "('s, 't) gfapi \<Rightarrow> nat \<Rightarrow> string \<Rightarrow> (string \<times> string) list \<Rightarrow> 's \<Rightarrow> unit fut \<times> 's" where
  "setXlatorOptions lib ctx volume [] st = (Inr (), st)"
| "setXlatorOptions lib ctx volume (opt # opts) st =
     (case glfs_set_xlator_option lib ctx volume (fst opt) (snd opt) st of
        (Inl _, st1) \<Rightarrow> (Inl (makePosixException EINVAL), st1)
      | (Inr _, st1) \<Rightarrow> setXlatorOptions lib ctx volume opts st1)"

text \<open>The calls on a context that is new, until the volume is initialised.\<close>

definition initContext :: "('s, 't) gfapi \<Rightarrow> GlusterFSHelper \<Rightarrow> nat \<Rightarrow> 's \<Rightarrow> unit fut \<times> 's" where
  "initContext lib h ctx st =
     (if ctx = 0 then (Inl (makePosixException ENOMEM), st)
      else
        (case glfs_set_volfile_server lib ctx (m_transport h) (m_hostname h) (m_port h) st of
           (Inl errno, st1) \<Rightarrow> (Inl (makePosixException errno), st1)
         | (Inr _, st1) \<Rightarrow>
             (case parseXlatorOptions (m_xlatorOptions h) of
                Inl e \<Rightarrow> (Inl e, st1)
              | Inr opts \<Rightarrow>
                  (case setXlatorOptions lib ctx (m_volume h) opts st1 of
                     (Inl e, st2) \<Rightarrow> (Inl e, st2)
                   | (Inr _, st2) \<Rightarrow> setContextResult (glfs_init lib ctx) st2))))"

definition ctxId :: "GlusterFSHelper \<Rightarrow> string" where
  "ctxId h = generateCtxId (m_hostname h) (m_port h) (m_volume h)"

definition gl_connect :: "('s, 't) gfapi \<Rightarrow> GlusterFSHelper \<Rightarrow> 's gluster \<Rightarrow> unit fut \<times> 's gluster" where
  "gl_connect lib h s =
     (let gfsConnection = (case glusterFSConnections s (ctxId h) of
                             None \<Rightarrow> \<lparr>glfsCtx = 0, connected = False\<rparr>
                           | Some c \<Rightarrow> c);
          store = (\<lambda>c. (glusterFSConnections s)(ctxId h \<mapsto> c))
      in if connected gfsConnection
         then (Inr (), s\<lparr>glusterFSConnections := store gfsConnection, m_glfsCtx := glfsCtx gfsConnection\<rparr>)
         else
           (let (ctx, st) = glfs_new lib (m_volume h) (gfapi_state s);
                (r, st1) = initContext lib h ctx st
            in (r, s\<lparr>glusterFSConnections := store \<lparr>glfsCtx = ctx, connected = (\<not> isl r)\<rparr>, m_glfsCtx := ctx,
                     gfapi_state := st1\<rparr>)))"

text \<open>
  Every operation connects, and its body runs with the context of the helper; \<open>as_gluster\<close> also
  sets the ids of the thread, which are never set back.
\<close>

definition gl_do ::
  "('s, 't) gfapi \<Rightarrow> GlusterFSHelper \<Rightarrow> (nat \<Rightarrow> 's \<Rightarrow> 'a fut \<times> 's) \<Rightarrow> 's gluster \<Rightarrow> 'a fut \<times> 's gluster" where
  "gl_do lib h body s =
     (case gl_connect lib h s of
        (Inl e, s1) \<Rightarrow> (Inl e, s1)
      | (Inr _, s1) \<Rightarrow> (let (r, st) = body (m_glfsCtx s1) (gfapi_state s1) in (r, s1\<lparr>gfapi_state := st\<rparr>)))"

definition set_ids :: "('s, 't) gfapi \<Rightarrow> u32 \<Rightarrow> u32 \<Rightarrow> 's \<Rightarrow> 's" where
  "set_ids lib uid gid st = glfs_setfsgid lib gid (glfs_setfsuid lib uid st)"

abbreviation as_gluster ::
  "('s, 't) gfapi \<Rightarrow> GlusterFSHelper \<Rightarrow> (nat \<Rightarrow> 's \<Rightarrow> 'a fut \<times> 's) \<Rightarrow> 's gluster \<Rightarrow> 'a fut \<times> 's gluster" where
  "as_gluster lib h body \<equiv> gl_do lib h (\<lambda>ctx st. body ctx (set_ids lib (h_uid h) (h_gid h) st))"

section \<open>File handles\<close>

record gluster_handle =
  m_glfsFd :: nat
  g_needsRelease :: bool
  g_uid :: u32
  g_gid :: u32

abbreviation as_handle ::
  "('s, 't) gfapi \<Rightarrow> GlusterFSHelper \<Rightarrow> gluster_handle \<Rightarrow> ('s \<Rightarrow> 'a fut \<times> 's) \<Rightarrow> 's gluster \<Rightarrow> 'a fut \<times> 's gluster" where
  "as_handle lib h f body \<equiv> gl_do lib h (\<lambda>_ st. body (set_ids lib (g_uid f) (g_gid f) st))"

text \<open>A read that fails reports the value \<^verbatim>\<open>glfs_pread\<close> returned, which is \<open>-1\<close>, in place of \<^verbatim>\<open>errno\<close>.\<close>

definition gl_read ::
  "('s, 't) gfapi \<Rightarrow> GlusterFSHelper \<Rightarrow> gluster_handle \<Rightarrow> int \<Rightarrow> nat \<Rightarrow> 's gluster \<Rightarrow> bytes fut \<times> 's gluster" where
  "gl_read lib h f offset sz = as_handle lib h f (\<lambda>st.
     case retry_io (glfs_pread lib (m_glfsFd f) sz offset) GlusterFSRetryCondition st of
       (Inl _, st1) \<Rightarrow> (Inl (makePosixException (- 1)), st1)
     | (Inr buffer, st1) \<Rightarrow> (Inr buffer, st1))"

definition gl_write ::
  "('s, 't) gfapi \<Rightarrow> GlusterFSHelper \<Rightarrow> gluster_handle \<Rightarrow> int \<Rightarrow> bytes list \<Rightarrow> 's gluster \<Rightarrow> nat fut \<times> 's gluster" where
  "gl_write lib h f offset buf = as_handle lib h f (\<lambda>st.
     if concat buf = [] then (Inr 0, st)
     else setContextResult (glfs_pwritev lib (m_glfsFd f) (filter (\<lambda>b. b \<noteq> []) buf) offset) st)"

definition gl_release ::
  "('s, 't) gfapi \<Rightarrow> GlusterFSHelper \<Rightarrow> gluster_handle \<times> 's gluster \<Rightarrow> unit fut \<times> gluster_handle \<times> 's gluster" where
  "gl_release lib h fs =
     (if \<not> g_needsRelease (fst fs) then (Inr (), fs)
      else (let f = (fst fs)\<lparr>g_needsRelease := False\<rparr>;
                (r, s) = as_handle lib h f (setContextResult (glfs_close lib (m_glfsFd f))) (snd fs)
            in (r, (f, s))))"

definition gl_flush :: "('s, 't) gfapi \<Rightarrow> GlusterFSHelper \<Rightarrow> 's gluster \<Rightarrow> unit fut \<times> 's gluster" where
  "gl_flush lib h = gl_do lib h (\<lambda>_ st. (Inr (), st))"

definition gl_fsync ::
  "('s, 't) gfapi \<Rightarrow> GlusterFSHelper \<Rightarrow> gluster_handle \<Rightarrow> bool \<Rightarrow> 's gluster \<Rightarrow> unit fut \<times> 's gluster" where
  "gl_fsync lib h f isDataSync = as_handle lib h f
     (setContextResult ((if isDataSync then glfs_fdatasync lib else glfs_fsync lib) (m_glfsFd f)))"

text \<open>The destructor closes without connecting and without retrying.\<close>

definition gl_destroy :: "('s, 't) gfapi \<Rightarrow> gluster_handle \<Rightarrow> 's \<Rightarrow> 's" where
  "gl_destroy lib f st =
     (if g_needsRelease f then snd (glfs_close lib (m_glfsFd f) (set_ids lib (g_uid f) (g_gid f) st)) else st)"

section \<open>The helper\<close>

definition gl_root :: "('s, 't) gfapi \<Rightarrow> GlusterFSHelper \<Rightarrow> string \<Rightarrow> string" where
  "gl_root lib h fileId = glfs_append lib (m_mountPoint h) fileId"

definition gl_relative :: "('s, 't) gfapi \<Rightarrow> GlusterFSHelper \<Rightarrow> string \<Rightarrow> string list" where
  "gl_relative lib h fileId = makeRelative (glfs_elements lib (m_mountPoint h)) (glfs_elements lib fileId)"

text \<open>\<^verbatim>\<open>O_CREAT\<close> is \<open>0x40\<close>; the mode of a file that is created is taken from the flags of the call.\<close>

definition gl_open ::
  "('s, 't) gfapi \<Rightarrow> GlusterFSHelper \<Rightarrow> string \<Rightarrow> u32 \<Rightarrow> 's gluster \<Rightarrow> gluster_handle fut \<times> 's gluster" where
  "gl_open lib h fileId flags = as_gluster lib h (\<lambda>ctx st.
     let filePath = gl_root lib h fileId;
         call = (if flags AND 0x40 \<noteq> 0
                 then glfs_creat lib ctx filePath flags ((flags AND 0x1C0) OR (flags AND 0x38) OR (flags AND 0x7))
                 else glfs_open lib ctx filePath flags)
     in case setContextResult call st of
          (Inl e, st1) \<Rightarrow> (Inl e, st1)
        | (Inr fd, st1) \<Rightarrow> (Inr \<lparr>m_glfsFd = fd, g_needsRelease = True, g_uid = h_uid h, g_gid = h_gid h\<rparr>, st1))"

definition gl_getattr :: "('s, 't) gfapi \<Rightarrow> GlusterFSHelper \<Rightarrow> string \<Rightarrow> 's gluster \<Rightarrow> 't fut \<times> 's gluster" where
  "gl_getattr lib h fileId = as_gluster lib h (\<lambda>ctx. setContextResult (glfs_lstat lib ctx (gl_root lib h fileId)))"

text \<open>An operation that makes one call without a result.\<close>

abbreviation path_op ::
  "('s, 't) gfapi \<Rightarrow> GlusterFSHelper \<Rightarrow> unit_call \<Rightarrow> 's gluster \<Rightarrow> unit fut \<times> 's gluster" where
  "path_op lib h call \<equiv> as_gluster lib h (\<lambda>ctx. setContextResult (glfs_path lib ctx call))"

definition gl_access :: "('s, 't) gfapi \<Rightarrow> GlusterFSHelper \<Rightarrow> string \<Rightarrow> int \<Rightarrow> 's gluster \<Rightarrow> unit fut \<times> 's gluster" where
  "gl_access lib h fileId msk = path_op lib h (sys_access (gl_root lib h fileId) msk)"

text \<open>The loop over the entries, which reads one entry more than it lists; reading is not retried.\<close>

partial_function (option) gl_readdirLoop ::
  "('s, 't) gfapi \<Rightarrow> nat \<Rightarrow> int \<Rightarrow> int \<Rightarrow> 's \<Rightarrow> (string list \<times> 's) option" where
  "gl_readdirLoop lib dir off cnt st =
     (case glfs_readdir lib dir st of
        (None, st1) \<Rightarrow> Some ([], st1)
      | (Some d_name, st1) \<Rightarrow>
          (if cnt \<le> 0 then Some ([], st1)
           else if d_name \<noteq> ''.'' \<and> d_name \<noteq> ''..''
           then (if off > 0 then gl_readdirLoop lib dir (off - 1) cnt st1
                 else Option.bind (gl_readdirLoop lib dir off (cnt - 1) st1) (\<lambda>(ret, st2). Some (d_name # ret, st2)))
           else gl_readdirLoop lib dir off cnt st1))"

definition gl_readdir ::
  "('s, 't) gfapi \<Rightarrow> GlusterFSHelper \<Rightarrow> string \<Rightarrow> int \<Rightarrow> u64 \<Rightarrow> 's gluster \<Rightarrow> (string list fut \<times> 's gluster) option" where
  "gl_readdir lib h fileId offset cnt s =
     (case as_gluster lib h (\<lambda>ctx. setContextResult (glfs_opendir lib ctx (gl_root lib h fileId))) s of
        (Inl e, s1) \<Rightarrow> Some (Inl e, s1)
      | (Inr dir, s1) \<Rightarrow>
          Option.bind (gl_readdirLoop lib dir (to_int32 offset) (to_int32 (uint cnt)) (gfapi_state s1))
            (\<lambda>(ret, st). Some (Inr ret, s1\<lparr>gfapi_state := glfs_closedir lib dir st\<rparr>)))"

text \<open>The target is read as a string that ends at the first zero byte.\<close>

definition gl_readlink :: "('s, 't) gfapi \<Rightarrow> GlusterFSHelper \<Rightarrow> string \<Rightarrow> 's gluster \<Rightarrow> string fut \<times> 's gluster" where
  "gl_readlink lib h fileId = as_gluster lib h (\<lambda>ctx st.
     case setContextResult (glfs_readlink lib ctx (gl_root lib h fileId) (1024 - 1)) st of
       (Inl e, st1) \<Rightarrow> (Inl e, st1)
     | (Inr target, st1) \<Rightarrow> (Inr (takeWhile (\<lambda>c. c \<noteq> CHR 0x00) target), st1))"

definition gl_mknod ::
  "('s, 't) gfapi \<Rightarrow> GlusterFSHelper \<Rightarrow> string \<Rightarrow> u32 \<Rightarrow> Flag set \<Rightarrow> u64 \<Rightarrow> 's gluster \<Rightarrow> unit fut \<times> 's gluster" where
  "gl_mknod lib h fileId unmaskedMode flags rdev =
     path_op lib h (sys_mknod (gl_root lib h fileId) (unmaskedMode OR flagsToMask flags) rdev)"

definition gl_mkdir :: "('s, 't) gfapi \<Rightarrow> GlusterFSHelper \<Rightarrow> string \<Rightarrow> u32 \<Rightarrow> 's gluster \<Rightarrow> unit fut \<times> 's gluster" where
  "gl_mkdir lib h fileId mode = path_op lib h (sys_mkdir (gl_root lib h fileId) mode)"

definition gl_unlink :: "('s, 't) gfapi \<Rightarrow> GlusterFSHelper \<Rightarrow> string \<Rightarrow> 's gluster \<Rightarrow> unit fut \<times> 's gluster" where
  "gl_unlink lib h fileId = path_op lib h (sys_unlink (gl_root lib h fileId))"

definition gl_rmdir :: "('s, 't) gfapi \<Rightarrow> GlusterFSHelper \<Rightarrow> string \<Rightarrow> 's gluster \<Rightarrow> unit fut \<times> 's gluster" where
  "gl_rmdir lib h fileId = path_op lib h (sys_rmdir (gl_root lib h fileId))"

definition gl_symlink :: "('s, 't) gfapi \<Rightarrow> GlusterFSHelper \<Rightarrow> string \<Rightarrow> string \<Rightarrow> 's gluster \<Rightarrow> unit fut \<times> 's gluster" where
  "gl_symlink lib h from_id to_id = path_op lib h (sys_symlink (gl_root lib h from_id) (gl_root lib h to_id))"

definition gl_rename :: "('s, 't) gfapi \<Rightarrow> GlusterFSHelper \<Rightarrow> string \<Rightarrow> string \<Rightarrow> 's gluster \<Rightarrow> unit fut \<times> 's gluster" where
  "gl_rename lib h from_id to_id = path_op lib h (sys_rename (gl_root lib h from_id) (gl_root lib h to_id))"

definition gl_link :: "('s, 't) gfapi \<Rightarrow> GlusterFSHelper \<Rightarrow> string \<Rightarrow> string \<Rightarrow> 's gluster \<Rightarrow> unit fut \<times> 's gluster" where
  "gl_link lib h from_id to_id = path_op lib h (sys_link (gl_root lib h from_id) (gl_root lib h to_id))"

definition gl_chmod :: "('s, 't) gfapi \<Rightarrow> GlusterFSHelper \<Rightarrow> string \<Rightarrow> u32 \<Rightarrow> 's gluster \<Rightarrow> unit fut \<times> 's gluster" where
  "gl_chmod lib h fileId mode = path_op lib h (sys_chmod (gl_root lib h fileId) mode)"

definition gl_chown :: "('s, 't) gfapi \<Rightarrow> GlusterFSHelper \<Rightarrow> string \<Rightarrow> u32 \<Rightarrow> u32 \<Rightarrow> 's gluster \<Rightarrow> unit fut \<times> 's gluster" where
  "gl_chown lib h fileId newUid newGid = path_op lib h (sys_chown (gl_root lib h fileId) newUid newGid)"

definition gl_truncate :: "('s, 't) gfapi \<Rightarrow> GlusterFSHelper \<Rightarrow> string \<Rightarrow> int \<Rightarrow> 's gluster \<Rightarrow> unit fut \<times> 's gluster" where
  "gl_truncate lib h fileId sz = path_op lib h (sys_truncate (gl_root lib h fileId) sz)"

definition gl_getxattr :: "('s, 't) gfapi \<Rightarrow> GlusterFSHelper \<Rightarrow> string \<Rightarrow> string \<Rightarrow> 's gluster \<Rightarrow> string fut \<times> 's gluster" where
  "gl_getxattr lib h fileId nm = as_gluster lib h (\<lambda>ctx st.
     let filePath = gl_root lib h fileId
     in case retry_io (glfs_getxattr lib ctx filePath nm (1024 - 1)) GlusterFSRetryCondition st of
          (Inr v, st1) \<Rightarrow> (Inr v, st1)
        | (Inl errno, st1) \<Rightarrow>
            (if errno = ERANGE then setContextResult (glfs_getxattr lib ctx filePath nm (XATTR_SIZE_MAX - 1)) st1
             else (Inl (makePosixException errno), st1)))"

text \<open>The arguments are checked before the ids are set.\<close>

definition gl_setxattr ::
  "('s, 't) gfapi \<Rightarrow> GlusterFSHelper \<Rightarrow> string \<Rightarrow> string \<Rightarrow> string \<Rightarrow> bool \<Rightarrow> bool \<Rightarrow> 's gluster \<Rightarrow> unit fut \<times> 's gluster" where
  "gl_setxattr lib h fileId nm val create repl = gl_do lib h (\<lambda>ctx st.
     if create \<and> repl then (Inl (makePosixException EINVAL), st)
     else setContextResult
            (glfs_path lib ctx (sys_setxattr (gl_root lib h fileId) nm val (if create then 1 else if repl then 2 else 0)))
            (set_ids lib (h_uid h) (h_gid h) st))"

definition gl_removexattr :: "('s, 't) gfapi \<Rightarrow> GlusterFSHelper \<Rightarrow> string \<Rightarrow> string \<Rightarrow> 's gluster \<Rightarrow> unit fut \<times> 's gluster" where
  "gl_removexattr lib h fileId nm = path_op lib h (sys_removexattr (gl_root lib h fileId) nm)"

definition gl_listxattr :: "('s, 't) gfapi \<Rightarrow> GlusterFSHelper \<Rightarrow> string \<Rightarrow> 's gluster \<Rightarrow> string list fut \<times> 's gluster" where
  "gl_listxattr lib h fileId = as_gluster lib h (\<lambda>ctx st.
     let filePath = gl_root lib h fileId
     in case setContextResult (glfs_listxattr_size lib ctx filePath) st of
          (Inl e, st1) \<Rightarrow> (Inl e, st1)
        | (Inr buflen, st1) \<Rightarrow>
            (if buflen = 0 then (Inr [], st1)
             else (case setContextResult (glfs_listxattr lib ctx filePath buflen) st1 of
                     (Inl e, st2) \<Rightarrow> (Inl e, st2)
                   | (Inr buf, st2) \<Rightarrow> (Inr (xattr_names buf), st2))))"

text \<open>\<open>GlusterFSHelperFactory::createStorageHelper\<close>; \<open>to_int\<close> and \<open>to_size\<close> are the casts of \<^verbatim>\<open>getParam\<close>.\<close>

definition createGlusterFSHelper ::
  "(string \<Rightarrow> int option) \<Rightarrow> (string \<Rightarrow> u64 option) \<Rightarrow> u64 \<Rightarrow> Params \<Rightarrow> GlusterFSHelper fut" where
  "createGlusterFSHelper to_int to_size asyncOpsTimeout parameters =
     (let mountPoint = getParam_string_def parameters ''mountPoint'' []
      in case getParam_def_val to_int parameters ''uid'' (- 1) of
           Inl e \<Rightarrow> Inl e
         | Inr uid \<Rightarrow>
             (case getParam_def_val to_int parameters ''gid'' (- 1) of
                Inl e \<Rightarrow> Inl e
              | Inr gid \<Rightarrow>
                  (case getParam_string parameters ''hostname'' of
                     Inl e \<Rightarrow> Inl e
                   | Inr hostname \<Rightarrow>
                       (case getParam_def_val to_int parameters ''port'' 24007 of
                          Inl e \<Rightarrow> Inl e
                        | Inr port \<Rightarrow>
                            (case getParam_string parameters ''volume'' of
                               Inl e \<Rightarrow> Inl e
                             | Inr volume \<Rightarrow>
                                 (let transport = getParam_string_def parameters ''transport'' ''tcp'';
                                      xlatorOptions = getParam_string_def parameters ''xlatorOptions'' []
                                  in case getParam_def_val to_size parameters ''timeout'' asyncOpsTimeout of
                                       Inl e \<Rightarrow> Inl e
                                     | Inr _ \<Rightarrow>
                                         Inr \<lparr>m_mountPoint = mountPoint, h_uid = of_int uid, h_gid = of_int gid,
                                              m_hostname = hostname, m_port = port, m_volume = volume,
                                              m_transport = transport, m_xlatorOptions = xlatorOptions\<rparr>))))))"

section \<open>Paths, options and names of connections\<close>

lemma skipCommon_prefix: "skipCommon ps (ps @ rest) = rest"
  by (induction ps) (cases rest, simp_all)

lemma foldl_appendElement: "''.'' \<notin> set es \<Longrightarrow> ''..'' \<notin> set es \<Longrightarrow> foldl appendElement ret es = ret @ es"
  by (induction es arbitrary: ret) (auto simp: appendElement_def)

text \<open>A path below the parent, with no dots, is what follows the parent.\<close>

lemma makeRelative_below:
  assumes "''.'' \<notin> set rest" and "''..'' \<notin> set rest"
  shows "makeRelative parent (parent @ rest) = rest"
  using assms by (simp add: makeRelative_def skipCommon_prefix foldl_appendElement)

text \<open>Dots never lead above the parent, whatever the path.\<close>

lemma makeRelative_no_dots:
  assumes "parent \<noteq> []"
  shows "''..'' \<notin> set (makeRelative parent child)"
proof -
  have "''..'' \<notin> set ret \<Longrightarrow> ''..'' \<notin> set (foldl appendElement ret es)" for ret es
    by (induction es arbitrary: ret) (auto simp: appendElement_def dest: in_set_butlastD)
  then show ?thesis using assms by (simp add: makeRelative_def)
qed

text \<open>Options written as the documentation gives them.\<close>

definition print_option :: "string \<times> string \<Rightarrow> string" where
  "print_option p = fst p @ ''='' @ snd p"

fun join_options :: "(string \<times> string) list \<Rightarrow> string" where
  "join_options [] = []"
| "join_options (p # ps) = print_option p @ '';'' @ join_options ps"

definition plain_option :: "string \<times> string \<Rightarrow> bool" where
  "plain_option p \<longleftrightarrow> fst p \<noteq> [] \<and> snd p \<noteq> [] \<and>
     CHR '';'' \<notin> set (fst p) \<union> set (snd p) \<and> CHR ''='' \<notin> set (fst p) \<union> set (snd p)"

lemma parse_pair:
  assumes "plain_option p" and "parseOptionPairs ps = Inr opts"
  shows "parseOptionPairs (print_option p # ps) = Inr (p # opts)"
proof -
  have "split_at (CHR ''='') [] (fst p @ ''='' @ snd p) = [fst p, snd p]"
    using assms(1) by (simp add: plain_option_def split_at_append split_at_plain)
  then show ?thesis using assms by (simp add: print_option_def plain_option_def)
qed

lemma parse_options:
  assumes "\<forall>p \<in> set ps. plain_option p"
  shows "parseOptionPairs (split_at (CHR '';'') [] (join_options ps)) = Inr ps"
  using assms
proof (induction ps)
  case (Cons p ps)
  have "CHR '';'' \<notin> set (print_option p)" using Cons.prems by (simp add: plain_option_def print_option_def)
  then have "split_at (CHR '';'') [] (join_options (p # ps)) = print_option p # split_at (CHR '';'') [] (join_options ps)"
    using split_at_append [of "CHR '';''" "print_option p" "[]" "join_options ps"] by simp
  then show ?case using Cons parse_pair [of p] by (simp del: parseOptionPairs.simps)
qed simp

lemma xlator_options_roundtrip:
  assumes "\<forall>p \<in> set ps. plain_option p"
  shows "parseXlatorOptions (join_options ps) = Inr ps"
  using parse_options [OF assms] by (cases ps) (auto simp: parseXlatorOptions_def print_option_def)

text \<open>
  Connections of helpers whose host names have no colon have the same name exactly when host,
  port and volume are the same. With colons, as in IPv6 addresses, two volumes may share a name.
\<close>

lemma append_sep_inj:
  assumes "c \<notin> set xs" and "c \<notin> set xs'" and "xs @ c # ys = xs' @ c # ys'"
  shows "xs = xs' \<and> ys = ys'"
  using assms by (induction xs arbitrary: xs') (case_tac xs', auto)+

lemma off_to_string_no_colon: "CHR '':'' \<notin> set (off_to_string i)"
  using to_dec_digits [of "CHR '':''"] by (auto simp: off_to_string_def is_digit_def)

lemma off_to_string_inj: "off_to_string i = off_to_string j \<Longrightarrow> i = j"
proof -
  assume a: "off_to_string i = off_to_string j"
  have m: "hd (to_dec n) \<noteq> CHR ''-''" for n
    using to_dec_digits [of "hd (to_dec n)" n] by (auto simp: is_digit_def)
  have ne: "to_dec n \<noteq> CHR ''-'' # xs" for n xs using m [of n] by auto
  have "to_dec a = to_dec b \<longleftrightarrow> a = b" for a b by (metis dec_val_to_dec)
  then show "i = j" using a ne ne [symmetric] by (simp add: off_to_string_def split: if_split_asm)
qed

lemma generateCtxId_inj:
  assumes "CHR '':'' \<notin> set host" and "CHR '':'' \<notin> set host'"
    and "generateCtxId host port volume = generateCtxId host' port' volume'"
  shows "host = host' \<and> port = port' \<and> volume = volume'"
proof -
  have "host @ CHR '':'' # CHR '':'' # off_to_string port @ ''::'' @ volume =
      host' @ CHR '':'' # CHR '':'' # off_to_string port' @ ''::'' @ volume'"
    using assms(3) by (simp add: generateCtxId_def)
  from append_sep_inj [OF assms(1,2) this]
  have h: "host = host'" and r: "off_to_string port @ CHR '':'' # CHR '':'' # volume =
      off_to_string port' @ CHR '':'' # CHR '':'' # volume'" by simp_all
  from append_sep_inj [OF off_to_string_no_colon off_to_string_no_colon r]
  show ?thesis using h off_to_string_inj by auto
qed

lemma generateCtxId_collides: "generateCtxId ''fe80::1'' 2 ''v'' = generateCtxId ''fe80'' 1 ''2::v''"
  by (simp add: generateCtxId_def off_to_string_def to_dec.simps digit_chars)

section \<open>Connecting\<close>

text \<open>Once connected, connecting again makes no call of the library.\<close>

lemma connect_once:
  assumes "gl_connect lib h s = (Inr (), s1)"
  shows "gl_connect lib h s1 = (Inr (), s1)"
  using assms by (auto simp: gl_connect_def Let_def case_prod_beta split: if_split_asm option.split_asm)

text \<open>
  A helper of the same server and volume takes over the connection as it is: its own transport
  and options are not used.
\<close>

lemma connection_shared:
  assumes "gl_connect lib h s = (Inr (), s1)" and "ctxId h' = ctxId h"
  shows "gl_connect lib h' s1 = (Inr (), s1)"
  using assms by (auto simp: gl_connect_def Let_def case_prod_beta split: if_split_asm option.split_asm)

text \<open>Invalid options keep the volume from being initialised, at every attempt.\<close>

lemma bad_options_fail:
  assumes "parseXlatorOptions (m_xlatorOptions h) = Inl e" and "glusterFSConnections s (ctxId h) = None"
    and "glfs_new lib (m_volume h) (gfapi_state s) = (ctx, st)" and "ctx \<noteq> 0"
    and "glfs_set_volfile_server lib ctx (m_transport h) (m_hostname h) (m_port h) st = (Inr (), st1)"
  shows "gl_connect lib h s =
    (Inl e, s\<lparr>glusterFSConnections := (glusterFSConnections s)(ctxId h \<mapsto> \<lparr>glfsCtx = ctx, connected = False\<rparr>),
              m_glfsCtx := ctx, gfapi_state := st1\<rparr>)"
  using assms by (simp add: gl_connect_def initContext_def)

text \<open>However a read fails, the error reported is EPERM.\<close>

lemma failed_read_eperm:
  assumes "gl_connect lib h s = (Inr (), s1)" and "errno \<notin> set GLUSTERFS_RETRY_ERRORS"
    and "glfs_pread lib (m_glfsFd f) sz offset (set_ids lib (g_uid f) (g_gid f) (gfapi_state s1)) = (Inl errno, st)"
  shows "gl_read lib h f offset sz s = (Inl (system_error EPERM), s1\<lparr>gfapi_state := st\<rparr>)"
proof -
  have "retry_io (glfs_pread lib (m_glfsFd f) sz offset) GlusterFSRetryCondition
      (set_ids lib (g_uid f) (g_gid f) (gfapi_state s1)) = (Inl errno, st)"
    using assms(2,3) by (intro retry_io_first) (simp_all add: GlusterFSRetryCondition_def)
  then show ?thesis using assms(1) by (simp add: gl_read_def gl_do_def makePosixException_def makePosixError_def)
qed

text \<open>
  The mode of a file that \<open>open\<close> creates: with \<^verbatim>\<open>O_CREAT | O_RDWR\<close>, \<open>0x42\<close>, the owner may
  execute it and the others may write it, and nobody may read it.
\<close>

lemma creat_mode:
  assumes "gl_connect lib h s = (Inr (), s1)"
    and "glfs_creat lib (m_glfsCtx s1) (gl_root lib h fileId) 0x42 0x42 (set_ids lib (h_uid h) (h_gid h) (gfapi_state s1)) =
      (Inr fd, st)"
  shows "gl_open lib h fileId 0x42 s =
    (Inr \<lparr>m_glfsFd = fd, g_needsRelease = True, g_uid = h_uid h, g_gid = h_gid h\<rparr>, s1\<lparr>gfapi_state := st\<rparr>)"
proof -
  have m: "(0x42 :: u32) AND 0x40 \<noteq> 0" "((0x42 :: u32) AND 0x1C0) OR (0x42 AND 0x38) OR (0x42 AND 0x7) = 0x42" by simp_all
  have "retry_io (glfs_creat lib (m_glfsCtx s1) (gl_root lib h fileId) 0x42 0x42) GlusterFSRetryCondition
      (set_ids lib (h_uid h) (h_gid h) (gfapi_state s1)) = (Inr fd, st)"
    using assms(2) by (intro retry_io_first) (simp_all add: GlusterFSRetryCondition_def)
  then show ?thesis using assms(1) by (simp add: gl_open_def gl_do_def setContextResult_def m)
qed

section \<open>A file of a volume\<close>

text \<open>The synchronisations of an open file.\<close>

definition gl_sync ::
  "('s, 't) gfapi \<Rightarrow> GlusterFSHelper \<Rightarrow> bool \<Rightarrow> sync_op \<Rightarrow> gluster_handle \<times> 's gluster \<Rightarrow>
    unit fut \<times> gluster_handle \<times> 's gluster" where
  "gl_sync lib h isDataSync c fs =
     (case c of
        Fsync \<Rightarrow> (let (r, s) = gl_fsync lib h (fst fs) isDataSync (snd fs) in (r, (fst fs, s)))
      | Flush \<Rightarrow> (let (r, s) = gl_flush lib h (snd fs) in (r, (fst fs, s)))
      | Release \<Rightarrow> gl_release lib h fs)"

text \<open>A call that succeeds and leaves the file as it is.\<close>

definition harmless :: "('s \<Rightarrow> bytes) \<Rightarrow> ('s \<Rightarrow> (int + unit) \<times> 's) \<Rightarrow> bool" where
  "harmless data_of call \<longleftrightarrow> (\<forall>st. \<exists>st'. call st = (Inr (), st') \<and> data_of st' = data_of st)"

lemma harmless_retried:
  assumes "harmless data_of call"
  shows "\<exists>st'. setContextResult call st = (Inr (), st') \<and> data_of st' = data_of st"
proof -
  obtain st' where "call st = (Inr (), st')" "data_of st' = data_of st" using assms by (auto simp: harmless_def)
  then show ?thesis using retry_io_first [of call st "Inr ()" st' GlusterFSRetryCondition]
    by (simp add: setContextResult_def GlusterFSRetryCondition_def)
qed

text \<open>What the library promises of a descriptor open for reading and writing, and of a server that is up.\<close>

locale gluster_file =
  fixes lib :: "('s, 't) gfapi"
    and h :: GlusterFSHelper
    and fd :: nat
    and data_of :: "'s \<Rightarrow> bytes"
  assumes new_context: "\<exists>ctx st'. glfs_new lib v st = (ctx, st') \<and> ctx \<noteq> 0 \<and> data_of st' = data_of st"
    and server_set: "harmless data_of (glfs_set_volfile_server lib ctx transport host port)"
    and option_set: "harmless data_of (glfs_set_xlator_option lib ctx v nm val)"
    and volume_init: "harmless data_of (glfs_init lib ctx)"
    and options_valid: "\<exists>opts. parseXlatorOptions (m_xlatorOptions h) = Inr opts"
    and ids_content: "data_of (glfs_setfsuid lib u st) = data_of st" "data_of (glfs_setfsgid lib g st) = data_of st"
    and pread_content: "0 \<le> off \<Longrightarrow>
      \<exists>st'. glfs_pread lib fd n off st = (Inr (take n (drop (nat off) (data_of st))), st') \<and> data_of st' = data_of st"
    and pwritev_content: "0 \<le> off \<Longrightarrow>
      \<exists>st'. glfs_pwritev lib fd iov off st = (Inr (length (concat iov)), st') \<and>
        data_of st' = write_at (data_of st) (off, concat iov)"
    and synced: "harmless data_of (glfs_close lib fd)" "harmless data_of (glfs_fsync lib fd)"
      "harmless data_of (glfs_fdatasync lib fd)"
begin

lemma set_options: "\<exists>st'. setXlatorOptions lib ctx v opts st = (Inr (), st') \<and> data_of st' = data_of st"
proof (induction opts arbitrary: st)
  case (Cons p opts)
  obtain st1 where st1: "glfs_set_xlator_option lib ctx v (fst p) (snd p) st = (Inr (), st1)" "data_of st1 = data_of st"
    using option_set unfolding harmless_def by blast
  then show ?case using Cons [of st1] by simp
qed simp

lemma context_init:
  assumes "ctx \<noteq> 0"
  shows "\<exists>st'. initContext lib h ctx st = (Inr (), st') \<and> data_of st' = data_of st"
proof -
  obtain st1 where st1: "glfs_set_volfile_server lib ctx (m_transport h) (m_hostname h) (m_port h) st = (Inr (), st1)"
    "data_of st1 = data_of st" using server_set unfolding harmless_def by blast
  obtain opts where opts: "parseXlatorOptions (m_xlatorOptions h) = Inr opts" using options_valid by blast
  obtain st2 where st2: "setXlatorOptions lib ctx (m_volume h) opts st1 = (Inr (), st2)" "data_of st2 = data_of st1"
    using set_options by blast
  show ?thesis using assms st1 opts st2 harmless_retried [OF volume_init, of ctx st2] by (simp add: initContext_def)
qed

lemma connects: "\<exists>s'. gl_connect lib h s = (Inr (), s') \<and> data_of (gfapi_state s') = data_of (gfapi_state s)"
proof -
  obtain ctx st where n: "glfs_new lib (m_volume h) (gfapi_state s) = (ctx, st)" "ctx \<noteq> 0"
    "data_of st = data_of (gfapi_state s)" using new_context by blast
  obtain st1 where i: "initContext lib h ctx st = (Inr (), st1)" "data_of st1 = data_of st"
    using context_init [OF n(2)] by blast
  show ?thesis using n i by (simp add: gl_connect_def Let_def split: option.split)
qed

lemma handle_body:
  assumes "\<And>st. data_of st = data_of (gfapi_state s) \<Longrightarrow> \<exists>st'. body st = (r, st') \<and> data_of st' = c"
  shows "\<exists>s'. as_handle lib h f body s = (r, s') \<and> data_of (gfapi_state s') = c"
proof -
  obtain s1 where s1: "gl_connect lib h s = (Inr (), s1)" "data_of (gfapi_state s1) = data_of (gfapi_state s)"
    using connects by blast
  have "data_of (set_ids lib (g_uid f) (g_gid f) (gfapi_state s1)) = data_of (gfapi_state s)"
    using s1(2) by (simp add: set_ids_def ids_content)
  from assms [OF this] show ?thesis using s1(1) by (auto simp: gl_do_def)
qed

lemma gl_read_file:
  assumes "0 \<le> off" and "m_glfsFd f = fd"
  shows "\<exists>s'. gl_read lib h f off n s = (Inr (take n (drop (nat off) (data_of (gfapi_state s)))), s') \<and>
    data_of (gfapi_state s') = data_of (gfapi_state s)"
  unfolding gl_read_def
proof (rule handle_body)
  fix st assume c: "data_of st = data_of (gfapi_state s)"
  obtain st' where r: "glfs_pread lib fd n off st = (Inr (take n (drop (nat off) (data_of st))), st')" "data_of st' = data_of st"
    using pread_content [OF assms(1)] by blast
  have "retry_io (glfs_pread lib fd n off) GlusterFSRetryCondition st = (Inr (take n (drop (nat off) (data_of st))), st')"
    by (rule retry_io_first) (simp_all add: r(1) GlusterFSRetryCondition_def)
  then show "\<exists>st'. (case retry_io (glfs_pread lib (m_glfsFd f) n off) GlusterFSRetryCondition st of
       (Inl _, st1) \<Rightarrow> (Inl (makePosixException (- 1)), st1) | (Inr buffer, st1) \<Rightarrow> (Inr buffer, st1)) =
      (Inr (take n (drop (nat off) (data_of (gfapi_state s)))), st') \<and> data_of st' = data_of (gfapi_state s)"
    using r(2) c assms(2) by simp
qed

lemma gl_write_file:
  assumes "0 \<le> off" and "m_glfsFd f = fd"
  shows "\<exists>s'. gl_write lib h f off buf s = (Inr (length (concat buf)), s') \<and>
    data_of (gfapi_state s') = write_at (data_of (gfapi_state s)) (off, concat buf)"
  unfolding gl_write_def
proof (rule handle_body)
  fix st assume c: "data_of st = data_of (gfapi_state s)"
  let ?w = "glfs_pwritev lib fd (filter (\<lambda>b. b \<noteq> []) buf) off"
  have b: "concat (filter (\<lambda>b. b \<noteq> []) buf) = concat buf" by (rule concat_nonempty)
  obtain st' where w: "?w st = (Inr (length (concat buf)), st')" "data_of st' = write_at (data_of st) (off, concat buf)"
    using pwritev_content [OF assms(1)] b by metis
  have "retry_io ?w GlusterFSRetryCondition st = (Inr (length (concat buf)), st')"
    by (rule retry_io_first) (simp_all add: w(1) GlusterFSRetryCondition_def)
  then show "\<exists>st'. (if concat buf = [] then (Inr 0, st)
      else setContextResult (glfs_pwritev lib (m_glfsFd f) (filter (\<lambda>b. b \<noteq> []) buf) off) st) = (Inr (length (concat buf)), st') \<and>
      data_of st' = write_at (data_of (gfapi_state s)) (off, concat buf)"
    using w(2) c assms(2) by (auto simp: setContextResult_def write_at_def)
qed

lemma gl_sync_file:
  assumes "m_glfsFd (fst fs) = fd"
  shows "\<exists>fs'. gl_sync lib h d c fs = (Inr (), fs') \<and> m_glfsFd (fst fs') = fd \<and>
    data_of (gfapi_state (snd fs')) = data_of (gfapi_state (snd fs))"
proof -
  have call: "\<exists>s'. as_handle lib h f (setContextResult call) (snd fs) = (Inr (), s') \<and>
      data_of (gfapi_state s') = data_of (gfapi_state (snd fs))" if "harmless data_of call" for f call
  proof (rule handle_body)
    fix st assume "data_of st = data_of (gfapi_state (snd fs))"
    then show "\<exists>st'. setContextResult call st = (Inr (), st') \<and> data_of st' = data_of (gfapi_state (snd fs))"
      using harmless_retried [OF that, of st] by simp
  qed
  show ?thesis
  proof (cases c)
    case Fsync
    then show ?thesis using call [OF synced(2), of "fst fs"] call [OF synced(3), of "fst fs"] assms
      by (auto simp: gl_sync_def gl_fsync_def)
  next
    case Flush
    then show ?thesis using connects [of "snd fs"] assms by (auto simp: gl_sync_def gl_flush_def gl_do_def)
  next
    case Release
    then show ?thesis using call [OF synced(1), of "(fst fs)\<lparr>g_needsRelease := False\<rparr>"] assms
      by (cases "g_needsRelease (fst fs)") (auto simp: gl_sync_def gl_release_def)
  qed
qed

end

text \<open>The file behind a handle, and its operations on handle and helper.\<close>

abbreviation gl_writes ::
  "('s, 't) gfapi \<Rightarrow> GlusterFSHelper \<Rightarrow> int \<Rightarrow> bytes \<Rightarrow> gluster_handle \<times> 's gluster \<Rightarrow> nat fut \<times> gluster_handle \<times> 's gluster" where
  "gl_writes lib h off b fs \<equiv> (let (r, s) = gl_write lib h (fst fs) off [b] (snd fs) in (r, (fst fs, s)))"

sublocale gluster_file \<subseteq> file_handle "\<lambda>off n fs. fst (gl_read lib h (fst fs) off n (snd fs))"
  "multiwrite (gl_writes lib h)" "gl_sync lib h d" "\<lambda>fs. data_of (gfapi_state (snd fs))" "{}"
  "\<lambda>fs. m_glfsFd (fst fs) = fd" "2 ^ 64" for d
proof -
  have "writes_file (\<lambda>fs. m_glfsFd (fst fs) = fd) (2 ^ 64) (\<lambda>fs. data_of (gfapi_state (snd fs))) (gl_writes lib h)"
    unfolding writes_file_def
  proof (intro allI impI)
    fix off :: int and b :: bytes and fs :: "gluster_handle \<times> 's gluster"
    assume "m_glfsFd (fst fs) = fd" "0 \<le> off"
    then show "\<exists>fs'. gl_writes lib h off b fs = (Inr (length b), fs') \<and> m_glfsFd (fst fs') = fd \<and>
        data_of (gfapi_state (snd fs')) = write_at (data_of (gfapi_state (snd fs))) (off, b)"
      using gl_write_file [of off "fst fs" "[b]" "snd fs"] by auto
  qed
  note w = multiwrite_written [OF this]
  have r: "fst (gl_read lib h (fst fs) off n (snd fs)) = Inr (take n (drop (nat off) (data_of (gfapi_state (snd fs)))))"
    if "0 \<le> off" "m_glfsFd (fst fs) = fd" for off n fs using gl_read_file [OF that, of n "snd fs"] by auto
  have s: "fst (gl_sync lib h d c fs) = Inr ()" "m_glfsFd (fst (snd (gl_sync lib h d c fs))) = fd"
    "data_of (gfapi_state (snd (snd (gl_sync lib h d c fs)))) = data_of (gfapi_state (snd fs))"
    if "m_glfsFd (fst fs) = fd" for c fs using gl_sync_file [OF that, of d c] by auto
  show "file_handle (\<lambda>off n fs. fst (gl_read lib h (fst fs) off n (snd fs))) (multiwrite (gl_writes lib h)) (gl_sync lib h d)
    (\<lambda>fs. data_of (gfapi_state (snd fs))) {} (\<lambda>fs. m_glfsFd (fst fs) = fd) (2 ^ 64)"
    using w r s by unfold_locales (simp_all add: reads_file_def)
qed

text \<open>A volume with one file in memory.\<close>

definition memory_volume :: "(bytes, unit) gfapi" where
  "memory_volume =
     \<lparr>glfs_new = (\<lambda>_ f. (1, f)), glfs_set_volfile_server = (\<lambda>_ _ _ _ f. (Inr (), f)),
      glfs_set_xlator_option = (\<lambda>_ _ _ _ f. (Inr (), f)), glfs_init = (\<lambda>_ f. (Inr (), f)), glfs_setfsuid = (\<lambda>_ f. f),
      glfs_setfsgid = (\<lambda>_ f. f), glfs_path = (\<lambda>_ _ f. (Inl ENOENT, f)), glfs_close = (\<lambda>_ f. (Inr (), f)),
      glfs_fsync = (\<lambda>_ f. (Inr (), f)), glfs_fdatasync = (\<lambda>_ f. (Inr (), f)),
      glfs_pread = (\<lambda>_ n off f. (Inr (take n (drop (nat off) f)), f)),
      glfs_pwritev = (\<lambda>_ iov off f. (Inr (length (concat iov)), write_at f (off, concat iov))),
      glfs_creat = (\<lambda>_ _ _ _ f. (Inr 0, f)), glfs_open = (\<lambda>_ _ _ f. (Inr 0, f)), glfs_lstat = (\<lambda>_ _ f. (Inr (), f)),
      glfs_opendir = (\<lambda>_ _ f. (Inl ENOENT, f)), glfs_readdir = (\<lambda>_ f. (None, f)), glfs_closedir = (\<lambda>_ f. f),
      glfs_readlink = (\<lambda>_ _ _ f. (Inl ENOENT, f)), glfs_getxattr = (\<lambda>_ _ _ _ f. (Inl ENOENT, f)),
      glfs_listxattr_size = (\<lambda>_ _ f. (Inr 0, f)), glfs_listxattr = (\<lambda>_ _ _ f. (Inr [], f)),
      glfs_append = (\<lambda>a b. a @ ''/'' @ b), glfs_elements = split_at (CHR ''/'') []\<rparr>"

definition memory_volume_helper :: GlusterFSHelper where
  "memory_volume_helper =
     \<lparr>m_mountPoint = [], h_uid = 0, h_gid = 0, m_hostname = ''localhost'', m_port = 24007, m_volume = ''data'',
      m_transport = ''tcp'', m_xlatorOptions = []\<rparr>"

interpretation memory_gluster: gluster_file memory_volume memory_volume_helper fd "\<lambda>f. f"
  by unfold_locales (simp_all add: memory_volume_def memory_volume_helper_def parseXlatorOptions_def harmless_def)

end
