(* ===== verification/WebDAV.thy ===== *)
theory WebDAV
  imports Buffering KvKeys
begin

text \<open>
  \<^verbatim>\<open>src/src/webDAVHelper.cc\<close> and \<^verbatim>\<open>webDAVHelper.h\<close>: files on a WebDAV server, through a pool of HTTP
  sessions. The HTTP library with the server behind it, the XML library and the functions on URIs
  are the parameter \<open>lib\<close>. Operations run to their end within the call, or block, or are left
  without an answer; helpers and handles are alive while their operations run.
\<close>

section \<open>Status codes\<close>

definition httpStatusToPosixError :: "nat \<Rightarrow> int" where
  "httpStatusToPosixError httpStatus =
     (if httpStatus div 100 = 2 then 0
      else if httpStatus div 100 < 4 then EIO
      else if httpStatus = 400 then EBADMSG
      else if httpStatus = 401 \<or> httpStatus = 403 then EPERM
      else if httpStatus = 404 then ENOENT
      else if httpStatus = 405 then EOPNOTSUPP
      else if httpStatus = 406 then EACCES
      else if httpStatus = 407 then EACCES
      else if httpStatus = 408 then EAGAIN
      else if httpStatus = 409 then EBADMSG
      else if httpStatus = 410 then ENXIO
      else if httpStatus = 411 then EINVAL
      else if httpStatus = 412 then EINVAL
      else if httpStatus = 413 then EFBIG
      else if httpStatus = 414 then EINVAL
      else if httpStatus = 415 then EINVAL
      else if httpStatus = 416 then ERANGE
      else if httpStatus = 417 then EINVAL
      else if httpStatus = 426 then EINVAL
      else if httpStatus = 428 then EINVAL
      else if httpStatus = 429 then EBUSY
      else if httpStatus = 431 then EFBIG
      else if httpStatus = 451 then EPERM
      else if httpStatus = 500 then EIO
      else if httpStatus = 501 then EOPNOTSUPP
      else if httpStatus = 502 then ENXIO
      else if httpStatus = 503 then ENXIO
      else if httpStatus = 504 then EAGAIN
      else if httpStatus = 505 then EINVAL
      else if httpStatus = 511 then EACCES
      else EIO)"

section \<open>Messages, sessions and the libraries\<close>

record http_request =
  req_method :: string
  req_url :: string
  req_headers :: "(string \<times> string) list"
  req_body :: bytes

text \<open>Of the headers of a response only \<^verbatim>\<open>Connection\<close> is looked at.\<close>

record http_response =
  resp_status :: nat
  resp_connection :: "string option"
  resp_body :: bytes

record poco_uri =
  uri_scheme :: string
  uri_host :: string
  uri_port :: nat
  uri_path :: string

text \<open>Documents that are sent: elements with namespace, name, attributes and children, and text.\<close>

datatype xml_out =
    Element string string "(string \<times> string) list" "xml_out list"
  | TextNode string

text \<open>
  \<open>'n\<close> is the state of the network and the server, \<open>'d\<close> a node of a received document.
  \<open>http_connect\<close> gives the address of the peer, or nothing when \<open>connectError\<close> is called;
  \<open>http_exchange\<close> sends a request on a session and gives what \<open>onError\<close> gets, or the response.
\<close>

record ('n, 'd) webdav_lib =
  http_connect :: "poco_uri \<Rightarrow> bool \<Rightarrow> 'n \<Rightarrow> string option \<times> 'n"
  isClosing :: "nat \<Rightarrow> 'n \<Rightarrow> bool"
  newTransaction :: "nat \<Rightarrow> 'n \<Rightarrow> bool \<times> 'n"
  http_exchange :: "nat \<Rightarrow> http_request \<Rightarrow> 'n \<Rightarrow> (cpp_exn + http_response) \<times> 'n"
  trimWhitespace :: "string \<Rightarrow> string"
  base64 :: "string \<Rightarrow> string"
  sformat :: "string \<Rightarrow> string \<Rightarrow> string"
  uri_parse :: "string \<Rightarrow> poco_uri option"
  uri_encode :: "string \<Rightarrow> string"
  parse_rfc1123 :: "string \<Rightarrow> int fut"
  writeNode :: "xml_out \<Rightarrow> bytes"
  parseMemory :: "bytes \<Rightarrow> 'd option"
  getNodeByPathNS :: "'d \<Rightarrow> string \<Rightarrow> 'd option"
  getElementsByTagNameNS :: "'d \<Rightarrow> string \<Rightarrow> string \<Rightarrow> 'd list"
  childNodes :: "'d \<Rightarrow> 'd list"
  innerText :: "'d \<Rightarrow> string"
  isTextNode :: "'d \<Rightarrow> bool"
  namespaceURI :: "'d \<Rightarrow> string"
  localName :: "'d \<Rightarrow> string"

abbreviation kNSDAV :: string where "kNSDAV \<equiv> ''DAV:''"
abbreviation kNSOnedata :: string where "kNSOnedata \<equiv> ''http://onedata.org/metadata''"

section \<open>The helper\<close>

datatype WebDAVCredentialsType = CREDENTIALS_NONE | CREDENTIALS_BASIC | CREDENTIALS_TOKEN

datatype WebDAVRangeWriteSupport = RANGE_WRITE_NONE | SABREDAV_PARTIALUPDATE | MODDAV_PUTRANGE

record WebDAVHelper =
  m_endpoint :: poco_uri
  m_verifyServerCertificate :: bool
  m_credentialsType :: WebDAVCredentialsType
  m_credentials :: string
  m_authorizationHeader :: string
  m_rangeWriteSupport :: WebDAVRangeWriteSupport
  m_connectionPoolSize :: nat
  m_maximumUploadSize :: u64

text \<open>\<open>has_session\<close> says that the pointer to the HTTP session is not null.\<close>

record WebDAVSession =
  has_session :: bool
  session_host :: string
  closedByRemote :: bool
  sessionValid :: bool

record 'n webdav =
  m_idleSessionPool :: "nat list"
  m_sessionPool :: "nat \<Rightarrow> WebDAVSession"
  network :: 'n

text \<open>The queue of idle sessions holds 100 of them; what does not fit is not written.\<close>

definition pool_write :: "nat \<Rightarrow> nat list \<Rightarrow> nat list" where
  "pool_write i pool = (if length pool < 100 then pool @ [i] else pool)"

definition new_session :: WebDAVSession where
  "new_session = \<lparr>has_session = False, session_host = [], closedByRemote = False, sessionValid = False\<rparr>"

definition new_webdav :: "WebDAVHelper \<Rightarrow> 'n \<Rightarrow> 'n webdav" where
  "new_webdav h net =
     \<lparr>m_idleSessionPool = fold pool_write [0..<m_connectionPoolSize h] [], m_sessionPool = (\<lambda>_. new_session),
      network = net\<rparr>"

definition releaseSession :: "nat \<Rightarrow> 'n webdav \<Rightarrow> 'n webdav" where
  "releaseSession i s = s\<lparr>m_idleSessionPool := pool_write i (m_idleSessionPool s)\<rparr>"

definition set_session :: "nat \<Rightarrow> WebDAVSession \<Rightarrow> 'n webdav \<Rightarrow> 'n webdav" where
  "set_session i ses s = s\<lparr>m_sessionPool := (m_sessionPool s)(i := ses)\<rparr>"

definition reset_session :: "WebDAVSession \<Rightarrow> WebDAVSession" where
  "reset_session ses = ses\<lparr>sessionValid := False, closedByRemote := False\<rparr>"

definition connectSuccess :: "string \<Rightarrow> WebDAVSession \<Rightarrow> WebDAVSession" where
  "connectSuccess peer ses = ses\<lparr>has_session := True, session_host := peer, sessionValid := True\<rparr>"

text \<open>\<open>onIngressError\<close>, \<open>onIngressEOF\<close> and \<open>onDestroy\<close>.\<close>

definition sessionLost :: "nat \<Rightarrow> 'n webdav \<Rightarrow> 'n webdav" where
  "sessionLost i s = set_session i ((m_sessionPool s i)\<lparr>sessionValid := False\<rparr>) s"

text \<open>
  What becomes of an operation: it waits for an idle session, its promise is never given a value,
  or its future is settled.
\<close>

datatype 'a outcome = Blocked | Unanswered | Answered "'a fut"

text \<open>
  \<open>connect\<close>: a failed connection releases the session and leaves the promise as it is.
\<close>

definition wd_connect :: "('n, 'd) webdav_lib \<Rightarrow> WebDAVHelper \<Rightarrow> 'n webdav \<Rightarrow> nat outcome \<times> 'n webdav" where
  "wd_connect lib h s =
     (case m_idleSessionPool s of
        [] \<Rightarrow> (Blocked, s)
      | i # pool \<Rightarrow>
          (let s1 = s\<lparr>m_idleSessionPool := pool\<rparr>; ses = m_sessionPool s i
           in if \<not> closedByRemote ses \<and> has_session ses then (Answered (Inr i), s1)
              else
                (case http_connect lib (m_endpoint h) (m_verifyServerCertificate h) (network s1) of
                   (None, net) \<Rightarrow> (Unanswered, releaseSession i (set_session i (reset_session ses) s1\<lparr>network := net\<rparr>))
                 | (Some peer, net) \<Rightarrow>
                     (Answered (Inr i), set_session i (connectSuccess peer (reset_session ses)) s1\<lparr>network := net\<rparr>))))"

definition with_session ::
  "('n, 'd) webdav_lib \<Rightarrow> WebDAVHelper \<Rightarrow> (nat \<Rightarrow> 'n webdav \<Rightarrow> 'a fut \<times> 'n webdav) \<Rightarrow> 'n webdav \<Rightarrow>
    'a outcome \<times> 'n webdav" where
  "with_session lib h body s =
     (case wd_connect lib h s of
        (Blocked, s1) \<Rightarrow> (Blocked, s1)
      | (Unanswered, s1) \<Rightarrow> (Unanswered, s1)
      | (Answered (Inl e), s1) \<Rightarrow> (Answered (Inl e), s1)
      | (Answered (Inr i), s1) \<Rightarrow> (let (r, s2) = body i s1 in (Answered r, s2)))"

section \<open>Requests\<close>

text \<open>White space only is trimmed to the empty string, whose first character is the final zero.\<close>

definition ensureHttpPath :: "(string \<Rightarrow> string) \<Rightarrow> string \<Rightarrow> string" where
  "ensureHttpPath trim path =
     (if path = [] then ''/''
      else (let result = trim path in if result \<noteq> [] \<and> hd result = CHR ''/'' then result else CHR ''/'' # result))"

definition ensureCollectionPath :: "(string \<Rightarrow> string) \<Rightarrow> string \<Rightarrow> string" where
  "ensureCollectionPath trim path =
     (let result = ensureHttpPath trim path in if last result \<noteq> CHR ''/'' then result @ ''/'' else result)"

definition authorization :: "('n, 'd) webdav_lib \<Rightarrow> WebDAVHelper \<Rightarrow> (string \<times> string) list" where
  "authorization lib h =
     (case m_credentialsType h of
        CREDENTIALS_NONE \<Rightarrow> []
      | CREDENTIALS_BASIC \<Rightarrow> [(''Authorization'', ''Basic '' @ base64 lib (m_credentials h))]
      | CREDENTIALS_TOKEN \<Rightarrow>
          (case split_at (CHR '':'') [] (m_authorizationHeader h) of
             [nm] \<Rightarrow> [(trimWhitespace lib nm, m_credentials h)]
           | [nm, fmt] \<Rightarrow> [(nm, sformat lib fmt (m_credentials h))]
           | _ \<Rightarrow> []))"

text \<open>The request every constructor starts from, with the method, the path and further headers.\<close>

definition WebDAVRequest ::
  "('n, 'd) webdav_lib \<Rightarrow> WebDAVHelper \<Rightarrow> string \<Rightarrow> string \<Rightarrow> string \<Rightarrow> (string \<times> string) list \<Rightarrow> bytes \<Rightarrow> http_request" where
  "WebDAVRequest lib h host meth resource hdrs body =
     \<lparr>req_method = meth,
      req_url = ensureHttpPath (trimWhitespace lib) (uri_path (m_endpoint h) @ ''/'' @ resource),
      req_headers = [(''User-Agent'', ''Onedata''), (''Accept'', ''*/*''), (''Connection'', ''Keep-Alive''), (''Host'', host)] @
        authorization lib h @ hdrs,
      req_body = body\<rparr>"

definition startTransaction :: "('n, 'd) webdav_lib \<Rightarrow> nat \<Rightarrow> 'n webdav \<Rightarrow> unit fut \<times> 'n webdav" where
  "startTransaction lib i s =
     (let ses = m_sessionPool s i
      in if closedByRemote ses \<or> \<not> sessionValid ses \<or> \<not> has_session ses \<or> isClosing lib i (network s)
         then (Inl (makePosixException EAGAIN), releaseSession i s)
         else (case newTransaction lib i (network s) of
                 (False, net) \<Rightarrow> (Inl (makePosixException EAGAIN), releaseSession i (s\<lparr>network := net\<rparr>))
               | (True, net) \<Rightarrow> (Inr (), s\<lparr>network := net\<rparr>)))"

definition onHeadersComplete :: "nat \<Rightarrow> http_response \<Rightarrow> 'n webdav \<Rightarrow> 'n webdav" where
  "onHeadersComplete i msg s =
     (if resp_connection msg = Some ''close'' then set_session i ((m_sessionPool s i)\<lparr>closedByRemote := True\<rparr>) s else s)"

text \<open>A request from its start to \<open>detachTransaction\<close>, which releases the session.\<close>

definition perform ::
  "('n, 'd) webdav_lib \<Rightarrow> nat \<Rightarrow> http_request \<Rightarrow> (http_response \<Rightarrow> 'a fut) \<Rightarrow> 'n webdav \<Rightarrow> 'a fut \<times> 'n webdav" where
  "perform lib i req onEOM s =
     (case startTransaction lib i s of
        (Inl e, s1) \<Rightarrow> (Inl e, s1)
      | (Inr _, s1) \<Rightarrow>
          (case http_exchange lib i req (network s1) of
             (Inl e, net) \<Rightarrow> (Inl e, releaseSession i (s1\<lparr>network := net\<rparr>))
           | (Inr msg, net) \<Rightarrow> (onEOM msg, releaseSession i (onHeadersComplete i msg (s1\<lparr>network := net\<rparr>)))))"

text \<open>The end of a response whose body does not matter: PUT, PATCH, MKCOL, DELETE, MOVE and COPY.\<close>

definition onEOM_unit :: "http_response \<Rightarrow> unit fut" where
  "onEOM_unit msg =
     (let result = httpStatusToPosixError (resp_status msg)
      in if result = 0 then Inr () else Inl (makePosixException result))"

abbreviation host_of :: "nat \<Rightarrow> 'n webdav \<Rightarrow> string" where
  "host_of i s \<equiv> session_host (m_sessionPool s i)"

text \<open>The last byte of a range is computed in 64 bits.\<close>

definition range_last :: "int \<Rightarrow> nat \<Rightarrow> string" where
  "range_last offset sz = to_dec (unat (of_int offset + of_nat sz - 1 :: u64))"

definition GET_request ::
  "('n, 'd) webdav_lib \<Rightarrow> WebDAVHelper \<Rightarrow> string \<Rightarrow> string \<Rightarrow> int \<Rightarrow> nat \<Rightarrow> http_request" where
  "GET_request lib h host resource offset sz =
     WebDAVRequest lib h host ''GET'' resource
       [(''Range'', if offset = 0 \<and> sz = 1 then ''bytes=0-1''
                    else ''bytes='' @ off_to_string offset @ ''-'' @ range_last offset sz)] []"

text \<open>
  Of the first byte alone two are requested and one is kept; without a body the missing buffer is
  dereferenced. A request that is not sent releases its session when it is destroyed.
\<close>

definition GET_onEOM :: "bool \<Rightarrow> http_response \<Rightarrow> bytes fut" where
  "GET_onEOM firstByteRequest msg =
     (let result = httpStatusToPosixError (resp_status msg)
      in if result \<noteq> 0 then Inl (makePosixException result)
         else if \<not> firstByteRequest then Inr (resp_body msg)
         else if resp_body msg = [] then Inl undefined_index
         else Inr [hd (resp_body msg)])"

definition WebDAVGET ::
  "('n, 'd) webdav_lib \<Rightarrow> WebDAVHelper \<Rightarrow> string \<Rightarrow> int \<Rightarrow> nat \<Rightarrow> nat \<Rightarrow> 'n webdav \<Rightarrow> bytes fut \<times> 'n webdav" where
  "WebDAVGET lib h resource offset sz i s =
     (if sz = 0 then (Inr [], releaseSession i s)
      else perform lib i (GET_request lib h (host_of i s) resource offset sz) (GET_onEOM (offset = 0 \<and> sz = 1)) s)"

definition PUT_request ::
  "('n, 'd) webdav_lib \<Rightarrow> WebDAVHelper \<Rightarrow> string \<Rightarrow> string \<Rightarrow> int \<Rightarrow> bytes \<Rightarrow> http_request" where
  "PUT_request lib h host resource offset buf =
     WebDAVRequest lib h host ''PUT'' resource
       ((if buf \<noteq> [] then [(''Content-Range'', ''bytes '' @ off_to_string offset @ ''-'' @ range_last offset (length buf) @ ''/*'')] else []) @
        [(''Content-length'', to_dec (length buf))]) buf"

definition WebDAVPUT ::
  "('n, 'd) webdav_lib \<Rightarrow> WebDAVHelper \<Rightarrow> string \<Rightarrow> int \<Rightarrow> bytes \<Rightarrow> nat \<Rightarrow> 'n webdav \<Rightarrow> unit fut \<times> 'n webdav" where
  "WebDAVPUT lib h resource offset buf i s =
     perform lib i (PUT_request lib h (host_of i s) resource offset buf) onEOM_unit s"

definition PATCH_request ::
  "('n, 'd) webdav_lib \<Rightarrow> WebDAVHelper \<Rightarrow> string \<Rightarrow> string \<Rightarrow> int \<Rightarrow> bytes \<Rightarrow> http_request" where
  "PATCH_request lib h host resource offset buf =
     WebDAVRequest lib h host ''PATCH'' resource
       [(''X-Update-Range'', ''bytes='' @ off_to_string offset @ ''-'' @ range_last offset (length buf)),
        (''Content-type'', ''application/x-sabredav-partialupdate''),
        (''Content-length'', to_dec (length buf))] buf"

definition WebDAVPATCH ::
  "('n, 'd) webdav_lib \<Rightarrow> WebDAVHelper \<Rightarrow> string \<Rightarrow> int \<Rightarrow> bytes \<Rightarrow> nat \<Rightarrow> 'n webdav \<Rightarrow> unit fut \<times> 'n webdav" where
  "WebDAVPATCH lib h resource offset buf i s =
     (if buf = [] then (Inr (), releaseSession i s)
      else perform lib i (PATCH_request lib h (host_of i s) resource offset buf) onEOM_unit s)"

definition WebDAVMKCOL ::
  "('n, 'd) webdav_lib \<Rightarrow> WebDAVHelper \<Rightarrow> string \<Rightarrow> nat \<Rightarrow> 'n webdav \<Rightarrow> unit fut \<times> 'n webdav" where
  "WebDAVMKCOL lib h resource i s = perform lib i (WebDAVRequest lib h (host_of i s) ''MKCOL'' resource [] []) onEOM_unit s"

definition WebDAVDELETE ::
  "('n, 'd) webdav_lib \<Rightarrow> WebDAVHelper \<Rightarrow> string \<Rightarrow> nat \<Rightarrow> 'n webdav \<Rightarrow> unit fut \<times> 'n webdav" where
  "WebDAVDELETE lib h resource i s = perform lib i (WebDAVRequest lib h (host_of i s) ''DELETE'' resource [] []) onEOM_unit s"

definition WebDAVMOVE ::
  "('n, 'd) webdav_lib \<Rightarrow> WebDAVHelper \<Rightarrow> string \<Rightarrow> string \<Rightarrow> nat \<Rightarrow> 'n webdav \<Rightarrow> unit fut \<times> 'n webdav" where
  "WebDAVMOVE lib h resource destination i s =
     perform lib i (WebDAVRequest lib h (host_of i s) ''MOVE'' resource [(''Destination'', destination)] []) onEOM_unit s"

definition WebDAVCOPY ::
  "('n, 'd) webdav_lib \<Rightarrow> WebDAVHelper \<Rightarrow> string \<Rightarrow> string \<Rightarrow> nat \<Rightarrow> 'n webdav \<Rightarrow> unit fut \<times> 'n webdav" where
  "WebDAVCOPY lib h resource destination i s =
     perform lib i (WebDAVRequest lib h (host_of i s) ''COPY'' resource [(''Destination'', destination)] []) onEOM_unit s"

definition PROPFIND_onEOM :: "('n, 'd) webdav_lib \<Rightarrow> http_response \<Rightarrow> 'd fut" where
  "PROPFIND_onEOM lib msg =
     (let result = httpStatusToPosixError (resp_status msg)
      in if result \<noteq> 0 then Inl (makePosixException result)
         else (case parseMemory lib (resp_body msg) of None \<Rightarrow> Inl (makePosixException EIO) | Some xml \<Rightarrow> Inr xml))"

definition WebDAVPROPFIND ::
  "('n, 'd) webdav_lib \<Rightarrow> WebDAVHelper \<Rightarrow> string \<Rightarrow> int \<Rightarrow> nat \<Rightarrow> 'n webdav \<Rightarrow> 'd fut \<times> 'n webdav" where
  "WebDAVPROPFIND lib h resource depth i s =
     perform lib i (WebDAVRequest lib h (host_of i s) ''PROPFIND'' resource
       [(''Depth'', if depth \<ge> 0 then off_to_string depth else ''infinity'')] []) (PROPFIND_onEOM lib) s"

text \<open>An empty value is stored as an element, as a property without a value cannot be.\<close>

definition propertyUpdate :: "('n, 'd) webdav_lib \<Rightarrow> string \<Rightarrow> string \<Rightarrow> bool \<Rightarrow> xml_out" where
  "propertyUpdate lib property val remv =
     Element [] ''propertyupdate'' [(''xmlns'', kNSDAV), (''xmlns:o'', kNSOnedata)]
       [if \<not> remv
        then Element [] ''set'' [] [Element [] ''prop'' []
               [Element kNSOnedata (uri_encode lib property) []
                  [if val \<noteq> [] then TextNode val else Element kNSOnedata ''Null'' [] []]]]
        else Element [] ''remove'' [] [Element [] ''prop'' [] [Element ''o:'' (uri_encode lib property) [] []]]]"

text \<open>Whatever is thrown within the block that reads the response is caught and becomes EIO.\<close>

definition PROPPATCH_onEOM :: "('n, 'd) webdav_lib \<Rightarrow> http_response \<Rightarrow> unit fut" where
  "PROPPATCH_onEOM lib msg =
     (let result = httpStatusToPosixError (resp_status msg)
      in if result \<noteq> 0 then Inl (makePosixException result)
         else
           (case parseMemory lib (resp_body msg) of
              None \<Rightarrow> Inl (makePosixException EIO)
            | Some xml \<Rightarrow>
                (case getNodeByPathNS lib xml ''d:multistatus/d:response/d:propstat/d:status'' of
                   None \<Rightarrow> Inl (makePosixException EIO)
                 | Some status_node \<Rightarrow>
                     (if innerText lib status_node = ''HTTP/1.1 200 OK'' \<or>
                         innerText lib status_node = ''HTTP/1.1 204 No Content'' then Inr ()
                      else Inl (makePosixException EIO)))))"

definition PROPPATCH_request ::
  "('n, 'd) webdav_lib \<Rightarrow> WebDAVHelper \<Rightarrow> string \<Rightarrow> string \<Rightarrow> xml_out \<Rightarrow> http_request" where
  "PROPPATCH_request lib h host resource doc =
     WebDAVRequest lib h host ''PROPPATCH'' resource
       [(''Content-type'', ''application/x-www-form-urlencoded''),
        (''Content-length'', to_dec (length (writeNode lib doc)))] (writeNode lib doc)"

definition WebDAVPROPPATCH ::
  "('n, 'd) webdav_lib \<Rightarrow> WebDAVHelper \<Rightarrow> string \<Rightarrow> string \<Rightarrow> string \<Rightarrow> bool \<Rightarrow> nat \<Rightarrow> 'n webdav \<Rightarrow> unit fut \<times> 'n webdav" where
  "WebDAVPROPPATCH lib h resource property val remv i s =
     perform lib i (PROPPATCH_request lib h (host_of i s) resource (propertyUpdate lib property val remv))
       (PROPPATCH_onEOM lib) s"

section \<open>File handles\<close>

text \<open>A handle is the id of its file and the helper; opening one asks the server nothing.\<close>

definition wd_open :: "string \<Rightarrow> int \<Rightarrow> Params \<Rightarrow> 'n webdav \<Rightarrow> string outcome \<times> 'n webdav" where
  "wd_open fileId flags openParams s = (Answered (Inr fileId), s)"

definition wd_read ::
  "('n, 'd) webdav_lib \<Rightarrow> WebDAVHelper \<Rightarrow> string \<Rightarrow> int \<Rightarrow> nat \<Rightarrow> 'n webdav \<Rightarrow> bytes outcome \<times> 'n webdav" where
  "wd_read lib h fileId offset sz = with_session lib h (WebDAVGET lib h fileId offset sz)"

text \<open>Where writing is not supported the session taken from the pool is not put back.\<close>

definition wd_write ::
  "('n, 'd) webdav_lib \<Rightarrow> WebDAVHelper \<Rightarrow> string \<Rightarrow> int \<Rightarrow> bytes \<Rightarrow> 'n webdav \<Rightarrow> nat outcome \<times> 'n webdav" where
  "wd_write lib h fileId offset buf = with_session lib h (\<lambda>i s.
     case m_rangeWriteSupport h of
       SABREDAV_PARTIALUPDATE \<Rightarrow>
         (let (r, s1) = WebDAVPATCH lib h fileId offset buf i s in (map_sum id (\<lambda>_. length buf) r, s1))
     | MODDAV_PUTRANGE \<Rightarrow>
         (let (r, s1) = WebDAVPUT lib h fileId offset buf i s in (map_sum id (\<lambda>_. length buf) r, s1))
     | RANGE_WRITE_NONE \<Rightarrow> (Inl (makePosixException EOPNOTSUPP), s))"

section \<open>Operations of the helper\<close>

text \<open>What follows a PROPFIND is done with the document it gives.\<close>

definition propfind ::
  "('n, 'd) webdav_lib \<Rightarrow> WebDAVHelper \<Rightarrow> string \<Rightarrow> int \<Rightarrow> ('d \<Rightarrow> 'a fut) \<Rightarrow> 'n webdav \<Rightarrow> 'a outcome \<times> 'n webdav" where
  "propfind lib h fileId depth use_doc = with_session lib h (\<lambda>i s.
     case WebDAVPROPFIND lib h fileId depth i s of
       (Inl e, s1) \<Rightarrow> (Inl e, s1)
     | (Inr multistatus, s1) \<Rightarrow> (use_doc multistatus, s1))"

definition wd_access ::
  "('n, 'd) webdav_lib \<Rightarrow> WebDAVHelper \<Rightarrow> string \<Rightarrow> 'n webdav \<Rightarrow> unit outcome \<times> 'n webdav" where
  "wd_access lib h fileId = propfind lib h fileId 0 (\<lambda>_. Inr ())"

record dav_stat =
  wd_mode :: u32
  wd_mtime :: int
  wd_size :: int

abbreviation prop_path :: string where "prop_path \<equiv> ''d:multistatus/d:response/d:propstat/d:prop/''"

text \<open>A size is read with \<^verbatim>\<open>std::stoi\<close>; a document without a resource type is dereferenced all the same.\<close>

definition stat_of :: "('n, 'd) webdav_lib \<Rightarrow> 'd \<Rightarrow> dav_stat fut" where
  "stat_of lib multistatus =
     (case getNodeByPathNS lib multistatus (prop_path @ ''d:resourcetype'') of
        None \<Rightarrow> Inl undefined_index
      | Some resourceType \<Rightarrow>
          (let mode = (if childNodes lib resourceType = [] then 0x8000 else 0x4000)
           in case (case getNodeByPathNS lib multistatus (prop_path @ ''d:getlastmodified'') of
                      None \<Rightarrow> Inr 0
                    | Some getLastModified \<Rightarrow> parse_rfc1123 lib (innerText lib getLastModified)) of
                Inl e \<Rightarrow> Inl e
              | Inr mtime \<Rightarrow>
                  (case (case getNodeByPathNS lib multistatus (prop_path @ ''d:getcontentlength'') of
                           None \<Rightarrow> Inr 0
                         | Some getContentLength \<Rightarrow> sto_signed 31 (innerText lib getContentLength)) of
                     Inl e \<Rightarrow> Inl e
                   | Inr sz \<Rightarrow> Inr \<lparr>wd_mode = mode, wd_mtime = mtime, wd_size = sz\<rparr>)))"

definition wd_getattr ::
  "('n, 'd) webdav_lib \<Rightarrow> WebDAVHelper \<Rightarrow> string \<Rightarrow> 'n webdav \<Rightarrow> dav_stat outcome \<times> 'n webdav" where
  "wd_getattr lib h fileId = propfind lib h fileId 0 (stat_of lib)"

definition wd_unlink :: "('n, 'd) webdav_lib \<Rightarrow> WebDAVHelper \<Rightarrow> string \<Rightarrow> 'n webdav \<Rightarrow> unit outcome \<times> 'n webdav" where
  "wd_unlink lib h fileId = with_session lib h (WebDAVDELETE lib h fileId)"

definition wd_rmdir :: "('n, 'd) webdav_lib \<Rightarrow> WebDAVHelper \<Rightarrow> string \<Rightarrow> 'n webdav \<Rightarrow> unit outcome \<times> 'n webdav" where
  "wd_rmdir lib h fileId = with_session lib h (WebDAVDELETE lib h fileId)"

text \<open>
  The loop that fills the buffer of an extension counts in 32 bits. The buffer is created with that
  capacity and length 0, and its length is never set, so that the request has no body. Sizes are not
  negative.
\<close>

partial_function (option) fillLoop :: "u32 \<Rightarrow> u64 \<Rightarrow> unit option" where
  "fillLoop i bound = (if unat i < unat bound then fillLoop (i + 1) bound else Some ())"

definition wd_truncate ::
  "('n, 'd) webdav_lib \<Rightarrow> WebDAVHelper \<Rightarrow> string \<Rightarrow> u64 \<Rightarrow> u64 \<Rightarrow> 'n webdav \<Rightarrow> (unit outcome \<times> 'n webdav) option" where
  "wd_truncate lib h fileId sz currentSize s =
     (if sz > 0 \<and> sz = currentSize then Some (Answered (Inr ()), s)
      else if sz > 0 \<and> sz < currentSize then Some (Answered (Inl (makePosixException ERANGE)), s)
      else if sz = 0 then Some (with_session lib h (WebDAVPUT lib h fileId 0 []) s)
      else (case wd_connect lib h s of
              (Answered (Inr i), _) \<Rightarrow>
                Option.bind (fillLoop 0 (sz - currentSize))
                  (\<lambda>_. Some (with_session lib h (WebDAVPUT lib h fileId (uint sz) []) s))
            | _ \<Rightarrow> Some (with_session lib h (WebDAVPUT lib h fileId (uint sz) []) s)))"

definition wd_mknod :: "('n, 'd) webdav_lib \<Rightarrow> WebDAVHelper \<Rightarrow> string \<Rightarrow> 'n webdav \<Rightarrow> unit outcome \<times> 'n webdav" where
  "wd_mknod lib h fileId = with_session lib h (WebDAVPUT lib h fileId 0 [])"

definition wd_mkdir :: "('n, 'd) webdav_lib \<Rightarrow> WebDAVHelper \<Rightarrow> string \<Rightarrow> 'n webdav \<Rightarrow> unit outcome \<times> 'n webdav" where
  "wd_mkdir lib h fileId = with_session lib h (WebDAVMKCOL lib h fileId)"

definition wd_rename ::
  "('n, 'd) webdav_lib \<Rightarrow> WebDAVHelper \<Rightarrow> string \<Rightarrow> string \<Rightarrow> 'n webdav \<Rightarrow> unit outcome \<times> 'n webdav" where
  "wd_rename lib h from_id to_id = with_session lib h (WebDAVMOVE lib h from_id to_id)"

definition wd_chmod :: "'n webdav \<Rightarrow> unit outcome \<times> 'n webdav" where
  "wd_chmod s = (Answered (Inr ()), s)"

text \<open>The entries of a directory: of each reference but that of the directory, what follows the last slash.\<close>

definition dir_entries :: "('n, 'd) webdav_lib \<Rightarrow> string \<Rightarrow> 'd \<Rightarrow> string list" where
  "dir_entries lib fileId multistatus =
     (let directoryPath = ensureCollectionPath (trimWhitespace lib) fileId
      in concat (map (\<lambda>response.
           if childNodes lib response = [] then []
           else (case getNodeByPathNS lib response ''d:href'' of
                   None \<Rightarrow> []
                 | Some href \<Rightarrow>
                     (if directoryPath \<noteq> innerText lib href then [last (split_at (CHR ''/'') [] (innerText lib href))] else [])))
           (getElementsByTagNameNS lib multistatus kNSDAV ''response'')))"

text \<open>The offset and the count are not used.\<close>

definition wd_readdir ::
  "('n, 'd) webdav_lib \<Rightarrow> WebDAVHelper \<Rightarrow> string \<Rightarrow> int \<Rightarrow> u64 \<Rightarrow> 'n webdav \<Rightarrow> string list outcome \<times> 'n webdav" where
  "wd_readdir lib h fileId offset cnt = propfind lib h fileId 1 (\<lambda>doc. Inr (dir_entries lib fileId doc))"

definition attribute_of :: "('n, 'd) webdav_lib \<Rightarrow> string \<Rightarrow> 'd \<Rightarrow> string fut" where
  "attribute_of lib nm multistatus =
     (case getNodeByPathNS lib multistatus (prop_path @ ''o:'' @ uri_encode lib nm) of
        None \<Rightarrow> Inl (makePosixException ENODATA)
      | Some attributeNode \<Rightarrow>
          (case childNodes lib attributeNode of
             [attributeValueNode] \<Rightarrow> Inr (if isTextNode lib attributeValueNode then innerText lib attributeNode else [])
           | _ \<Rightarrow> Inl (makePosixException ENODATA)))"

definition wd_getxattr ::
  "('n, 'd) webdav_lib \<Rightarrow> WebDAVHelper \<Rightarrow> string \<Rightarrow> string \<Rightarrow> 'n webdav \<Rightarrow> string outcome \<times> 'n webdav" where
  "wd_getxattr lib h fileId nm = propfind lib h fileId 0 (attribute_of lib nm)"

definition wd_setxattr ::
  "('n, 'd) webdav_lib \<Rightarrow> WebDAVHelper \<Rightarrow> string \<Rightarrow> string \<Rightarrow> string \<Rightarrow> bool \<Rightarrow> bool \<Rightarrow> 'n webdav \<Rightarrow> unit outcome \<times> 'n webdav" where
  "wd_setxattr lib h fileId nm val create repl = with_session lib h (WebDAVPROPPATCH lib h fileId nm val False)"

definition wd_removexattr ::
  "('n, 'd) webdav_lib \<Rightarrow> WebDAVHelper \<Rightarrow> string \<Rightarrow> string \<Rightarrow> 'n webdav \<Rightarrow> unit outcome \<times> 'n webdav" where
  "wd_removexattr lib h fileId nm = with_session lib h (WebDAVPROPPATCH lib h fileId nm [] True)"

definition attribute_names :: "('n, 'd) webdav_lib \<Rightarrow> 'd \<Rightarrow> string list" where
  "attribute_names lib multistatus =
     (case getNodeByPathNS lib multistatus ''d:multistatus/d:response/d:propstat/d:prop'' of
        None \<Rightarrow> []
      | Some prop \<Rightarrow> map (localName lib) (filter (\<lambda>p. namespaceURI lib p = kNSOnedata) (childNodes lib prop)))"

definition wd_listxattr ::
  "('n, 'd) webdav_lib \<Rightarrow> WebDAVHelper \<Rightarrow> string \<Rightarrow> 'n webdav \<Rightarrow> string list outcome \<times> 'n webdav" where
  "wd_listxattr lib h fileId = propfind lib h fileId 0 (\<lambda>doc. Inr (attribute_names lib doc))"

section \<open>Creating a helper\<close>

text \<open>The scheme an endpoint gets when it has none.\<close>

definition endpoint_scheme :: "string \<Rightarrow> string" where
  "endpoint_scheme endpoint =
     (if CHR '':'' \<notin> set endpoint then ''http://''
      else if \<not> starts_with ''http'' endpoint
      then (if \<not> contains '':443'' endpoint then ''http://'' else ''https://'')
      else [])"

definition normalizeEndpoint :: "('n, 'd) webdav_lib \<Rightarrow> string \<Rightarrow> poco_uri fut" where
  "normalizeEndpoint lib endpoint =
     (if endpoint = [] then Inl undefined_index
      else
        (case uri_parse lib (endpoint_scheme endpoint @ (if last endpoint = CHR ''/'' then butlast endpoint else endpoint)) of
           None \<Rightarrow> Inl invalid_argument
         | Some u \<Rightarrow>
             (if uri_host u = [] then Inl invalid_argument
              else if uri_scheme u \<noteq> [] \<and> uri_scheme u \<noteq> ''http'' \<and> uri_scheme u \<noteq> ''https'' then Inl invalid_argument
              else
                (let u1 = (if uri_scheme u = []
                           then (if uri_port u = 0 then u\<lparr>uri_scheme := ''http'', uri_port := 80\<rparr>
                                 else if uri_port u = 443 then u\<lparr>uri_scheme := ''https''\<rparr>
                                 else u\<lparr>uri_scheme := ''http''\<rparr>)
                           else u)
                 in Inr (if uri_port u1 = 0 then u1\<lparr>uri_port := if uri_scheme u1 = ''https'' then 443 else 80\<rparr> else u1)))))"

definition parseCredentialsType :: "string \<Rightarrow> WebDAVCredentialsType fut" where
  "parseCredentialsType s =
     (if s = ''none'' then Inr CREDENTIALS_NONE else if s = ''basic'' then Inr CREDENTIALS_BASIC
      else if s = ''token'' then Inr CREDENTIALS_TOKEN else Inl invalid_argument)"

definition parseRangeWriteSupport :: "string \<Rightarrow> WebDAVRangeWriteSupport fut" where
  "parseRangeWriteSupport s =
     (if s = [] \<or> s = ''none'' then Inr RANGE_WRITE_NONE else if s = ''sabredav'' then Inr SABREDAV_PARTIALUPDATE
      else if s = ''moddav'' then Inr MODDAV_PUTRANGE else Inl invalid_argument)"

text \<open>
  \<open>WebDAVHelperFactory::createStorageHelper\<close>; \<open>to_fbstring\<close>, \<open>to_u32\<close> and \<open>to_size\<close> are the casts of
  \<^verbatim>\<open>getParam\<close>.
\<close>

definition createWebDAVHelper ::
  "('n, 'd) webdav_lib \<Rightarrow> (string \<Rightarrow> string option) \<Rightarrow> (string \<Rightarrow> u32 option) \<Rightarrow> (string \<Rightarrow> u64 option) \<Rightarrow> u64 \<Rightarrow> Params \<Rightarrow>
   WebDAVHelper fut" where
  "createWebDAVHelper lib to_fbstring to_u32 to_size asyncOpsTimeout parameters =
     and_then (getParam_string parameters ''endpoint'') (\<lambda>endpoint.
     and_then (getParam_def_val to_fbstring parameters ''verifyServerCertificate'' ''true'') (\<lambda>verifyServerCertificateStr.
     and_then (getParam_def_val to_fbstring parameters ''credentialsType'' ''basic'') (\<lambda>credentialsTypeStr.
     and_then (getParam_string parameters ''credentials'') (\<lambda>credentials.
     let header = getParam_string_def parameters ''authorizationHeader'' ''Authorization: Bearer {}''
     in and_then (getParam_def_val to_fbstring parameters ''rangeWriteSupport'' ''none'') (\<lambda>rangeWriteSupportStr.
        and_then (getParam_def_val to_u32 parameters ''connectionPoolSize'' 10) (\<lambda>connectionPoolSize.
        and_then (getParam_def_val to_size parameters ''maximumUploadSize'' 0) (\<lambda>maximumUploadSize.
        let authorizationHeader = (if header = [] then ''Authorization: Bearer {}'' else header)
        in and_then (getParam_def_val to_size parameters ''timeout'' asyncOpsTimeout) (\<lambda>_.
           and_then (normalizeEndpoint lib endpoint) (\<lambda>endpointUrl.
           and_then (parseCredentialsType credentialsTypeStr) (\<lambda>credentialsType.
           and_then (parseRangeWriteSupport rangeWriteSupportStr) (\<lambda>rangeWriteSupport.
           Inr \<lparr>m_endpoint = endpointUrl, m_verifyServerCertificate = (verifyServerCertificateStr = ''true''),
                m_credentialsType = credentialsType, m_credentials = credentials,
                m_authorizationHeader = authorizationHeader, m_rangeWriteSupport = rangeWriteSupport,
                m_connectionPoolSize = unat connectionPoolSize, m_maximumUploadSize = maximumUploadSize\<rparr>)))))))))))"

section \<open>The pool of sessions\<close>

text \<open>The steps of a helper: its operations one at a time, and sessions that are lost between them.\<close>

abbreviation settled_as :: "'a outcome \<Rightarrow> unit outcome" where
  "settled_as \<equiv> map_outcome (\<lambda>_. ())"

inductive wd_step :: "('n, 'd) webdav_lib \<Rightarrow> WebDAVHelper \<Rightarrow> 'n webdav \<Rightarrow> unit outcome \<Rightarrow> 'n webdav \<Rightarrow> bool"
  for lib h where
  reading: "wd_read lib h f off n s = (r, s') \<Longrightarrow> wd_step lib h s (settled_as r) s'"
| writing: "wd_write lib h f off buf s = (r, s') \<Longrightarrow> wd_step lib h s (settled_as r) s'"
| accessing: "wd_access lib h f s = (r, s') \<Longrightarrow> wd_step lib h s (settled_as r) s'"
| stating: "wd_getattr lib h f s = (r, s') \<Longrightarrow> wd_step lib h s (settled_as r) s'"
| unlinking: "wd_unlink lib h f s = (r, s') \<Longrightarrow> wd_step lib h s (settled_as r) s'"
| removing_dir: "wd_rmdir lib h f s = (r, s') \<Longrightarrow> wd_step lib h s (settled_as r) s'"
| truncating: "wd_truncate lib h f sz cur s = Some (r, s') \<Longrightarrow> wd_step lib h s (settled_as r) s'"
| making: "wd_mknod lib h f s = (r, s') \<Longrightarrow> wd_step lib h s (settled_as r) s'"
| making_dir: "wd_mkdir lib h f s = (r, s') \<Longrightarrow> wd_step lib h s (settled_as r) s'"
| renaming: "wd_rename lib h f g s = (r, s') \<Longrightarrow> wd_step lib h s (settled_as r) s'"
| changing_mode: "wd_chmod s = (r, s') \<Longrightarrow> wd_step lib h s (settled_as r) s'"
| listing: "wd_readdir lib h f off cnt s = (r, s') \<Longrightarrow> wd_step lib h s (settled_as r) s'"
| getting_attr: "wd_getxattr lib h f nm s = (r, s') \<Longrightarrow> wd_step lib h s (settled_as r) s'"
| setting_attr: "wd_setxattr lib h f nm val create repl s = (r, s') \<Longrightarrow> wd_step lib h s (settled_as r) s'"
| removing_attr: "wd_removexattr lib h f nm s = (r, s') \<Longrightarrow> wd_step lib h s (settled_as r) s'"
| listing_attrs: "wd_listxattr lib h f s = (r, s') \<Longrightarrow> wd_step lib h s (settled_as r) s'"
| opening_file: "wd_open f fl ps s = (r, s') \<Longrightarrow> wd_step lib h s (settled_as r) s'"
| losing: "wd_step lib h s (Answered (Inr ())) (sessionLost i s)"

inductive wd_run :: "('n, 'd) webdav_lib \<Rightarrow> WebDAVHelper \<Rightarrow> 'n webdav \<Rightarrow> 'n webdav \<Rightarrow> bool" for lib h s where
  here: "wd_run lib h s s"
| there: "wd_run lib h s s1 \<Longrightarrow> wd_step lib h s1 r s2 \<Longrightarrow> wd_run lib h s s2"

text \<open>A body that puts the session it was given back.\<close>

definition puts_back :: "(nat \<Rightarrow> 'n webdav \<Rightarrow> 'a fut \<times> 'n webdav) \<Rightarrow> bool" where
  "puts_back body \<longleftrightarrow> (\<forall>i s. m_idleSessionPool (snd (body i s)) = pool_write i (m_idleSessionPool s))"

lemma pool_simps [simp]:
  "m_idleSessionPool (set_session i ses s) = m_idleSessionPool s"
  "m_idleSessionPool (releaseSession i s) = pool_write i (m_idleSessionPool s)"
  "m_idleSessionPool (onHeadersComplete i msg s) = m_idleSessionPool s"
  by (simp_all add: set_session_def releaseSession_def onHeadersComplete_def)

lemma perform_puts_back: "m_idleSessionPool (snd (perform lib i req eom s)) = pool_write i (m_idleSessionPool s)"
  by (auto simp: perform_def startTransaction_def Let_def split: prod.split sum.split bool.split)

lemma requests_put_back:
  "puts_back (WebDAVGET lib h f off n)" "puts_back (WebDAVPUT lib h f off buf)" "puts_back (WebDAVPATCH lib h f off buf)"
  "puts_back (WebDAVMKCOL lib h f)" "puts_back (WebDAVDELETE lib h f)" "puts_back (WebDAVMOVE lib h f g)"
  "puts_back (WebDAVPROPPATCH lib h f nm val remv)" "puts_back (WebDAVPROPFIND lib h f depth)"
  by (simp_all add: puts_back_def WebDAVGET_def WebDAVPUT_def WebDAVPATCH_def WebDAVMKCOL_def WebDAVDELETE_def
      WebDAVMOVE_def WebDAVPROPPATCH_def WebDAVPROPFIND_def perform_puts_back)

text \<open>An operation that keeps the sessions of the pool, and blocks only when there are none.\<close>

definition keeps_pool :: "('n webdav \<Rightarrow> 'a outcome \<times> 'n webdav) \<Rightarrow> bool" where
  "keeps_pool op \<longleftrightarrow> (\<forall>s. length (m_idleSessionPool s) \<le> 100 \<longrightarrow>
     mset (m_idleSessionPool (snd (op s))) = mset (m_idleSessionPool s) \<and> (fst (op s) = Blocked \<longrightarrow> m_idleSessionPool s = []))"

lemma with_session_keeps:
  assumes "puts_back body"
  shows "keeps_pool (with_session lib h body)"
  using assms by (auto simp: keeps_pool_def with_session_def wd_connect_def Let_def puts_back_def pool_write_def case_prod_beta
      split: list.split prod.split option.split)

lemma with_session_blocked: "fst (with_session lib h body s) = Blocked \<longleftrightarrow> m_idleSessionPool s = []"
  by (auto simp: with_session_def wd_connect_def Let_def case_prod_beta split: list.split prod.split option.split)

lemma puts_back_then:
  assumes "puts_back body"
  shows "puts_back (\<lambda>i s. case body i s of (Inl e, s1) \<Rightarrow> (Inl e, s1) | (Inr d, s1) \<Rightarrow> (g d, s1))"
    and "puts_back (\<lambda>i s. case body i s of (r, s1) \<Rightarrow> (k r, s1))"
proof -
  have p: "m_idleSessionPool s1 = pool_write i (m_idleSessionPool s)" if "body i s = (r, s1)" for i s r s1
    using assms that unfolding puts_back_def by (metis snd_conv)
  then show "puts_back (\<lambda>i s. case body i s of (Inl e, s1) \<Rightarrow> (Inl e, s1) | (Inr d, s1) \<Rightarrow> (g d, s1))"
    by (auto simp: puts_back_def split: prod.split sum.split)
  show "puts_back (\<lambda>i s. case body i s of (r, s1) \<Rightarrow> (k r, s1))"
    using p by (auto simp: puts_back_def split: prod.split)
qed

lemma propfind_keeps: "keeps_pool (propfind lib h f depth g)"
  unfolding propfind_def by (intro with_session_keeps puts_back_then requests_put_back)

lemma write_keeps:
  assumes "m_rangeWriteSupport h \<noteq> RANGE_WRITE_NONE"
  shows "keeps_pool (wd_write lib h f off buf)"
proof (cases "m_rangeWriteSupport h")
  case SABREDAV_PARTIALUPDATE
  then show ?thesis unfolding wd_write_def Let_def
    by (simp only: WebDAVRangeWriteSupport.case) (intro with_session_keeps puts_back_then(2) requests_put_back)
next
  case MODDAV_PUTRANGE
  then show ?thesis unfolding wd_write_def Let_def
    by (simp only: WebDAVRangeWriteSupport.case) (intro with_session_keeps puts_back_then(2) requests_put_back)
qed (use assms in simp)

lemma operations_keep:
  "keeps_pool (wd_read lib h f off n)" "keeps_pool (wd_access lib h f)" "keeps_pool (wd_getattr lib h f)"
  "keeps_pool (wd_unlink lib h f)" "keeps_pool (wd_rmdir lib h f)" "keeps_pool (wd_mknod lib h f)"
  "keeps_pool (wd_mkdir lib h f)" "keeps_pool (wd_rename lib h f g)" "keeps_pool (wd_readdir lib h f off cnt)"
  "keeps_pool (wd_getxattr lib h f nm)" "keeps_pool (wd_setxattr lib h f nm val create repl)"
  "keeps_pool (wd_removexattr lib h f nm)" "keeps_pool (wd_listxattr lib h f)" "keeps_pool wd_chmod"
  unfolding wd_read_def wd_access_def wd_getattr_def wd_unlink_def wd_rmdir_def wd_mknod_def wd_mkdir_def wd_rename_def
    wd_readdir_def wd_getxattr_def wd_setxattr_def wd_removexattr_def wd_listxattr_def
  by (intro with_session_keeps propfind_keeps requests_put_back)+ (simp add: keeps_pool_def wd_chmod_def)

lemma settled_blocked [simp]: "settled_as r = Blocked \<longleftrightarrow> r = Blocked" by (cases r) simp_all

lemma keeps_step:
  assumes "keeps_pool op" and "op s = (r, s')" and "length (m_idleSessionPool s) \<le> 100"
  shows "mset (m_idleSessionPool s') = mset (m_idleSessionPool s) \<and> (settled_as r = Blocked \<longrightarrow> m_idleSessionPool s = [])"
  using assms by (metis keeps_pool_def fst_conv snd_conv settled_blocked)

lemma truncate_step:
  assumes "wd_truncate lib h f sz cur s = Some (r, s')" and "length (m_idleSessionPool s) \<le> 100"
  shows "mset (m_idleSessionPool s') = mset (m_idleSessionPool s) \<and> (settled_as r = Blocked \<longrightarrow> m_idleSessionPool s = [])"
proof -
  from assms(1) consider "s' = s" "r \<noteq> Blocked" | off where "with_session lib h (WebDAVPUT lib h f off []) s = (r, s')"
    by (auto simp: wd_truncate_def split: if_split_asm prod.split_asm outcome.split_asm sum.split_asm
        Option.bind_split_asm)
  then show ?thesis
  proof cases
    case 2
    show ?thesis by (rule keeps_step [OF with_session_keeps [OF requests_put_back(2)] 2 assms(2)])
  qed simp
qed

lemma step_pool:
  assumes "wd_step lib h s r s'" and "m_rangeWriteSupport h \<noteq> RANGE_WRITE_NONE" and "length (m_idleSessionPool s) \<le> 100"
  shows "mset (m_idleSessionPool s') = mset (m_idleSessionPool s) \<and> (r = Blocked \<longrightarrow> m_idleSessionPool s = [])"
  using assms(1)
proof cases
  case (losing i)
  then show ?thesis by (simp add: sessionLost_def)
next
  case (opening_file f fl ps r)
  then show ?thesis by (auto simp: wd_open_def)
qed (simp_all only:, (rule keeps_step [OF operations_keep(1) _ assms(3)] keeps_step [OF write_keeps [OF assms(2)] _ assms(3)]
  keeps_step [OF operations_keep(2) _ assms(3)] keeps_step [OF operations_keep(3) _ assms(3)]
  keeps_step [OF operations_keep(4) _ assms(3)] keeps_step [OF operations_keep(5) _ assms(3)]
  truncate_step [OF _ assms(3)] keeps_step [OF operations_keep(6) _ assms(3)] keeps_step [OF operations_keep(7) _ assms(3)]
  keeps_step [OF operations_keep(8) _ assms(3)] keeps_step [OF operations_keep(14) _ assms(3)]
  keeps_step [OF operations_keep(9) _ assms(3)] keeps_step [OF operations_keep(10) _ assms(3)]
  keeps_step [OF operations_keep(11) _ assms(3)] keeps_step [OF operations_keep(12) _ assms(3)]
  keeps_step [OF operations_keep(13) _ assms(3)], assumption)+)

lemma new_pool: "m_idleSessionPool (new_webdav h net) = [0..<min 100 (m_connectionPoolSize h)]"
proof -
  have "fold pool_write [0..<n] [] = [0..<min 100 n]" for n
  proof (induction n)
    case (Suc n)
    consider "min 100 n = n" "min 100 (Suc n) = Suc n" "n < 100" | "min 100 n = 100" "min 100 (Suc n) = 100" by linarith
    then show ?case using Suc by cases (simp_all add: pool_write_def)
  qed simp
  then show ?thesis by (simp add: new_webdav_def)
qed

lemma run_pool:
  assumes "wd_run lib h (new_webdav h net) s" and "m_rangeWriteSupport h \<noteq> RANGE_WRITE_NONE"
  shows "mset (m_idleSessionPool s) = mset [0..<min 100 (m_connectionPoolSize h)]"
  using assms
proof (induction s)
  case here
  then show ?case by (simp add: new_pool)
next
  case (there s1 r s2)
  have "length (m_idleSessionPool s1) \<le> 100"
    using arg_cong [OF there.IH [OF there.prems], of size] by simp
  from step_pool [OF there.hyps(2) there.prems this] show ?case using there.IH [OF there.prems] by simp
qed

text \<open>
  C6. On a server that supports range writes, after any operations and losses of connections the
  queue of idle sessions holds every session of the helper once, up to the 100 that fit, whatever
  failed meanwhile; so no two operations are ever given one session, and with a pool that is not
  empty no operation waits for ever.
\<close>

theorem sessions_conserved:
  assumes "wd_run lib h (new_webdav h net) s" and "m_rangeWriteSupport h \<noteq> RANGE_WRITE_NONE"
  shows "mset (m_idleSessionPool s) = mset [0..<min 100 (m_connectionPoolSize h)] \<and> distinct (m_idleSessionPool s) \<and>
    (0 < m_connectionPoolSize h \<longrightarrow> (\<forall>r s'. wd_step lib h s r s' \<longrightarrow> r \<noteq> Blocked))"
proof -
  note m = run_pool [OF assms]
  have l: "length (m_idleSessionPool s) = min 100 (m_connectionPoolSize h)" using arg_cong [OF m, of size] by simp
  have "distinct (m_idleSessionPool s)" using mset_eq_imp_distinct_iff [OF m] by simp
  moreover have "r \<noteq> Blocked" if "0 < m_connectionPoolSize h" "wd_step lib h s r s'" for r s'
    using step_pool [OF that(2) assms(2)] l that(1) by auto
  ultimately show ?thesis using m by blast
qed

section \<open>Refused writes\<close>

text \<open>
  Without support for range writes a write takes a session out of the pool for good, when a
  connection can be made.
\<close>

lemma refused_write:
  assumes "m_rangeWriteSupport h = RANGE_WRITE_NONE" and "\<And>net. fst (http_connect lib (m_endpoint h) (m_verifyServerCertificate h) net) \<noteq> None"
  shows "m_idleSessionPool (snd (wd_write lib h f off buf s)) = tl (m_idleSessionPool s)"
    and "m_idleSessionPool s \<noteq> [] \<Longrightarrow> fst (wd_write lib h f off buf s) = Answered (Inl (system_error EOPNOTSUPP))"
proof -
  have "http_connect lib (m_endpoint h) (m_verifyServerCertificate h) net \<noteq> (None, net')" for net net'
    using assms(2) [of net] by auto
  then show "m_idleSessionPool (snd (wd_write lib h f off buf s)) = tl (m_idleSessionPool s)"
    and "m_idleSessionPool s \<noteq> [] \<Longrightarrow> fst (wd_write lib h f off buf s) = Answered (Inl (system_error EOPNOTSUPP))"
    using assms(1) by (auto simp: wd_write_def with_session_def wd_connect_def Let_def makePosixException_def makePosixError_def
        split: list.split prod.split option.split)
qed

definition write_all :: "('n, 'd) webdav_lib \<Rightarrow> WebDAVHelper \<Rightarrow> (string \<times> int \<times> bytes) list \<Rightarrow> 'n webdav \<Rightarrow> 'n webdav" where
  "write_all lib h ws s = fold (\<lambda>(f, off, buf) s. snd (wd_write lib h f off buf s)) ws s"

lemma write_all_pool:
  assumes "m_rangeWriteSupport h = RANGE_WRITE_NONE" and "\<And>net. fst (http_connect lib (m_endpoint h) (m_verifyServerCertificate h) net) \<noteq> None"
  shows "m_idleSessionPool (write_all lib h ws s) = drop (length ws) (m_idleSessionPool s)"
  unfolding write_all_def by (induction ws arbitrary: s) (auto simp: refused_write(1) [OF assms] drop_Suc)

text \<open>
  C16. Without support for range writes, after as many writes as the pool has sessions, each of
  which was refused with ENOTSUP, every operation that needs a session waits for ever: reading,
  listing, looking up attributes, creating and removing.
\<close>

theorem refused_writes_starve:
  assumes "m_rangeWriteSupport h = RANGE_WRITE_NONE"
    and "\<And>net. fst (http_connect lib (m_endpoint h) (m_verifyServerCertificate h) net) \<noteq> None"
    and "m_connectionPoolSize h \<le> length ws" and "k < min 100 (m_connectionPoolSize h)"
  shows "fst (wd_write lib h f off buf (write_all lib h (take k ws) (new_webdav h net))) = Answered (Inl (system_error EOPNOTSUPP)) \<and>
    (let s = write_all lib h ws (new_webdav h net)
     in fst (wd_read lib h f off n s) = Blocked \<and> fst (wd_getattr lib h f s) = Blocked \<and> fst (wd_readdir lib h f off cnt s) = Blocked \<and>
        fst (wd_mknod lib h f s) = Blocked \<and> fst (wd_mkdir lib h f s) = Blocked \<and> fst (wd_unlink lib h f s) = Blocked)"
proof -
  have p: "m_idleSessionPool (write_all lib h ws (new_webdav h net)) = []"
    using assms(3) by (simp add: write_all_pool [OF assms(1,2)] new_pool)
  have "length (take k ws) = k" using assms(3,4) by simp
  then have "m_idleSessionPool (write_all lib h (take k ws) (new_webdav h net)) \<noteq> []"
    using assms(4) by (auto simp: write_all_pool [OF assms(1,2)] new_pool min_def split: if_split_asm)
  from refused_write(2) [OF assms(1,2) this] show ?thesis
    using p by (simp add: Let_def wd_read_def wd_getattr_def wd_readdir_def wd_mknod_def wd_mkdir_def wd_unlink_def propfind_def
        with_session_blocked)
qed

section \<open>Lost sessions\<close>

text \<open>A session whose connection was lost without the server announcing it.\<close>

definition lost_session :: "WebDAVSession \<Rightarrow> bool" where
  "lost_session ses \<longleftrightarrow> has_session ses \<and> \<not> closedByRemote ses \<and> \<not> sessionValid ses"

lemma lost_perform:
  assumes "m_idleSessionPool s = [i]" and "lost_session (m_sessionPool s i)"
    and "\<And>s. body i s = perform lib i (req s) eom s"
  shows "with_session lib h body s = (Answered (Inl (system_error EAGAIN)), s)"
  using assms by (simp add: with_session_def wd_connect_def lost_session_def perform_def startTransaction_def releaseSession_def
      pool_write_def makePosixException_def makePosixError_def)

lemma lost_propfind:
  assumes "m_idleSessionPool s = [i]" and "lost_session (m_sessionPool s i)"
  shows "propfind lib h f depth g s = (Answered (Inl (system_error EAGAIN)), s)"
  using assms by (simp add: propfind_def with_session_def wd_connect_def lost_session_def WebDAVPROPFIND_def perform_def
      startTransaction_def releaseSession_def pool_write_def makePosixException_def makePosixError_def)

text \<open>
  C10. When the connection of a session is lost while it is idle, the session is never connected
  again: \<open>connect\<close> hands it out as it is and every request on it fails with EAGAIN and leaves
  everything as it was, so that with one session in the pool every operation fails from then on.
\<close>

theorem lost_session_stays_lost:
  assumes "m_idleSessionPool s0 = [i]" and "has_session (m_sessionPool s0 i)" and "\<not> closedByRemote (m_sessionPool s0 i)"
    and "s = sessionLost i s0"
  shows "wd_access lib h f s = (Answered (Inl (system_error EAGAIN)), s) \<and>
    wd_getattr lib h f s = (Answered (Inl (system_error EAGAIN)), s) \<and>
    wd_readdir lib h f off cnt s = (Answered (Inl (system_error EAGAIN)), s) \<and>
    wd_unlink lib h f s = (Answered (Inl (system_error EAGAIN)), s) \<and>
    wd_mknod lib h f s = (Answered (Inl (system_error EAGAIN)), s) \<and>
    wd_mkdir lib h f s = (Answered (Inl (system_error EAGAIN)), s) \<and>
    wd_rename lib h f g s = (Answered (Inl (system_error EAGAIN)), s) \<and>
    wd_getxattr lib h f nm s = (Answered (Inl (system_error EAGAIN)), s) \<and>
    wd_setxattr lib h f nm val create repl s = (Answered (Inl (system_error EAGAIN)), s) \<and>
    wd_removexattr lib h f nm s = (Answered (Inl (system_error EAGAIN)), s) \<and>
    wd_listxattr lib h f s = (Answered (Inl (system_error EAGAIN)), s) \<and>
    (0 < n \<longrightarrow> wd_read lib h f off n s = (Answered (Inl (system_error EAGAIN)), s)) \<and>
    (buf \<noteq> [] \<and> m_rangeWriteSupport h \<noteq> RANGE_WRITE_NONE \<longrightarrow>
       wd_write lib h f off buf s = (Answered (Inl (system_error EAGAIN)), s))"
proof -
  have p: "m_idleSessionPool s = [i]" and l: "lost_session (m_sessionPool s i)"
    using assms by (simp_all add: sessionLost_def set_session_def lost_session_def)
  note w = lost_perform [OF p l] and q = lost_propfind [OF p l]
  have wr: "wd_write lib h f off buf s = (Answered (Inl (system_error EAGAIN)), s)"
    if "buf \<noteq> []" "m_rangeWriteSupport h \<noteq> RANGE_WRITE_NONE"
    using that p l by (cases "m_rangeWriteSupport h") (simp_all add: wd_write_def with_session_def wd_connect_def lost_session_def
      WebDAVPATCH_def WebDAVPUT_def perform_def startTransaction_def releaseSession_def pool_write_def makePosixException_def makePosixError_def)
  show ?thesis unfolding wd_access_def wd_getattr_def wd_readdir_def wd_getxattr_def wd_listxattr_def wd_unlink_def wd_mknod_def
      wd_mkdir_def wd_rename_def wd_setxattr_def wd_removexattr_def wd_read_def q
    using wr by (intro conjI impI w refl)
      (simp_all add: WebDAVDELETE_def WebDAVPUT_def WebDAVMKCOL_def WebDAVMOVE_def WebDAVPROPPATCH_def WebDAVGET_def)
qed

section \<open>Extending a file\<close>

text \<open>The loop that fills the buffer ends exactly when its bound fits in the 32 bits of its counter.\<close>

lemma fillLoop_ends:
  assumes "unat bound < 2 ^ 32"
  shows "fillLoop i bound = Some ()"
proof (induction "unat bound - unat i" arbitrary: i rule: less_induct)
  case less
  show ?case
  proof (cases "unat i < unat bound")
    case True
    then have "unat i + 1 < 2 ^ 32" using assms by simp
    then have "unat (i + 1) = unat i + 1" by (simp add: unat_add_small)
    then have "fillLoop (i + 1) bound = Some ()" using less [of "i + 1"] True by simp
    then show ?thesis by (subst fillLoop.simps) simp
  qed (subst fillLoop.simps, simp)
qed

lemma fillLoop_runs_on:
  assumes "2 ^ 32 \<le> unat bound"
  shows "fillLoop i bound = None"
proof -
  have "\<not> 2 ^ 32 \<le> unat bound" if "fillLoop i bound = Some y" for y
  proof (rule fillLoop.raw_induct [OF _ that])
    fix rec :: "u32 \<Rightarrow> u64 \<Rightarrow> unit option" and i bound y
    assume IH: "\<And>i bound y. rec i bound = Some y \<Longrightarrow> \<not> 2 ^ 32 \<le> unat bound"
      and r: "(if unat i < unat bound then rec (i + 1) bound else Some ()) = Some y"
    show "\<not> 2 ^ 32 \<le> unat bound"
    proof (cases "unat i < unat bound")
      case True
      then show ?thesis using r IH [of "i + 1" bound y] by simp
    next
      case False
      then show ?thesis using unsigned_less [of i, where 'a = nat] by simp
    qed
  qed
  then show ?thesis using assms by (cases "fillLoop i bound") auto
qed

section \<open>A file on a server\<close>

abbreviation file_url :: "('n, 'd) webdav_lib \<Rightarrow> WebDAVHelper \<Rightarrow> string \<Rightarrow> string" where
  "file_url lib h fileId \<equiv> ensureHttpPath (trimWhitespace lib) (uri_path (m_endpoint h) @ ''/'' @ fileId)"

text \<open>The value of a header, when every header of that name has it.\<close>

definition has_header :: "http_request \<Rightarrow> string \<Rightarrow> string \<Rightarrow> bool" where
  "has_header req nm v \<longleftrightarrow> (nm, v) \<in> set (req_headers req) \<and> (\<forall>v'. (nm, v') \<in> set (req_headers req) \<longrightarrow> v' = v)"

lemma has_header_map_of: "has_header req nm v \<Longrightarrow> map_of (req_headers req) nm = Some v"
  by (metis has_header_def map_of_SomeD not_Some_eq weak_map_of_SomeI)

lemma no_header_map_of: "nm \<notin> fst ` set (req_headers req) \<Longrightarrow> map_of (req_headers req) nm = None"
  by (simp add: map_of_eq_None_iff)

text \<open>
  A server that can be reached and keeps connections open: GET with a range (RFC 7233), PUT of a whole
  resource (RFC 7231), PUT with a content range as \<^verbatim>\<open>mod_dav\<close> takes it, and PATCH with an update range
  as SabreDAV documents it.
\<close>

locale dav_file =
  fixes lib :: "('n, 'd) webdav_lib"
    and h :: WebDAVHelper
    and fileId :: string
    and file_of :: "'n \<Rightarrow> bytes"
  assumes connects: "\<exists>peer net'. http_connect lib (m_endpoint h) (m_verifyServerCertificate h) net = (Some peer, net') \<and>
      file_of net' = file_of net"
    and stays_open: "\<not> isClosing lib i net"
    and transaction: "\<exists>net'. newTransaction lib i net = (True, net') \<and> file_of net' = file_of net"
    and auth_header: "p \<in> set (authorization lib h) \<Longrightarrow> fst p = ''Authorization''"
    and get_range: "req_method req = ''GET'' \<Longrightarrow> req_url req = file_url lib h fileId \<Longrightarrow>
      has_header req ''Range'' (rangeToString (int a) (int b)) \<Longrightarrow> a \<le> b \<Longrightarrow>
      \<exists>msg net'. http_exchange lib i req net = (Inr msg, net') \<and> file_of net' = file_of net \<and>
        (if a < length (file_of net)
         then resp_status msg = 206 \<and> resp_body msg = take (b - a + 1) (drop a (file_of net)) else resp_status msg = 416)"
    and patch_range: "req_method req = ''PATCH'' \<Longrightarrow> req_url req = file_url lib h fileId \<Longrightarrow>
      has_header req ''X-Update-Range'' (rangeToString (int a) (int b)) \<Longrightarrow> a \<le> b \<Longrightarrow> length (req_body req) = b - a + 1 \<Longrightarrow>
      \<exists>msg net'. http_exchange lib i req net = (Inr msg, net') \<and> resp_status msg = 204 \<and>
        file_of net' = write_at (file_of net) (int a, req_body req)"
    and put_range: "req_method req = ''PUT'' \<Longrightarrow> req_url req = file_url lib h fileId \<Longrightarrow>
      has_header req ''Content-Range'' (''bytes '' @ to_dec a @ ''-'' @ to_dec b @ ''/*'') \<Longrightarrow> a \<le> b \<Longrightarrow>
      length (req_body req) = b - a + 1 \<Longrightarrow>
      \<exists>msg net'. http_exchange lib i req net = (Inr msg, net') \<and> resp_status msg = 204 \<and>
        file_of net' = write_at (file_of net) (int a, req_body req)"
    and put_whole: "req_method req = ''PUT'' \<Longrightarrow> req_url req = file_url lib h fileId \<Longrightarrow>
      ''Content-Range'' \<notin> fst ` set (req_headers req) \<Longrightarrow>
      \<exists>msg net'. http_exchange lib i req net = (Inr msg, net') \<and> resp_status msg = 201 \<and> file_of net' = req_body req"

text \<open>Sessions are usable when those that are connected, and not announced to be closed, are valid.\<close>

definition sessions_valid :: "'n webdav \<Rightarrow> bool" where
  "sessions_valid s \<longleftrightarrow> (\<forall>i. has_session (m_sessionPool s i) \<and> \<not> closedByRemote (m_sessionPool s i) \<longrightarrow> sessionValid (m_sessionPool s i))"

definition usable_helper :: "'n webdav \<Rightarrow> bool" where
  "usable_helper s \<longleftrightarrow> m_idleSessionPool s \<noteq> [] \<and> sessions_valid s"

definition open_session :: "nat \<Rightarrow> 'n webdav \<Rightarrow> bool" where
  "open_session i s \<longleftrightarrow> has_session (m_sessionPool s i) \<and> sessionValid (m_sessionPool s i) \<and> \<not> closedByRemote (m_sessionPool s i)"

lemma released_usable:
  assumes "sessions_valid s"
  shows "usable_helper (releaseSession i (onHeadersComplete i msg s))" and "usable_helper (releaseSession i s)"
proof -
  have p: "pool_write i xs \<noteq> []" for xs by (auto simp: pool_write_def)
  show "usable_helper (releaseSession i (onHeadersComplete i msg s))" and "usable_helper (releaseSession i s)"
    using assms p by (auto simp: usable_helper_def releaseSession_def onHeadersComplete_def set_session_def sessions_valid_def)
qed

lemma range_last_dec:
  assumes "0 \<le> off" and "0 < n" and "off + int n \<le> 2 ^ 63"
  shows "range_last off n = to_dec (nat off + n - 1)"
proof -
  have "int (nat off + n) \<le> 2 ^ 63" using assms(1,3) by simp
  then have b: "nat off + n \<le> 2 ^ 63" by (metis of_nat_le_iff of_nat_numeral of_nat_power)
  have "(of_int off + of_nat n - 1 :: u64) = of_nat (nat off + n - 1)"
    using assms(1,2) by (simp add: of_nat_diff of_nat_nat)
  moreover have "nat off + n - 1 < 2 ^ 64" using b by simp
  ultimately show ?thesis unfolding range_last_def by (simp only: unat_of_nat_u64)
qed

lemma to_dec_01: "to_dec 0 = ''0''" "to_dec (Suc 0) = ''1''"
  by (subst to_dec.simps, simp add: digit_chars)+

lemma off_to_string_nat: "0 \<le> off \<Longrightarrow> off_to_string off = to_dec (nat off)"
  by (simp add: off_to_string_def)

lemma rangeToString_nat: "rangeToString (int a) (int b) = ''bytes='' @ to_dec a @ ''-'' @ to_dec b"
  by (simp add: rangeToString_def off_to_string_def)

context dav_file
begin

lemma session_body:
  assumes "usable_helper s"
    and "\<And>i s1. open_session i s1 \<Longrightarrow> sessions_valid s1 \<Longrightarrow> file_of (network s1) = file_of (network s) \<Longrightarrow>
      \<exists>s2. body i s1 = (r, s2) \<and> usable_helper s2 \<and> file_of (network s2) = c"
  shows "\<exists>s'. with_session lib h body s = (Answered r, s') \<and> usable_helper s' \<and> file_of (network s') = c"
proof -
  obtain i pool where p: "m_idleSessionPool s = i # pool" using assms(1) by (cases "m_idleSessionPool s") (auto simp: usable_helper_def)
  obtain peer net' where c: "http_connect lib (m_endpoint h) (m_verifyServerCertificate h) (network s) = (Some peer, net')"
    "file_of net' = file_of (network s)" using connects by blast
  obtain s1 where s1: "wd_connect lib h s = (Answered (Inr i), s1)" "open_session i s1" "sessions_valid s1"
    "file_of (network s1) = file_of (network s)"
  proof (cases "\<not> closedByRemote (m_sessionPool s i) \<and> has_session (m_sessionPool s i)")
    case True
    then show ?thesis using assms(1) p
      by (intro that [of "s\<lparr>m_idleSessionPool := pool\<rparr>"])
        (auto simp: wd_connect_def open_session_def usable_helper_def sessions_valid_def)
  next
    case False
    then show ?thesis using assms(1) p c
      by (intro that [of "set_session i (connectSuccess peer (reset_session (m_sessionPool s i))) (s\<lparr>m_idleSessionPool := pool, network := net'\<rparr>)"])
        (auto simp: wd_connect_def open_session_def usable_helper_def sessions_valid_def set_session_def connectSuccess_def
          reset_session_def Let_def)
  qed
  from assms(2) [OF s1(2-4)] show ?thesis using s1(1) by (auto simp: with_session_def)
qed

lemma perform_file:
  assumes "open_session i s1" and "sessions_valid s1"
    and "\<And>net. file_of net = file_of (network s1) \<Longrightarrow> \<exists>msg net'. http_exchange lib i req net = (Inr msg, net') \<and> eom msg = r \<and> file_of net' = c"
  shows "\<exists>s2. perform lib i req eom s1 = (r, s2) \<and> usable_helper s2 \<and> file_of (network s2) = c"
proof -
  obtain net where t: "newTransaction lib i (network s1) = (True, net)" "file_of net = file_of (network s1)"
    using transaction by blast
  obtain msg net' where e: "http_exchange lib i req net = (Inr msg, net')" "eom msg = r" "file_of net' = c"
    using assms(3) [OF t(2)] by blast
  have "sessions_valid (s1\<lparr>network := net'\<rparr>)" using assms(2) by (simp add: sessions_valid_def)
  moreover have "network (releaseSession i (onHeadersComplete i msg (s1\<lparr>network := net'\<rparr>))) = net'"
    by (simp add: releaseSession_def onHeadersComplete_def set_session_def)
  ultimately show ?thesis using assms(1) t(1) e released_usable(1) [of "s1\<lparr>network := net'\<rparr>" i msg] stays_open
    by (simp add: perform_def startTransaction_def open_session_def)
qed

lemma header_of:
  assumes "nm \<notin> {''User-Agent'', ''Accept'', ''Connection'', ''Host'', ''Authorization''}"
  shows "(nm, v) \<in> set (req_headers (WebDAVRequest lib h host meth resource hdrs body)) \<longleftrightarrow> (nm, v) \<in> set hdrs"
  using assms auth_header by (fastforce simp: WebDAVRequest_def)

lemma request_parts [simp]:
  "req_method (WebDAVRequest lib h host meth resource hdrs body) = meth"
  "req_url (WebDAVRequest lib h host meth resource hdrs body) = file_url lib h resource"
  "req_body (WebDAVRequest lib h host meth resource hdrs body) = body"
  by (simp_all add: WebDAVRequest_def)

lemma get_answer:
  assumes "0 \<le> off" and "0 < n" and "off + int n \<le> 2 ^ 63" and "nat off < length (file_of net)"
  shows "\<exists>msg net'. http_exchange lib i (GET_request lib h host fileId off n) net = (Inr msg, net') \<and>
    GET_onEOM (off = 0 \<and> n = 1) msg = Inr (take n (drop (nat off) (file_of net))) \<and> file_of net' = file_of net"
proof -
  define b where "b = (if off = 0 \<and> n = 1 then 1 else nat off + n - 1)"
  have "has_header (GET_request lib h host fileId off n) ''Range'' (rangeToString (int (nat off)) (int b))"
    unfolding rangeToString_nat using assms
    by (auto simp: has_header_def GET_request_def header_of b_def off_to_string_nat range_last_dec to_dec_01)
  moreover have "nat off \<le> b" using assms(1,2) by (auto simp: b_def)
  ultimately obtain msg net' where
    m: "http_exchange lib i (GET_request lib h host fileId off n) net = (Inr msg, net')" "file_of net' = file_of net"
    "resp_status msg = 206" "resp_body msg = take (b - nat off + 1) (drop (nat off) (file_of net))"
    using get_range [of "GET_request lib h host fileId off n" "nat off" b i net] assms(4) by (auto simp: GET_request_def)
  have "GET_onEOM (off = 0 \<and> n = 1) msg = Inr (take n (drop (nat off) (file_of net)))"
  proof (cases "off = 0 \<and> n = 1")
    case True
    then obtain x xs where "file_of net = x # xs" using assms(4) by (cases "file_of net") auto
    then show ?thesis using True m by (simp add: GET_onEOM_def httpStatusToPosixError_def b_def)
  next
    case False
    then have "b - nat off + 1 = n" using assms(2) by (auto simp: b_def)
    then show ?thesis using False m by (simp add: GET_onEOM_def httpStatusToPosixError_def)
  qed
  then show ?thesis using m by blast
qed

lemma wd_read_file:
  assumes "usable_helper s" and "0 \<le> off" and "0 < n" and "off + int n \<le> 2 ^ 63" and "nat off < length (file_of (network s))"
  shows "\<exists>s'. wd_read lib h fileId off n s = (Answered (Inr (take n (drop (nat off) (file_of (network s))))), s') \<and>
    usable_helper s' \<and> file_of (network s') = file_of (network s)"
  unfolding wd_read_def
proof (rule session_body [OF assms(1)])
  fix i s1 assume o: "open_session i s1" "sessions_valid s1" and f: "file_of (network s1) = file_of (network s)"
  have "\<exists>s2. perform lib i (GET_request lib h (host_of i s1) fileId off n) (GET_onEOM (off = 0 \<and> n = 1)) s1 =
      (Inr (take n (drop (nat off) (file_of (network s)))), s2) \<and> usable_helper s2 \<and> file_of (network s2) = file_of (network s)"
  proof (rule perform_file [OF o])
    fix net assume "file_of net = file_of (network s1)"
    then show "\<exists>msg net'. http_exchange lib i (GET_request lib h (host_of i s1) fileId off n) net = (Inr msg, net') \<and>
        GET_onEOM (off = 0 \<and> n = 1) msg = Inr (take n (drop (nat off) (file_of (network s)))) \<and> file_of net' = file_of (network s)"
      using get_answer [OF assms(2-4), of net i "host_of i s1"] f assms(5) by simp
  qed
  then show "\<exists>s2. WebDAVGET lib h fileId off n i s1 = (Inr (take n (drop (nat off) (file_of (network s)))), s2) \<and>
      usable_helper s2 \<and> file_of (network s2) = file_of (network s)" using assms(3) by (simp add: WebDAVGET_def)
qed

lemma update_answer:
  assumes "0 \<le> off" and "buf \<noteq> []" and "off + int (length buf) \<le> 2 ^ 63"
  shows "\<exists>msg net'. http_exchange lib i (PATCH_request lib h host fileId off buf) net = (Inr msg, net') \<and>
      onEOM_unit msg = Inr () \<and> file_of net' = write_at (file_of net) (off, buf)"
    and "\<exists>msg net'. http_exchange lib i (PUT_request lib h host fileId off buf) net = (Inr msg, net') \<and>
      onEOM_unit msg = Inr () \<and> file_of net' = write_at (file_of net) (off, buf)"
proof -
  let ?b = "nat off + length buf - 1"
  have l: "length buf = ?b - nat off + 1" "nat off \<le> ?b" using assms(2) by (cases buf; simp)+
  have ok: "onEOM_unit msg = Inr ()" if "resp_status msg = 204" for msg using that by (simp add: onEOM_unit_def httpStatusToPosixError_def)
  note r = off_to_string_nat [OF assms(1)] range_last_dec [OF assms(1) _ assms(3)]
  have "has_header (PATCH_request lib h host fileId off buf) ''X-Update-Range'' (rangeToString (int (nat off)) (int ?b))"
    unfolding rangeToString_nat using assms(2) by (simp add: has_header_def PATCH_request_def header_of r)
  from patch_range [OF _ _ this, of i net] show "\<exists>msg net'. http_exchange lib i (PATCH_request lib h host fileId off buf) net = (Inr msg, net') \<and>
      onEOM_unit msg = Inr () \<and> file_of net' = write_at (file_of net) (off, buf)"
    using ok l assms(1) by (auto simp: PATCH_request_def)
  have "has_header (PUT_request lib h host fileId off buf) ''Content-Range'' (''bytes '' @ to_dec (nat off) @ ''-'' @ to_dec ?b @ ''/*'')"
    using assms(2) by (simp add: has_header_def PUT_request_def header_of r)
  from put_range [OF _ _ this, of i net] show "\<exists>msg net'. http_exchange lib i (PUT_request lib h host fileId off buf) net = (Inr msg, net') \<and>
      onEOM_unit msg = Inr () \<and> file_of net' = write_at (file_of net) (off, buf)"
    using ok l assms(1) by (auto simp: PUT_request_def)
qed

lemma put_empty_answer:
  "\<exists>msg net'. http_exchange lib i (PUT_request lib h host fileId off []) net = (Inr msg, net') \<and>
     onEOM_unit msg = Inr () \<and> file_of net' = []"
proof -
  have "''Content-Range'' \<notin> fst ` set (req_headers (PUT_request lib h host fileId off []))"
    using header_of [of "''Content-Range''"] by (auto simp: PUT_request_def)
  from put_whole [OF _ _ this, of i net] obtain msg net' where "http_exchange lib i (PUT_request lib h host fileId off []) net = (Inr msg, net')"
    "resp_status msg = 201" "file_of net' = []" by (auto simp: PUT_request_def)
  then show ?thesis by (auto simp: onEOM_unit_def httpStatusToPosixError_def)
qed

lemma put_empty_erases:
  assumes "usable_helper s"
  shows "\<exists>s'. with_session lib h (WebDAVPUT lib h fileId off []) s = (Answered (Inr ()), s') \<and> usable_helper s' \<and> file_of (network s') = []"
  unfolding WebDAVPUT_def
  by (rule session_body [OF assms]) (intro perform_file put_empty_answer)

lemma wd_write_file:
  assumes "usable_helper s" and "m_rangeWriteSupport h \<noteq> RANGE_WRITE_NONE" and "0 \<le> off" and "buf \<noteq> []"
    and "off + int (length buf) \<le> 2 ^ 63"
  shows "\<exists>s'. wd_write lib h fileId off buf s = (Answered (Inr (length buf)), s') \<and> usable_helper s' \<and>
    file_of (network s') = write_at (file_of (network s)) (off, buf)"
  unfolding wd_write_def
proof (rule session_body [OF assms(1)])
  fix i s1 assume o: "open_session i s1" "sessions_valid s1" and f: "file_of (network s1) = file_of (network s)"
  have "\<exists>s2. WebDAVPATCH lib h fileId off buf i s1 = (Inr (), s2) \<and> usable_helper s2 \<and>
      file_of (network s2) = write_at (file_of (network s)) (off, buf)"
  proof -
    have "\<exists>s2. perform lib i (PATCH_request lib h (host_of i s1) fileId off buf) onEOM_unit s1 = (Inr (), s2) \<and> usable_helper s2 \<and>
        file_of (network s2) = write_at (file_of (network s)) (off, buf)"
      by (rule perform_file [OF o]) (use update_answer(1) [OF assms(3-5)] f in metis)
    then show ?thesis using assms(4) by (simp add: WebDAVPATCH_def)
  qed
  moreover have "\<exists>s2. WebDAVPUT lib h fileId off buf i s1 = (Inr (), s2) \<and> usable_helper s2 \<and>
      file_of (network s2) = write_at (file_of (network s)) (off, buf)"
    unfolding WebDAVPUT_def by (rule perform_file [OF o]) (use update_answer(2) [OF assms(3-5)] f in metis)
  ultimately show "\<exists>s2. (case m_rangeWriteSupport h of
       SABREDAV_PARTIALUPDATE \<Rightarrow> let (r, s1) = WebDAVPATCH lib h fileId off buf i s1 in (map_sum id (\<lambda>_. length buf) r, s1)
     | MODDAV_PUTRANGE \<Rightarrow> let (r, s1) = WebDAVPUT lib h fileId off buf i s1 in (map_sum id (\<lambda>_. length buf) r, s1)
     | RANGE_WRITE_NONE \<Rightarrow> (Inl (makePosixException EOPNOTSUPP), s1)) = (Inr (length buf), s2) \<and> usable_helper s2 \<and>
      file_of (network s2) = write_at (file_of (network s)) (off, buf)"
    using assms(2) by (cases "m_rangeWriteSupport h") auto
qed

end

text \<open>A server with one file in memory.\<close>

definition serve_dav :: "http_request \<Rightarrow> bytes \<Rightarrow> http_response \<times> bytes" where
  "serve_dav req f =
     (let answer = (\<lambda>st body. \<lparr>resp_status = st, resp_connection = None, resp_body = body\<rparr>)
      in if req_method req = ''GET''
         then (case map_of (req_headers req) ''Range'' of
                 None \<Rightarrow> (answer 200 f, f)
               | Some v \<Rightarrow> (case parseRange v of (a, b) \<Rightarrow>
                   if a < length f then (answer 206 (take (b - a + 1) (drop a f)), f) else (answer 416 [], f)))
         else if req_method req = ''PATCH''
         then (case map_of (req_headers req) ''X-Update-Range'' of
                 None \<Rightarrow> (answer 400 [], f)
               | Some v \<Rightarrow> (answer 204 [], write_at f (int (fst (parseRange v)), req_body req)))
         else if req_method req = ''PUT''
         then (case map_of (req_headers req) ''Content-Range'' of
                 None \<Rightarrow> (answer 201 [], req_body req)
               | Some v \<Rightarrow> (answer 204 [], write_at f (int (fst (parseRange v)), req_body req)))
         else (answer 405 [], f))"

definition memory_dav :: "(bytes, unit) webdav_lib" where
  "memory_dav =
     \<lparr>http_connect = (\<lambda>_ _ f. (Some ''127.0.0.1'', f)), isClosing = (\<lambda>_ _. False), newTransaction = (\<lambda>_ f. (True, f)),
      http_exchange = (\<lambda>_ req f. let (msg, f') = serve_dav req f in (Inr msg, f')),
      trimWhitespace = id, base64 = id, sformat = (\<lambda>_ a. a),
      uri_parse = (\<lambda>s. Some \<lparr>uri_scheme = ''http'', uri_host = s, uri_port = 80, uri_path = []\<rparr>), uri_encode = id,
      parse_rfc1123 = (\<lambda>_. Inr 0), writeNode = (\<lambda>_. []), parseMemory = (\<lambda>_. None), getNodeByPathNS = (\<lambda>_ _. None),
      getElementsByTagNameNS = (\<lambda>_ _ _. []), childNodes = (\<lambda>_. []), innerText = (\<lambda>_. []), isTextNode = (\<lambda>_. False),
      namespaceURI = (\<lambda>_. []), localName = (\<lambda>_. [])\<rparr>"

definition memory_dav_helper :: "WebDAVRangeWriteSupport \<Rightarrow> WebDAVHelper" where
  "memory_dav_helper support =
     \<lparr>m_endpoint = \<lparr>uri_scheme = ''http'', uri_host = ''localhost'', uri_port = 80, uri_path = ''/dav''\<rparr>,
      m_verifyServerCertificate = True, m_credentialsType = CREDENTIALS_BASIC, m_credentials = ''user:password'',
      m_authorizationHeader = [], m_rangeWriteSupport = support, m_connectionPoolSize = 1, m_maximumUploadSize = 0\<rparr>"

lemma parse_content_range: "fst (parseRange (''bytes '' @ to_dec a @ ''-'' @ to_dec b @ ''/*'')) = a"
proof -
  have "takeWhile (\<lambda>c. c \<noteq> CHR ''-'') (to_dec a @ CHR ''-'' # to_dec b @ ''/*'') = to_dec a"
    using to_dec_digits digit_not_sign by (subst takeWhile_append2) auto
  then show ?thesis by (simp add: parseRange_def)
qed

interpretation memory_server: dav_file memory_dav "memory_dav_helper support" fileId "\<lambda>f. f"
proof unfold_locales
  fix req a b i net
  show "\<exists>msg net'. http_exchange memory_dav i req net = (Inr msg, net') \<and> net' = net \<and>
      (if a < length net then resp_status msg = 206 \<and> resp_body msg = take (b - a + 1) (drop a net) else resp_status msg = 416)"
    if "req_method req = ''GET''" "has_header req ''Range'' (rangeToString (int a) (int b))"
    using that has_header_map_of [OF that(2)] by (simp add: memory_dav_def serve_dav_def parseRange_rangeToString)
  show "\<exists>msg net'. http_exchange memory_dav i req net = (Inr msg, net') \<and> resp_status msg = 204 \<and>
      net' = write_at net (int a, req_body req)"
    if "req_method req = ''PATCH''" "has_header req ''X-Update-Range'' (rangeToString (int a) (int b))"
    using that has_header_map_of [OF that(2)] by (simp add: memory_dav_def serve_dav_def parseRange_rangeToString)
  show "\<exists>msg net'. http_exchange memory_dav i req net = (Inr msg, net') \<and> resp_status msg = 204 \<and>
      net' = write_at net (int a, req_body req)"
    if "req_method req = ''PUT''" "has_header req ''Content-Range'' (''bytes '' @ to_dec a @ ''-'' @ to_dec b @ ''/*'')"
    using that(1) has_header_map_of [OF that(2)] parse_content_range [of a b] by (simp add: memory_dav_def serve_dav_def)
  show "\<exists>msg net'. http_exchange memory_dav i req net = (Inr msg, net') \<and> resp_status msg = 201 \<and> net' = req_body req"
    if "req_method req = ''PUT''" "''Content-Range'' \<notin> fst ` set (req_headers req)"
    using that(1) no_header_map_of [OF that(2)] by (simp add: memory_dav_def serve_dav_def)
qed (auto simp: memory_dav_def memory_dav_helper_def authorization_def)

lemma new_webdav_usable: "0 < m_connectionPoolSize h \<Longrightarrow> usable_helper (new_webdav h net)"
  by (simp add: usable_helper_def new_pool sessions_valid_def) (simp add: new_webdav_def new_session_def)

text \<open>
  C17. On a server that supports range writes, SabreDAV or \<^verbatim>\<open>mod_dav\<close>, a write that is not empty
  reports its size, writes its bytes at its offset and nothing else, and later reads within the file return the
  bytes there, the first byte alone included, for which two are requested.
\<close>

theorem dav_read_after_write:
  assumes "dav_file lib h fileId file_of" and "usable_helper s" and "m_rangeWriteSupport h \<noteq> RANGE_WRITE_NONE"
    and "0 \<le> off" and "buf \<noteq> []" and "off + int (length buf) \<le> 2 ^ 63"
  shows "\<exists>s'. wd_write lib h fileId off buf s = (Answered (Inr (length buf)), s') \<and>
    file_of (network s') = write_at (file_of (network s)) (off, buf) \<and> usable_helper s' \<and>
    (\<forall>off' n. 0 \<le> off' \<and> 0 < n \<and> off' + int n \<le> 2 ^ 63 \<and> nat off' < length (file_of (network s')) \<longrightarrow>
       fst (wd_read lib h fileId off' n s') = Answered (Inr (take n (drop (nat off') (file_of (network s'))))))"
proof -
  obtain s' where w: "wd_write lib h fileId off buf s = (Answered (Inr (length buf)), s')" "usable_helper s'"
    "file_of (network s') = write_at (file_of (network s)) (off, buf)"
    using dav_file.wd_write_file [OF assms] by blast
  moreover have "fst (wd_read lib h fileId off' n s') = Answered (Inr (take n (drop (nat off') (file_of (network s')))))"
    if "0 \<le> off' \<and> 0 < n \<and> off' + int n \<le> 2 ^ 63 \<and> nat off' < length (file_of (network s'))" for off' n
    using dav_file.wd_read_file [OF assms(1) w(2), of off' n] that by auto
  ultimately show ?thesis by blast
qed

theorem dav_read_after_write_witness:
  "\<exists>s'. wd_write memory_dav (memory_dav_helper MODDAV_PUTRANGE) ''f'' 2 [7, 8] (new_webdav (memory_dav_helper MODDAV_PUTRANGE) []) =
    (Answered (Inr 2), s') \<and> network s' = [0, 0, 7, 8]"
proof -
  let ?h = "memory_dav_helper MODDAV_PUTRANGE"
  have "usable_helper (new_webdav ?h [])" by (rule new_webdav_usable) (simp add: memory_dav_helper_def)
  moreover have "m_rangeWriteSupport ?h \<noteq> RANGE_WRITE_NONE" by (simp add: memory_dav_helper_def)
  ultimately have "\<exists>s'. wd_write memory_dav ?h ''f'' 2 [7, 8] (new_webdav ?h []) = (Answered (Inr (length [7 :: byte, 8])), s') \<and>
      network s' = write_at (network (new_webdav ?h [])) (2, [7, 8])"
    using dav_read_after_write [OF memory_server.dav_file_axioms, of "new_webdav ?h []" MODDAV_PUTRANGE 2 "[7, 8]" "''f''"] by auto
  then show ?thesis by (simp add: new_webdav_def write_at_def eval_nat_numeral)
qed

text \<open>
  C35. A write of no bytes through \<^verbatim>\<open>mod_dav\<close>, and a truncation that extends a file, end well and leave
  the file empty: both send a PUT without a range and without a body. An extension by \<open>2\<^sup>3\<^sup>2\<close> bytes or more never ends.
\<close>

theorem empty_put_erases:
  assumes "dav_file lib h fileId file_of" and "usable_helper s"
  shows "(m_rangeWriteSupport h = MODDAV_PUTRANGE \<longrightarrow>
      (\<exists>s'. wd_write lib h fileId off [] s = (Answered (Inr 0), s') \<and> file_of (network s') = [])) \<and>
    (currentSize < sz \<and> unat (sz - currentSize) < 2 ^ 32 \<longrightarrow>
      (\<exists>s'. wd_truncate lib h fileId sz currentSize s = Some (Answered (Inr ()), s') \<and> file_of (network s') = [])) \<and>
    (currentSize < sz \<and> 2 ^ 32 \<le> unat (sz - currentSize) \<longrightarrow> wd_truncate lib h fileId sz currentSize s = None)"
proof -
  note erase = dav_file.put_empty_erases [OF assms]
  obtain s1 where "with_session lib h (WebDAVPUT lib h fileId off []) s = (Answered (Inr ()), s1)" "file_of (network s1) = []"
    using erase by blast
  then have w: "\<exists>s'. wd_write lib h fileId off [] s = (Answered (Inr 0), s') \<and> file_of (network s') = []" if "m_rangeWriteSupport h = MODDAV_PUTRANGE"
    using that by (auto simp: wd_write_def with_session_def split: prod.split_asm outcome.split_asm sum.split_asm)
  obtain s2 where t: "with_session lib h (WebDAVPUT lib h fileId (uint sz) []) s = (Answered (Inr ()), s2)" "file_of (network s2) = []"
    using erase by blast
  then obtain i s3 where c: "wd_connect lib h s = (Answered (Inr i), s3)"
    by (auto simp: with_session_def split: prod.split_asm outcome.split_asm sum.split_asm)
  have sz: "sz \<noteq> 0" "\<not> sz < currentSize" "sz \<noteq> currentSize" if "currentSize < sz" using that by auto
  have "\<exists>s'. wd_truncate lib h fileId sz currentSize s = Some (Answered (Inr ()), s') \<and> file_of (network s') = []"
    if "currentSize < sz" "unat (sz - currentSize) < 2 ^ 32"
    using t c sz [OF that(1)] fillLoop_ends [OF that(2), of 0] by (simp add: wd_truncate_def)
  moreover have "wd_truncate lib h fileId sz currentSize s = None" if "currentSize < sz" "2 ^ 32 \<le> unat (sz - currentSize)"
    using c sz [OF that(1)] fillLoop_runs_on [OF that(2), of 0] by (simp add: wd_truncate_def)
  ultimately show ?thesis using w by blast
qed

theorem empty_put_erases_witness:
  "\<exists>s'. wd_truncate memory_dav (memory_dav_helper SABREDAV_PARTIALUPDATE) ''f'' 5 2 (new_webdav (memory_dav_helper SABREDAV_PARTIALUPDATE) [1, 2]) =
    Some (Answered (Inr ()), s') \<and> network s' = []"
proof -
  let ?h = "memory_dav_helper SABREDAV_PARTIALUPDATE"
  have "usable_helper (new_webdav ?h [1, 2])" by (rule new_webdav_usable) (simp add: memory_dav_helper_def)
  from empty_put_erases [OF memory_server.dav_file_axioms this, where off = 0 and currentSize = 2 and sz = 5 and fileId = "''f''"] show ?thesis by simp
qed

theorem sessions_conserved_witness:
  "mset (m_idleSessionPool (snd (wd_mkdir memory_dav (memory_dav_helper MODDAV_PUTRANGE) ''d''
     (new_webdav (memory_dav_helper MODDAV_PUTRANGE) [])))) = {#0#}"
proof -
  let ?h = "memory_dav_helper MODDAV_PUTRANGE"
  have "wd_run memory_dav ?h (new_webdav ?h []) (snd (wd_mkdir memory_dav ?h ''d'' (new_webdav ?h [])))"
    by (rule wd_run.there [OF wd_run.here wd_step.making_dir]) (rule prod.collapse [symmetric])
  from sessions_conserved [OF this] show ?thesis by (simp add: memory_dav_helper_def)
qed

theorem refused_writes_starve_witness:
  "let s = write_all memory_dav (memory_dav_helper RANGE_WRITE_NONE) [(''f'', 0, [1])] (new_webdav (memory_dav_helper RANGE_WRITE_NONE) [])
   in fst (wd_read memory_dav (memory_dav_helper RANGE_WRITE_NONE) ''f'' 0 1 s) = Blocked"
  using refused_writes_starve [of "memory_dav_helper RANGE_WRITE_NONE" memory_dav "[(''f'', 0, [1])]" 0 "''f''" 0 "[]" "[]" 1 0]
  by (simp add: memory_dav_helper_def memory_dav_def Let_def)

theorem lost_session_stays_lost_witness:
  "let s = sessionLost 0 \<lparr>m_idleSessionPool = [0], m_sessionPool = (\<lambda>_. connectSuccess ''127.0.0.1'' new_session), network = [5]\<rparr>
   in wd_read memory_dav (memory_dav_helper MODDAV_PUTRANGE) ''f'' 0 1 s = (Answered (Inl (system_error EAGAIN)), s)"
  using lost_session_stays_lost [where i = 0 and
      ?s0.0 = "\<lparr>m_idleSessionPool = [0], m_sessionPool = (\<lambda>_. connectSuccess ''127.0.0.1'' new_session), network = [5]\<rparr>" and
      lib = memory_dav and h = "memory_dav_helper MODDAV_PUTRANGE" and f = "''f''" and off = 0 and n = 1, OF _ _ _ refl]
  by (simp add: connectSuccess_def new_session_def Let_def)

section \<open>Answers of the server\<close>

lemma split_at_last: "last (split_at c acc (xs @ c # ys)) = last (split_at c [] ys)"
proof -
  have "split_at c acc zs \<noteq> []" for acc zs by (induction zs arbitrary: acc) auto
  then show ?thesis by (induction xs arbitrary: acc) auto
qed

text \<open>
  A reference to a file gives its name; one to a collection, which ends with a slash, gives the
  empty name.
\<close>

lemma entry_name:
  assumes "getElementsByTagNameNS lib doc kNSDAV ''response'' = [response]" and "childNodes lib response \<noteq> []"
    and "getNodeByPathNS lib response ''d:href'' = Some href" and "innerText lib href = path @ ''/'' @ nm"
    and "innerText lib href \<noteq> ensureCollectionPath (trimWhitespace lib) fileId" and "CHR ''/'' \<notin> set nm"
  shows "dir_entries lib fileId doc = [nm]"
  using assms split_at_last [of "CHR ''/''" "[]" path nm] split_at_plain [OF assms(6), of "[]"]
  by (simp add: dir_entries_def Let_def)

text \<open>The size of a file of 2 GiB or more cannot be read.\<close>

lemma large_size_fails:
  assumes "getNodeByPathNS lib doc (prop_path @ ''d:resourcetype'') = Some rt"
    and "getNodeByPathNS lib doc (prop_path @ ''d:getlastmodified'') = None"
    and "getNodeByPathNS lib doc (prop_path @ ''d:getcontentlength'') = Some l" and "innerText lib l = to_dec n"
  shows "stat_of lib doc = (if n < 2 ^ 31 then
     Inr \<lparr>wd_mode = (if childNodes lib rt = [] then 0x8000 else 0x4000), wd_mtime = 0, wd_size = int n\<rparr> else Inl out_of_range)"
  using assms by (simp add: stat_of_def sto_signed_digits)

text \<open>A port that only starts with 443 is taken for that of HTTPS.\<close>

lemma endpoint_scheme_examples:
  "endpoint_scheme ''host'' = ''http://''" "endpoint_scheme ''host:8080'' = ''http://''" "endpoint_scheme ''host:443'' = ''https://''"
  "endpoint_scheme ''host:4433'' = ''https://''" "endpoint_scheme ''https://host'' = []"
  by (simp_all add: endpoint_scheme_def starts_with_def)

text \<open>The value of an attribute that was set, read from the node the server keeps for it.\<close>

lemma attribute_value:
  assumes "getNodeByPathNS lib doc (prop_path @ ''o:'' @ uri_encode lib nm) = Some node" and "childNodes lib node = [c]"
    and "isTextNode lib c \<longleftrightarrow> val \<noteq> []" and "val \<noteq> [] \<Longrightarrow> innerText lib node = val"
  shows "attribute_of lib nm doc = Inr val"
  using assms by (cases "val = []") (simp_all add: attribute_of_def)

end
