(* ===== verification/DataHub.thy ===== *)
theory DataHub
  imports StorageBase
begin

text \<open>
  \<^verbatim>\<open>src/src/dhusodataHelper.cc\<close>: read-only files of a data hub. The hub, with its nodes and its
  cache, is the parameter \<open>hub\<close>, on a state of its own.
\<close>

section \<open>The hub\<close>

record hub_node =
  isDirectory :: bool
  node_size :: int
  node_entries :: "string list"

record 's data_hub =
  hub_getNode :: "string \<Rightarrow> 's \<Rightarrow> hub_node option \<times> 's"
  hub_getFile :: "string \<Rightarrow> int \<Rightarrow> nat \<Rightarrow> 's \<Rightarrow> bytes fut \<times> 's"

definition parseMissions :: "string \<Rightarrow> string list" where
  "parseMissions missions = split_at (CHR '','') [] missions"

section \<open>Files\<close>

definition dh_read :: "'s data_hub \<Rightarrow> string \<Rightarrow> int \<Rightarrow> nat \<Rightarrow> 's \<Rightarrow> bytes fut \<times> 's" where
  "dh_read hub fileId offset sz st = hub_getFile hub fileId offset sz st"

definition dh_write :: "string \<Rightarrow> int \<Rightarrow> bytes \<Rightarrow> 's \<Rightarrow> nat fut \<times> 's" where
  "dh_write fileId offset buf st = (Inl (system_error ENOSYS), st)"

section \<open>The helper\<close>

record dh_stat =
  dh_uid :: u32
  dh_gid :: u32
  dh_mode :: u32
  dh_size :: int

text \<open>What is done with a node, unless there is none.\<close>

definition with_node :: "'s data_hub \<Rightarrow> string \<Rightarrow> (hub_node \<Rightarrow> 'a fut) \<Rightarrow> 's \<Rightarrow> 'a fut \<times> 's" where
  "with_node hub fileId use_node st =
     (case hub_getNode hub fileId st of
        (None, st1) \<Rightarrow> (Inl (system_error ENOENT), st1)
      | (Some nd, st1) \<Rightarrow> (use_node nd, st1))"

text \<open>\<open>uid\<close> and \<open>gid\<close> are the ids of the process; the mode is octal 555 or 444, without the type of the file.\<close>

definition dh_getattr :: "'s data_hub \<Rightarrow> u32 \<Rightarrow> u32 \<Rightarrow> string \<Rightarrow> 's \<Rightarrow> dh_stat fut \<times> 's" where
  "dh_getattr hub uid gid fileId = with_node hub fileId (\<lambda>nd.
     Inr \<lparr>dh_uid = uid, dh_gid = gid, dh_mode = (if isDirectory nd then 0x16D else 0x124), dh_size = node_size nd\<rparr>)"

definition dh_access :: "'s data_hub \<Rightarrow> string \<Rightarrow> int \<Rightarrow> 's \<Rightarrow> unit fut \<times> 's" where
  "dh_access hub fileId msk = with_node hub fileId (\<lambda>_. Inr ())"

text \<open>The loop over the entries, with 64-bit index and end.\<close>

function dh_entries :: "string list \<Rightarrow> u64 \<Rightarrow> u64 \<Rightarrow> string list" where
  "dh_entries dir_content i bound =
     (if i < of_nat (length dir_content) \<and> i < bound
      then dir_content ! unat i # dh_entries dir_content (i + 1) bound else [])"
  by pat_completeness auto
termination
proof (relation "measure (\<lambda>(dir, i, bound). unat bound - unat i)")
  fix dir :: "string list" and i bound :: u64
  assume "i < of_nat (length dir) \<and> i < bound"
  then have l: "unat i < unat bound" by (simp add: word_less_nat_alt)
  moreover have "unat bound < 18446744073709551616" by (rule unat_u64_bound)
  ultimately have "unat i + 1 < 18446744073709551616" by linarith
  then have "unat i + unat (1 :: u64) < 2 ^ 64" by simp
  then have "unat (i + 1) = Suc (unat i)" by (simp add: unat_add_small)
  then show "((dir, i + 1, bound), (dir, i, bound)) \<in> measure (\<lambda>(dir, i, bound). unat bound - unat i)" using l by simp
qed simp

declare dh_entries.simps [simp del]

definition dh_readdir :: "'s data_hub \<Rightarrow> string \<Rightarrow> u64 \<Rightarrow> u64 \<Rightarrow> 's \<Rightarrow> string list fut \<times> 's" where
  "dh_readdir hub fileId offset cnt = with_node hub fileId (\<lambda>nd.
     if isDirectory nd then Inr (dh_entries (node_entries nd @ [''.'', ''..'']) offset (offset + cnt))
     else Inl (system_error ENOTDIR))"

definition dh_open :: "'s data_hub \<Rightarrow> string \<Rightarrow> 's \<Rightarrow> string fut \<times> 's" where
  "dh_open hub fileId = with_node hub fileId (\<lambda>nd. if isDirectory nd then Inl (system_error EISDIR) else Inr fileId)"

definition dh_getxattr :: "string \<Rightarrow> string \<Rightarrow> 's \<Rightarrow> string fut \<times> 's" where
  "dh_getxattr uuid nm st = (Inl (makePosixException EOPNOTSUPP), st)"

record dh_helper =
  data_hub_url :: string
  dh_username :: string
  dh_password :: string
  dh_missions :: "string list"
  db_path :: string
  tmp_path :: string
  tmp_size :: u32

text \<open>\<open>DHUSODataHelperFactory::createStorageHelper\<close>.\<close>

definition createDataHubHelper :: "Params \<Rightarrow> dh_helper fut" where
  "createDataHubHelper parameters =
     (case getParam_string parameters ''datahubUrl'' of
        Inl e \<Rightarrow> Inl e
      | Inr url \<Rightarrow>
     (case getParam_string parameters ''username'' of
        Inl e \<Rightarrow> Inl e
      | Inr username \<Rightarrow>
     (case getParam_string parameters ''password'' of
        Inl e \<Rightarrow> Inl e
      | Inr password \<Rightarrow>
     (case getParam_string parameters ''missions'' of
        Inl e \<Rightarrow> Inl e
      | Inr missions \<Rightarrow>
     (case getParam_string parameters ''databasePath'' of
        Inl e \<Rightarrow> Inl e
      | Inr db \<Rightarrow>
     (case getParam_string parameters ''tmpPath'' of
        Inl e \<Rightarrow> Inl e
      | Inr tmp \<Rightarrow>
     (case getParam_string parameters ''tmpSize'' of
        Inl e \<Rightarrow> Inl e
      | Inr sz \<Rightarrow>
     (case sto_signed 31 sz of
        Inl e \<Rightarrow> Inl e
      | Inr n \<Rightarrow>
          Inr \<lparr>data_hub_url = url, dh_username = username, dh_password = password, dh_missions = parseMissions missions,
               db_path = db, tmp_path = tmp, tmp_size = of_int n\<rparr>))))))))"

section \<open>Listing and reading\<close>

text \<open>When the end of the range does not wrap around, the entries from the offset, at most the count, are listed.\<close>

lemma dh_entries_slice:
  assumes "length dir < 2 ^ 64"
  shows "dh_entries dir i bound = take (unat bound - unat i) (drop (unat i) dir)"
  using assms
proof (induction dir i bound rule: dh_entries.induct)
  case (1 dir i bound)
  have n: "unat (of_nat (length dir) :: u64) = length dir" using "1.prems" by (rule unat_of_nat_u64)
  show ?case
  proof (cases "unat i < length dir \<and> unat i < unat bound")
    case True
    then have c: "i < of_nat (length dir) \<and> i < bound" by (simp add: word_less_nat_alt n)
    have "unat i + unat (1 :: u64) < 2 ^ 64" using True "1.prems" by simp
    then have s: "unat (i + 1) = Suc (unat i)" by (simp add: unat_add_small)
    have d: "drop (unat i) dir = dir ! unat i # drop (Suc (unat i)) dir" using True by (simp add: Cons_nth_drop_Suc)
    have "dh_entries dir i bound = dir ! unat i # dh_entries dir (i + 1) bound" using c by (subst dh_entries.simps) simp
    then show ?thesis using "1.IH" [OF c "1.prems"] True d s by (simp add: Suc_diff_Suc [symmetric] Suc_diff_le)
  next
    case False
    then have "\<not> (i < of_nat (length dir) \<and> i < bound)" by (simp add: word_less_nat_alt n)
    then have "dh_entries dir i bound = []" by (subst dh_entries.simps) (simp only: if_False)
    then show ?thesis using False by auto
  qed
qed

lemma readdir_slice:
  assumes "hub_getNode hub fileId st = (Some nd, st')" and "isDirectory nd" and "length (node_entries nd) + 2 < 2 ^ 64"
    and "unat offset + unat cnt < 2 ^ 64"
  shows "dh_readdir hub fileId offset cnt st =
    (Inr (take (unat cnt) (drop (unat offset) (node_entries nd @ [''.'', ''..'']))), st')"
proof -
  have "unat (offset + cnt) = unat offset + unat cnt" using assms(4) by (simp add: unat_add_small)
  then show ?thesis using assms dh_entries_slice [of "node_entries nd @ [''.'', ''..'']" offset "offset + cnt"]
    by (simp add: dh_readdir_def with_node_def)
qed

text \<open>A count so large that the end wraps around lists nothing.\<close>

lemma readdir_wraps:
  assumes "hub_getNode hub fileId st = (Some nd, st')" and "isDirectory nd" and "0 < offset"
  shows "dh_readdir hub fileId offset (- 1) st = (Inr (dh_entries (node_entries nd @ [''.'', ''..'']) offset (offset - 1)), st')"
    and "dh_entries dir offset (offset - 1) = []"
proof -
  have "unat (offset - 1) < unat offset" using assms(3) by (simp add: unat_pred word_gt_0 unat_gt_0)
  then have "\<not> offset < offset - 1" by (simp add: word_less_nat_alt)
  then show "dh_entries dir offset (offset - 1) = []" by (subst dh_entries.simps) (simp only: if_False simp_thms)
  show "dh_readdir hub fileId offset (- 1) st = (Inr (dh_entries (node_entries nd @ [''.'', ''..'']) offset (offset - 1)), st')"
    using assms by (simp add: dh_readdir_def with_node_def)
qed

end
