(* ===== verification/Creator.thy ===== *)
theory Creator
  imports NullDevice Posix Proxy CephStriper GlusterFS WebDAV DataHub
begin

text \<open>
  \<^verbatim>\<open>src/src/storageHelperCreator.cc\<close> with the factories of the helpers, and \<^verbatim>\<open>BufferAgent\<close> of
  \<^verbatim>\<open>src/src/buffering/bufferAgent.h\<close> as a helper: how parameters become a helper and how a helper is
  wrapped.
\<close>

section \<open>Factories\<close>

text \<open>The casts of \<^verbatim>\<open>getParam\<close> to the types the factories ask for.\<close>

record casts =
  to_fbstring :: "string \<Rightarrow> string option"
  to_int :: "string \<Rightarrow> int option"
  to_u32 :: "string \<Rightarrow> u32 option"
  to_size :: "string \<Rightarrow> u64 option"
  to_double :: "string \<Rightarrow> real option"

definition DEFAULT_BLOCK_SIZE :: u64 where "DEFAULT_BLOCK_SIZE = 10 * 1024 * 1024"

record s3_args =
  s3_hostname :: string
  s3_bucketName :: string
  s3_accessKey :: string
  s3_secretKey :: string
  s3_useHttps :: bool
  s3_timeout :: u64
  s3_blockSize :: u64

definition createS3Helper :: "casts \<Rightarrow> u64 \<Rightarrow> Params \<Rightarrow> s3_args fut" where
  "createS3Helper c asyncOpsTimeout parameters =
     and_then (getParam_def_val (to_fbstring c) parameters ''scheme'' ''https'') (\<lambda>scheme.
         and_then (getParam_string parameters ''hostname'') (\<lambda>hostname.
         and_then (getParam_string parameters ''bucketName'') (\<lambda>bucketName.
         and_then (getParam_string parameters ''accessKey'') (\<lambda>accessKey.
         and_then (getParam_string parameters ''secretKey'') (\<lambda>secretKey.
         and_then (getParam_def_val (to_int c) parameters ''signatureVersion'' 4) (\<lambda>version.
         and_then (getParam_def_val (to_size c) parameters ''timeout'' asyncOpsTimeout) (\<lambda>timeout.
         and_then (getParam_def_val (to_size c) parameters ''blockSize'' DEFAULT_BLOCK_SIZE) (\<lambda>blockSize.
         if version \<noteq> 4 then Inl invalid_argument
         else Inr \<lparr>s3_hostname = hostname, s3_bucketName = bucketName, s3_accessKey = accessKey, s3_secretKey = secretKey,
                   s3_useHttps = (scheme = ''https''), s3_timeout = timeout, s3_blockSize = blockSize\<rparr>))))))))"

record swift_args =
  swift_authUrl :: string
  swift_containerName :: string
  swift_tenantName :: string
  swift_userName :: string
  swift_password :: string
  swift_timeout :: u64
  swift_blockSize :: u64

definition createSwiftHelper :: "casts \<Rightarrow> u64 \<Rightarrow> Params \<Rightarrow> swift_args fut" where
  "createSwiftHelper c asyncOpsTimeout parameters =
     and_then (getParam_string parameters ''authUrl'') (\<lambda>authUrl.
     and_then (getParam_string parameters ''containerName'') (\<lambda>containerName.
     and_then (getParam_string parameters ''tenantName'') (\<lambda>tenantName.
     and_then (getParam_string parameters ''username'') (\<lambda>userName.
     and_then (getParam_string parameters ''password'') (\<lambda>password.
     and_then (getParam_def_val (to_size c) parameters ''timeout'' asyncOpsTimeout) (\<lambda>timeout.
     and_then (getParam_def_val (to_size c) parameters ''blockSize'' DEFAULT_BLOCK_SIZE) (\<lambda>blockSize.
     Inr \<lparr>swift_authUrl = authUrl, swift_containerName = containerName, swift_tenantName = tenantName,
          swift_userName = userName, swift_password = password, swift_timeout = timeout, swift_blockSize = blockSize\<rparr>)))))))"

record ceph_rados_args =
  cr_clusterName :: string
  cr_monHost :: string
  cr_poolName :: string
  cr_userName :: string
  cr_key :: string
  cr_timeout :: u64
  cr_blockSize :: u64

definition createCephRadosHelper :: "casts \<Rightarrow> u64 \<Rightarrow> Params \<Rightarrow> ceph_rados_args fut" where
  "createCephRadosHelper c asyncOpsTimeout parameters =
     and_then (getParam_string parameters ''clusterName'') (\<lambda>clusterName.
     and_then (getParam_string parameters ''monitorHostname'') (\<lambda>monHost.
     and_then (getParam_string parameters ''poolName'') (\<lambda>poolName.
     and_then (getParam_string parameters ''username'') (\<lambda>userName.
     and_then (getParam_string parameters ''key'') (\<lambda>ky.
     and_then (getParam_def_val (to_size c) parameters ''timeout'' asyncOpsTimeout) (\<lambda>timeout.
     and_then (getParam_def_val (to_size c) parameters ''blockSize'' DEFAULT_BLOCK_SIZE) (\<lambda>blockSize.
     Inr \<lparr>cr_clusterName = clusterName, cr_monHost = monHost, cr_poolName = poolName, cr_userName = userName,
          cr_key = ky, cr_timeout = timeout, cr_blockSize = blockSize\<rparr>)))))))"

record null_args =
  nd_latencyMin :: int
  nd_latencyMax :: int
  nd_timeoutProbability :: real
  nd_filter :: string
  nd_filesystemParameters :: "(int \<times> int) list"
  nd_growSpeed :: real
  nd_timeout :: u64

definition createNullDeviceHelper :: "casts \<Rightarrow> u64 \<Rightarrow> Params \<Rightarrow> null_args fut" where
  "createNullDeviceHelper c asyncOpsTimeout parameters =
     and_then (getParam_def_val (to_int c) parameters ''latencyMin'' 0) (\<lambda>latencyMin.
     and_then (getParam_def_val (to_int c) parameters ''latencyMax'' 0) (\<lambda>latencyMax.
     and_then (getParam_def_val (to_double c) parameters ''timeoutProbability'' 0) (\<lambda>timeoutProbability.
     let flt = getParam_string_def parameters ''filter'' ''*'';
         fsParameters = getParam_string_def parameters ''simulatedFilesystemParameters'' []
     in and_then (getParam_def_val (to_double c) parameters ''simulatedFilesystemGrowSpeed'' 0) (\<lambda>growSpeed.
        and_then (getParam_def_val (to_size c) parameters ''timeout'' asyncOpsTimeout) (\<lambda>timeout.
        and_then (parseSimulatedFilesystemParameters fsParameters) (\<lambda>levels.
        Inr \<lparr>nd_latencyMin = latencyMin, nd_latencyMax = latencyMax, nd_timeoutProbability = timeoutProbability,
             nd_filter = flt, nd_filesystemParameters = levels, nd_growSpeed = growSpeed, nd_timeout = timeout\<rparr>))))))"

section \<open>Choosing a helper\<close>

datatype any_helper =
    A_posix posix_helper
  | A_ceph CephHelper
  | A_cephrados ceph_rados_args
  | A_proxy string
  | A_s3 s3_args
  | A_swift swift_args
  | A_glusterfs GlusterFSHelper
  | A_webdav WebDAVHelper
  | A_dhusodata dh_helper
  | A_nulldevice null_args

definition helper_names :: "string list" where
  "helper_names =
     [''ceph'', ''cephrados'', ''posix'', ''proxy'', ''nulldevice'', ''s3'', ''swift'', ''glusterfs'', ''webdav'', ''dhusodata'']"

text \<open>\<open>built\<close> says which of the optional helpers are compiled in.\<close>

definition createHelper ::
  "('n, 'd) webdav_lib \<Rightarrow> casts \<Rightarrow> u64 \<Rightarrow> (string \<Rightarrow> bool) \<Rightarrow> string \<Rightarrow> Params \<Rightarrow> any_helper option fut" where
  "createHelper dav c t built nm args =
     (if nm = ''posix'' then map_sum id (Some \<circ> A_posix) (createPosixHelper (to_int c) (to_size c) t args)
      else if nm = ''ceph'' \<and> built nm then map_sum id (Some \<circ> A_ceph) (createCephHelper (to_size c) t args)
      else if nm = ''cephrados'' \<and> built nm then map_sum id (Some \<circ> A_cephrados) (createCephRadosHelper c t args)
      else if nm = ''proxy'' \<and> built nm then map_sum id (Some \<circ> A_proxy) (createProxyHelper (to_size c) t args)
      else if nm = ''s3'' \<and> built nm then map_sum id (Some \<circ> A_s3) (createS3Helper c t args)
      else if nm = ''swift'' \<and> built nm then map_sum id (Some \<circ> A_swift) (createSwiftHelper c t args)
      else if nm = ''glusterfs'' \<and> built nm then map_sum id (Some \<circ> A_glusterfs) (createGlusterFSHelper (to_int c) (to_size c) t args)
      else if nm = ''webdav'' \<and> built nm then map_sum id (Some \<circ> A_webdav) (createWebDAVHelper dav (to_fbstring c) (to_u32 c) (to_size c) t args)
      else if nm = ''dhusodata'' \<and> built nm then map_sum id (Some \<circ> A_dhusodata) (createDataHubHelper args)
      else if nm = ''nulldevice'' then map_sum id (Some \<circ> A_nulldevice) (createNullDeviceHelper c t args)
      else Inr None)"

datatype storage_helper = Plain any_helper | Buffered BufferLimits any_helper

definition getStorageHelper ::
  "('n, 'd) webdav_lib \<Rightarrow> casts \<Rightarrow> u64 \<Rightarrow> (string \<Rightarrow> bool) \<Rightarrow> BufferLimits \<Rightarrow> string \<Rightarrow> Params \<Rightarrow> bool \<Rightarrow> storage_helper fut" where
  "getStorageHelper dav c t built bufferLimits nm args isBuffered =
     and_then (createHelper dav c t built nm args) (\<lambda>helper.
       case helper of
         None \<Rightarrow> Inl (system_error EINVAL)
       | Some a \<Rightarrow> Inr (if isBuffered then Buffered bufferLimits a else Plain a))"

section \<open>Operations on paths through a buffered helper\<close>

text \<open>A call of one of the operations on paths, with its arguments in the order of the declaration.\<close>

datatype helper_call =
    C_getattr string
  | C_access string u32
  | C_readlink string
  | C_readdir string int u64
  | C_mknod string u32 "Flag set" u64
  | C_mkdir string u32
  | C_unlink string u64
  | C_rmdir string
  | C_symlink string string
  | C_rename string string
  | C_link string string
  | C_chmod string u32
  | C_chown string u32 u32
  | C_truncate string int u64
  | C_getxattr string string
  | C_setxattr string string string bool bool
  | C_removexattr string string
  | C_listxattr string

fun BufferAgent_call :: "(helper_call \<Rightarrow> 's \<Rightarrow> 'r \<times> 's) \<Rightarrow> helper_call \<Rightarrow> 's \<Rightarrow> 'r \<times> 's" where
  "BufferAgent_call m_helper (C_getattr fileId) s = m_helper (C_getattr fileId) s"
| "BufferAgent_call m_helper (C_access fileId msk) s = m_helper (C_access fileId msk) s"
| "BufferAgent_call m_helper (C_readlink fileId) s = m_helper (C_readlink fileId) s"
| "BufferAgent_call m_helper (C_readdir fileId offset cnt) s = m_helper (C_readdir fileId offset cnt) s"
| "BufferAgent_call m_helper (C_mknod fileId mode flags rdev) s = m_helper (C_mknod fileId mode flags rdev) s"
| "BufferAgent_call m_helper (C_mkdir fileId mode) s = m_helper (C_mkdir fileId mode) s"
| "BufferAgent_call m_helper (C_unlink fileId currentSize) s = m_helper (C_unlink fileId currentSize) s"
| "BufferAgent_call m_helper (C_rmdir fileId) s = m_helper (C_rmdir fileId) s"
| "BufferAgent_call m_helper (C_symlink source target) s = m_helper (C_symlink source target) s"
| "BufferAgent_call m_helper (C_rename source target) s = m_helper (C_rename source target) s"
| "BufferAgent_call m_helper (C_link source target) s = m_helper (C_link source target) s"
| "BufferAgent_call m_helper (C_chmod fileId mode) s = m_helper (C_chmod fileId mode) s"
| "BufferAgent_call m_helper (C_chown fileId uid gid) s = m_helper (C_chown fileId uid gid) s"
| "BufferAgent_call m_helper (C_truncate fileId sz currentSize) s = m_helper (C_truncate fileId sz currentSize) s"
| "BufferAgent_call m_helper (C_getxattr uuid nm) s = m_helper (C_getxattr uuid nm) s"
| "BufferAgent_call m_helper (C_setxattr uuid nm val create repl) s = m_helper (C_setxattr uuid nm val create repl) s"
| "BufferAgent_call m_helper (C_removexattr uuid nm) s = m_helper (C_removexattr uuid nm) s"
| "BufferAgent_call m_helper (C_listxattr uuid) s = m_helper (C_listxattr uuid) s"

section \<open>What a helper is made from\<close>

text \<open>The parameters without a default.\<close>

definition required :: "string \<Rightarrow> string list" where
  "required nm =
     (if nm = ''posix'' then [''mountPoint'']
      else if nm = ''ceph'' \<or> nm = ''cephrados'' then [''clusterName'', ''monitorHostname'', ''poolName'', ''username'', ''key'']
      else if nm = ''proxy'' then [''storageId'']
      else if nm = ''s3'' then [''hostname'', ''bucketName'', ''accessKey'', ''secretKey'']
      else if nm = ''swift'' then [''authUrl'', ''containerName'', ''tenantName'', ''username'', ''password'']
      else if nm = ''glusterfs'' then [''hostname'', ''volume'']
      else if nm = ''webdav'' then [''endpoint'', ''credentials'']
      else if nm = ''dhusodata'' then [''datahubUrl'', ''username'', ''password'', ''missions'', ''databasePath'', ''tmpPath'', ''tmpSize'']
      else [])"

lemmas factory_defs = createPosixHelper_def createCephHelper_def createCephRadosHelper_def createProxyHelper_def createS3Helper_def
  createSwiftHelper_def createGlusterFSHelper_def createWebDAVHelper_def createDataHubHelper_def

lemma required_given:
  "createPosixHelper ti ts t args = Inr a \<Longrightarrow> \<forall>p \<in> set (required ''posix''). args p \<noteq> None"
  "createCephHelper ts t args = Inr b \<Longrightarrow> \<forall>p \<in> set (required ''ceph''). args p \<noteq> None"
  "createCephRadosHelper c t args = Inr d \<Longrightarrow> \<forall>p \<in> set (required ''cephrados''). args p \<noteq> None"
  "createProxyHelper ts t args = Inr e \<Longrightarrow> \<forall>p \<in> set (required ''proxy''). args p \<noteq> None"
  "createS3Helper c t args = Inr f \<Longrightarrow> \<forall>p \<in> set (required ''s3''). args p \<noteq> None"
  "createSwiftHelper c t args = Inr g \<Longrightarrow> \<forall>p \<in> set (required ''swift''). args p \<noteq> None"
  by (auto simp: required_def factory_defs and_then_Inr getParam_string_Inr Let_def split: sum.split_asm)

lemma required_given_more:
  "createGlusterFSHelper ti ts t args = Inr a \<Longrightarrow> \<forall>p \<in> set (required ''glusterfs''). args p \<noteq> None"
  "createWebDAVHelper dav tf tu ts t args = Inr b \<Longrightarrow> \<forall>p \<in> set (required ''webdav''). args p \<noteq> None"
  "createDataHubHelper args = Inr d \<Longrightarrow> \<forall>p \<in> set (required ''dhusodata''). args p \<noteq> None"
  by (auto simp: required_def factory_defs and_then_Inr getParam_string_Inr Let_def split: sum.split_asm)

text \<open>
  A helper is made only for a name that is known and compiled in, from parameters that include those its
  factory requires; every other name gives EINVAL.
\<close>

lemma helper_made:
  assumes "getStorageHelper dav c t built bufferLimits nm args isBuffered = Inr x"
  shows "nm \<in> set helper_names \<and> (nm \<in> {''posix'', ''nulldevice''} \<or> built nm) \<and> (\<forall>p \<in> set (required nm). args p \<noteq> None)"
proof -
  obtain a where "createHelper dav c t built nm args = Inr (Some a)"
    using assms by (auto simp: getStorageHelper_def and_then_Inr split: option.split_asm)
  then show ?thesis unfolding createHelper_def
    by (auto simp: map_sum_Inr helper_names_def required_def [of "''nulldevice''"] dest: required_given required_given_more
        split: if_split_asm)
qed

lemma unknown_helper:
  assumes "nm \<notin> set helper_names"
  shows "getStorageHelper dav c t built bufferLimits nm args isBuffered = Inl (system_error EINVAL)"
  using assms by (auto simp: getStorageHelper_def createHelper_def helper_names_def and_then_def)

text \<open>A buffered helper answers every operation on paths as the helper it wraps, however often it is wrapped.\<close>

lemma paths_unbuffered:
  fixes m_helper :: "helper_call \<Rightarrow> 's \<Rightarrow> 'r \<times> 's"
  shows "(BufferAgent_call ^^ n) m_helper = m_helper"
proof (induction n)
  case (Suc n)
  have "BufferAgent_call m_helper = m_helper"
  proof (intro ext)
    show "BufferAgent_call m_helper c s = m_helper c s" for c s by (cases c) simp_all
  qed
  with Suc show ?case by simp
qed simp

end
