(* ===== verification/Metrics.thy ===== *)
theory Metrics
  imports Complex_Main Prelude
begin

text \<open>
  The metrics library in \<^verbatim>\<open>src/deps/cppmetrics/cppmetrics/core\<close>: counters, samples and their quantiles, moving averages, meters,
  timers, and the registry that names them. Doubles are real numbers; the clock and the random numbers are arguments.
\<close>

section \<open>Counters\<close>

text \<open>\<^verbatim>\<open>std::atomic<int64_t>\<close>: additions wrap.\<close>

type_synonym Counter = u64

abbreviation (input) ctr_setCount :: "u64 \<Rightarrow> Counter \<Rightarrow> Counter" where
  "ctr_setCount n c \<equiv> n"

abbreviation (input) ctr_increment :: "u64 \<Rightarrow> Counter \<Rightarrow> Counter" where
  "ctr_increment n c \<equiv> c + n"

abbreviation (input) ctr_decrement :: "u64 \<Rightarrow> Counter \<Rightarrow> Counter" where
  "ctr_decrement n c \<equiv> c - n"

abbreviation (input) ctr_getCount :: "Counter \<Rightarrow> int" where
  "ctr_getCount c \<equiv> sint c"

section \<open>Snapshots\<close>

definition Snapshot :: "int list \<Rightarrow> int list" where
  "Snapshot values = sort values"

definition getValue :: "int list \<Rightarrow> real \<Rightarrow> real fut" where
  "getValue vals quantile =
     (if quantile < 0 \<or> quantile > 1 then Inl invalid_argument
      else if vals = [] then Inr 0
      else (let pos = quantile * (real (length vals) + 1)
            in if pos < 1 then Inr (real_of_int (hd vals))
               else if pos \<ge> real (length vals) then Inr (real_of_int (last vals))
               else (let pos_index = nat \<lfloor>pos\<rfloor>;
                         lower = real_of_int (vals ! (pos_index - 1));
                         upper = real_of_int (vals ! pos_index)
                     in Inr (lower + (pos - real_of_int \<lfloor>pos\<rfloor>) * (upper - lower)))))"

definition getMin :: "int list \<Rightarrow> int" where
  "getMin vals = (if vals = [] then 0 else hd vals)"

definition getMax :: "int list \<Rightarrow> int" where
  "getMax vals = (if vals = [] then 0 else last vals)"

text \<open>The sum has 64 bits with a sign; an overflow is taken to wrap.\<close>

definition getMean :: "int list \<Rightarrow> real" where
  "getMean vals =
     (if vals = [] then 0
      else real_of_int (sint (foldl (\<lambda>mean d. mean + (word_of_int d :: u64)) 0 vals)) / real (length vals))"

definition getStdDev :: "int list \<Rightarrow> real" where
  "getStdDev vals =
     (if length vals \<le> 1 then 0
      else (let mean_value = getMean vals;
                total = foldl (\<lambda>acc value. let diff = real_of_int value - mean_value in acc + diff * diff) 0 vals
            in sqrt (total / (real (length vals) - 1))))"

section \<open>Samples that decay\<close>

text \<open>\<^verbatim>\<open>std::map<double, int64_t>\<close>, as its entries in the order of the keys; \<open>map_put\<close> is \<open>values[key] = value\<close>.\<close>

fun map_put :: "real \<Rightarrow> int \<Rightarrow> (real \<times> int) list \<Rightarrow> (real \<times> int) list" where
  "map_put k v [] = [(k, v)]"
| "map_put k v ((k', v') # xs) =
     (if k < k' then (k, v) # (k', v') # xs else if k = k' then (k, v) # xs else (k', v') # map_put k v xs)"

record ExpDecaySample =
  ed_alpha :: real
  ed_reservoir_size :: nat
  ed_count :: nat
  ed_start_time :: int
  ed_next_scale_time :: int
  ed_values :: "(real \<times> int) list"

abbreviation second :: int where "second \<equiv> 1000000000"

abbreviation (input) RESCALE_THRESHOLD :: int where
  "RESCALE_THRESHOLD \<equiv> 3600 * second"

definition ed_clear :: "int \<Rightarrow> ExpDecaySample \<Rightarrow> ExpDecaySample" where
  "ed_clear now s =
     s\<lparr>ed_values := [], ed_count := 0, ed_start_time := now, ed_next_scale_time := now + RESCALE_THRESHOLD\<rparr>"

abbreviation (input) new_exp_decay_sample :: "int \<Rightarrow> nat \<Rightarrow> real \<Rightarrow> ExpDecaySample" where
  "new_exp_decay_sample now reservoir_size alpha \<equiv>
     ed_clear now \<lparr>ed_alpha = alpha, ed_reservoir_size = reservoir_size, ed_count = 0, ed_start_time = 0, ed_next_scale_time = 0,
       ed_values = []\<rparr>"

abbreviation (input) ed_size :: "ExpDecaySample \<Rightarrow> nat" where
  "ed_size s \<equiv> min (ed_reservoir_size s) (ed_count s)"

definition ed_rescale :: "int \<Rightarrow> ExpDecaySample \<Rightarrow> ExpDecaySample" where
  "ed_rescale prevStartTime s =
     (let dur = (ed_start_time s - prevStartTime) div second;
          values = foldl (\<lambda>new (key, value). map_put (key * exp (- ed_alpha s * real_of_int dur)) value new) [] (ed_values s)
      in s\<lparr>ed_values := values, ed_count := length values\<rparr>)"

definition ed_rescaleIfNeeded :: "int \<Rightarrow> ExpDecaySample \<Rightarrow> ExpDecaySample" where
  "ed_rescaleIfNeeded now s =
     (if ed_next_scale_time s < now
      then ed_rescale (ed_start_time s) (s\<lparr>ed_next_scale_time := now + RESCALE_THRESHOLD, ed_start_time := now\<rparr>)
      else s)"

definition ed_insert :: "real \<Rightarrow> int \<Rightarrow> ExpDecaySample \<Rightarrow> ExpDecaySample" where
  "ed_insert priority value s =
     (let s1 = s\<lparr>ed_count := ed_count s + 1\<rparr>
      in if ed_count s1 \<le> ed_reservoir_size s1 then s1\<lparr>ed_values := map_put priority value (ed_values s1)\<rparr>
         else (case ed_values s1 of
                 [] \<Rightarrow> s1
               | (first, _) # rest \<Rightarrow>
                   (if first < priority \<and> priority \<notin> fst ` set (ed_values s1)
                    then s1\<lparr>ed_values := map_put priority value rest\<rparr>
                    else s1)))"

text \<open>\<open>u\<close> is the number drawn from the interval of 0 to 1, not 0.\<close>

definition ed_update :: "real \<Rightarrow> int \<Rightarrow> int \<Rightarrow> ExpDecaySample \<Rightarrow> ExpDecaySample" where
  "ed_update u value timestamp s =
     (let s1 = ed_rescaleIfNeeded timestamp s;
          dur = (timestamp - ed_start_time s1) div second;
          priority = exp (ed_alpha s1 * real_of_int dur) / u
      in ed_insert priority value s1)"

definition ed_getSnapshot :: "ExpDecaySample \<Rightarrow> int list" where
  "ed_getSnapshot s = Snapshot (map snd (ed_values s))"

section \<open>Moving averages\<close>

record EWMA =
  ew_initialized :: bool
  ew_ewma :: real
  ew_uncounted :: u64
  ew_alpha :: real
  ew_interval_nanos :: nat

abbreviation (input) new_EWMA :: "real \<Rightarrow> nat \<Rightarrow> EWMA" where
  "new_EWMA alpha interval \<equiv> \<lparr>ew_initialized = False, ew_ewma = 0, ew_uncounted = 0, ew_alpha = alpha, ew_interval_nanos = interval\<rparr>"

abbreviation (input) INTERVAL_IN_SEC :: nat where
  "INTERVAL_IN_SEC \<equiv> 5"

definition minutes_alpha :: "nat \<Rightarrow> real" where
  "minutes_alpha m = 1 - exp (- real INTERVAL_IN_SEC / (60 * real m))"

abbreviation (input) ew_update :: "u64 \<Rightarrow> EWMA \<Rightarrow> EWMA" where
  "ew_update n e \<equiv> e\<lparr>ew_uncounted := ew_uncounted e + n\<rparr>"

definition ew_tick :: "EWMA \<Rightarrow> EWMA" where
  "ew_tick e =
     (let count = ew_uncounted e;
          instant_rate = real (unat count) / real (ew_interval_nanos e)
      in if ew_initialized e
         then e\<lparr>ew_uncounted := 0, ew_ewma := ew_ewma e + ew_alpha e * (instant_rate - ew_ewma e)\<rparr>
         else e\<lparr>ew_uncounted := 0, ew_ewma := instant_rate, ew_initialized := True\<rparr>)"

abbreviation (input) ew_getRate :: "nat \<Rightarrow> EWMA \<Rightarrow> real" where
  "ew_getRate duration e \<equiv> ew_ewma e * real duration"

section \<open>Meters\<close>

definition TICK_INTERVAL :: u64 where "TICK_INTERVAL = 5000000000"

record Meter =
  mt_rate_unit :: u64
  mt_count :: u64
  mt_start_time :: u64
  mt_last_tick :: u64
  mt_m1_rate :: EWMA
  mt_m5_rate :: EWMA
  mt_m15_rate :: EWMA

definition new_meter :: "u64 \<Rightarrow> Meter" where
  "new_meter now =
     \<lparr>mt_rate_unit = 1000000000, mt_count = 0, mt_start_time = now, mt_last_tick = now,
      mt_m1_rate = new_EWMA (minutes_alpha 1) (INTERVAL_IN_SEC * 1000000000),
      mt_m5_rate = new_EWMA (minutes_alpha 5) (INTERVAL_IN_SEC * 1000000000),
      mt_m15_rate = new_EWMA (minutes_alpha 15) (INTERVAL_IN_SEC * 1000000000)\<rparr>"

definition mt_tick :: "Meter \<Rightarrow> Meter" where
  "mt_tick m = m\<lparr>mt_m1_rate := ew_tick (mt_m1_rate m), mt_m5_rate := ew_tick (mt_m5_rate m), mt_m15_rate := ew_tick (mt_m15_rate m)\<rparr>"

text \<open>The number of ticks due at \<open>now\<close>.\<close>

definition required_ticks :: "u64 \<Rightarrow> Meter \<Rightarrow> nat" where
  "required_ticks now m =
     (let age = now - mt_last_tick m in if age > TICK_INTERVAL then unat (age div TICK_INTERVAL) else 0)"

definition tickIfNecessary :: "u64 \<Rightarrow> Meter \<Rightarrow> Meter" where
  "tickIfNecessary now m =
     (let age = now - mt_last_tick m
      in if age > TICK_INTERVAL
         then (mt_tick ^^ required_ticks now m) (m\<lparr>mt_last_tick := now - age mod TICK_INTERVAL\<rparr>)
         else m)"

definition mark :: "u64 \<Rightarrow> u64 \<Rightarrow> Meter \<Rightarrow> Meter" where
  "mark now n m =
     (let m1 = tickIfNecessary now m
      in m1\<lparr>mt_count := mt_count m1 + n, mt_m1_rate := ew_update n (mt_m1_rate m1), mt_m5_rate := ew_update n (mt_m5_rate m1),
            mt_m15_rate := ew_update n (mt_m15_rate m1)\<rparr>)"

text \<open>The rates over one, five and fifteen minutes, by the average \<open>rate\<close> they read.\<close>

definition getMinuteRate :: "(Meter \<Rightarrow> EWMA) \<Rightarrow> u64 \<Rightarrow> Meter \<Rightarrow> real \<times> Meter" where
  "getMinuteRate rate now m = (let m1 = tickIfNecessary now m in (ew_getRate 1000000000 (rate m1), m1))"

text \<open>The product of the count and the unit has 64 bits.\<close>

definition getMeanRate :: "u64 \<Rightarrow> Meter \<Rightarrow> real" where
  "getMeanRate now m =
     (if mt_count m > 0 then real (unat (mt_count m * mt_rate_unit m)) / real (unat (now - mt_start_time m)) else 0)"

section \<open>Histograms and timers\<close>

record Histogram =
  hg_sample :: ExpDecaySample
  hg_count :: u64

abbreviation (input) hg_clear :: "int \<Rightarrow> Histogram \<Rightarrow> Histogram" where
  "hg_clear now h \<equiv> h\<lparr>hg_count := 0, hg_sample := ed_clear now (hg_sample h)\<rparr>"

abbreviation (input) new_histogram :: "int \<Rightarrow> Histogram" where
  "new_histogram now \<equiv> hg_clear now \<lparr>hg_sample = new_exp_decay_sample now 1024 (15 / 1000), hg_count = 0\<rparr>"

definition hg_update :: "real \<Rightarrow> int \<Rightarrow> int \<Rightarrow> Histogram \<Rightarrow> Histogram" where
  "hg_update u now value h = h\<lparr>hg_count := hg_count h + 1, hg_sample := ed_update u value now (hg_sample h)\<rparr>"

record Timer =
  tm_meter :: Meter
  tm_histogram :: Histogram
  tm_duration :: u64

abbreviation (input) new_timer :: "u64 \<Rightarrow> Timer" where
  "new_timer now \<equiv> \<lparr>tm_meter = new_meter now, tm_histogram = new_histogram (sint now), tm_duration = 0\<rparr>"

definition tm_update :: "real \<Rightarrow> u64 \<Rightarrow> int \<Rightarrow> u64 \<Rightarrow> Timer \<Rightarrow> Timer" where
  "tm_update u now duration cnt t =
     (if duration \<ge> 0
      then t\<lparr>tm_duration := tm_duration t + word_of_int duration, tm_histogram := hg_update u (sint now) duration (tm_histogram t),
             tm_meter := mark now cnt (tm_meter t)\<rparr>
      else t)"

record TimerContext =
  tc_start_time :: u64
  tc_active :: bool

abbreviation (input) tc_reset :: "u64 \<Rightarrow> TimerContext" where
  "tc_reset now \<equiv> \<lparr>tc_start_time = now, tc_active = True\<rparr>"

definition tc_stop :: "real \<Rightarrow> u64 \<Rightarrow> u64 \<Rightarrow> TimerContext \<Rightarrow> Timer \<Rightarrow> int \<times> TimerContext \<times> Timer" where
  "tc_stop u now cnt c t =
     (if tc_active c
      then (let dur = sint (now - tc_start_time c) in (dur, c\<lparr>tc_active := False\<rparr>, tm_update u now dur cnt t))
      else (0, c, t))"

section \<open>The registry\<close>

datatype MetricType = GaugeType | CounterType | HistogramType | MeterType | TimerType

text \<open>A metric is known by a number of its own; gauges are made outside.\<close>

datatype metric_ptr = Outside nat | Built nat

record MetricRegistry =
  rg_metric_set :: "MetricType \<Rightarrow> string \<Rightarrow> metric_ptr option"
  rg_metric_names :: "string set"
  built_count :: nat

definition new_registry :: MetricRegistry where
  "new_registry = \<lparr>rg_metric_set = (\<lambda>_ _. None), rg_metric_names = {}, built_count = 0\<rparr>"

definition buildMetric :: "MetricType \<Rightarrow> MetricRegistry \<Rightarrow> metric_ptr fut \<times> MetricRegistry" where
  "buildMetric metric_type r =
     (if metric_type = GaugeType then (Inl invalid_argument, r)
      else (Inr (Built (built_count r)), r\<lparr>built_count := built_count r + 1\<rparr>))"

definition addMetric :: "MetricType \<Rightarrow> string \<Rightarrow> metric_ptr \<Rightarrow> MetricRegistry \<Rightarrow> bool fut \<times> MetricRegistry" where
  "addMetric metric_type name new_metric r =
     (if name \<notin> rg_metric_names r
      then (let r1 = r\<lparr>rg_metric_names := insert name (rg_metric_names r)\<rparr>
            in if rg_metric_set r1 metric_type name = None
               then (Inr True, r1\<lparr>rg_metric_set := (rg_metric_set r1)(metric_type := (rg_metric_set r1 metric_type)(name \<mapsto> new_metric))\<rparr>)
               else (Inr False, r1))
      else (Inl invalid_argument, r))"

definition getOrAdd :: "MetricType \<Rightarrow> string \<Rightarrow> MetricRegistry \<Rightarrow> metric_ptr fut \<times> MetricRegistry" where
  "getOrAdd metric_type name r =
     (case rg_metric_set r metric_type name of
        Some m \<Rightarrow> (Inr m, r)
      | None \<Rightarrow>
          (case buildMetric metric_type r of
             (Inl e, r1) \<Rightarrow> (Inl e, r1)
           | (Inr new_metric, r1) \<Rightarrow>
               (case addMetric metric_type name new_metric r1 of
                  (Inl e, r2) \<Rightarrow> (Inl e, r2)
                | (Inr _, r2) \<Rightarrow> (Inr new_metric, r2))))"

definition addGauge :: "string \<Rightarrow> nat \<Rightarrow> MetricRegistry \<Rightarrow> bool fut \<times> MetricRegistry" where
  "addGauge name gauge r = addMetric GaugeType name (Outside gauge) r"

fun eraseFirst :: "string \<Rightarrow> MetricType list \<Rightarrow> (MetricType \<Rightarrow> string \<Rightarrow> metric_ptr option) \<Rightarrow> MetricType \<Rightarrow> string \<Rightarrow> metric_ptr option" where
  "eraseFirst name [] ms = ms"
| "eraseFirst name (t # ts) ms = (if ms t name \<noteq> None then ms(t := (ms t)(name := None)) else eraseFirst name ts ms)"

definition removeMetric :: "string \<Rightarrow> MetricRegistry \<Rightarrow> bool \<times> MetricRegistry" where
  "removeMetric name r =
     (if name \<in> rg_metric_names r
      then (True, r\<lparr>rg_metric_set := eraseFirst name [GaugeType, CounterType, HistogramType, MeterType, TimerType] (rg_metric_set r),
                    rg_metric_names := rg_metric_names r - {name}\<rparr>)
      else (False, r))"

section \<open>Quantiles\<close>

text \<open>The point between the values at which a quantile is read.\<close>

definition interpolate :: "int list \<Rightarrow> real \<Rightarrow> real" where
  "interpolate vs pos =
     (if pos < 1 then real_of_int (hd vs)
      else if pos \<ge> real (length vs) then real_of_int (last vs)
      else real_of_int (vs ! (nat \<lfloor>pos\<rfloor> - 1)) +
        (pos - real_of_int \<lfloor>pos\<rfloor>) * (real_of_int (vs ! nat \<lfloor>pos\<rfloor>) - real_of_int (vs ! (nat \<lfloor>pos\<rfloor> - 1))))"

lemma getValue_interpolate:
  assumes "0 \<le> q" and "q \<le> 1" and "vs \<noteq> []"
  shows "getValue vs q = Inr (interpolate vs (q * (real (length vs) + 1)))"
  using assms by (simp add: getValue_def interpolate_def Let_def)

lemma between: "0 \<le> f \<Longrightarrow> f \<le> 1 \<Longrightarrow> a \<le> (b :: real) \<Longrightarrow> a \<le> a + f * (b - a) \<and> a + f * (b - a) \<le> b"
  using mult_left_le_one_le [of "b - a" f] by simp

lemma sorted_at:
  assumes "sorted vs" and "i \<le> j" and "j < length vs"
  shows "real_of_int (vs ! i) \<le> real_of_int (vs ! j)"
  using sorted_nth_mono [OF assms] by simp

text \<open>Inside the list a quantile lies between the two values around its position.\<close>

lemma interpolate_inside:
  assumes "sorted vs" and "1 \<le> pos" and "pos < real (length vs)"
  defines "i \<equiv> nat \<lfloor>pos\<rfloor>"
  shows "real_of_int (vs ! (i - 1)) \<le> interpolate vs pos" and "interpolate vs pos \<le> real_of_int (vs ! i)"
    and "1 \<le> i" and "i < length vs"
proof -
  show i: "1 \<le> i" using assms(2) unfolding i_def by linarith
  show l: "i < length vs" using assms(2,3) unfolding i_def by linarith
  have f: "0 \<le> pos - real_of_int \<lfloor>pos\<rfloor>" "pos - real_of_int \<lfloor>pos\<rfloor> \<le> 1" by linarith+
  have "real_of_int (vs ! (i - 1)) \<le> real_of_int (vs ! i)" using sorted_at [OF assms(1) _ l, of "i - 1"] by simp
  from between [OF f this] show "real_of_int (vs ! (i - 1)) \<le> interpolate vs pos" "interpolate vs pos \<le> real_of_int (vs ! i)"
    using assms(2,3) by (simp_all add: interpolate_def i_def)
qed

lemma interpolate_bounds:
  assumes "sorted vs" and "vs \<noteq> []"
  shows "real_of_int (hd vs) \<le> interpolate vs pos \<and> interpolate vs pos \<le> real_of_int (last vs)"
proof -
  have ends: "hd vs = vs ! 0" "last vs = vs ! (length vs - 1)" using assms(2) by (simp_all add: hd_conv_nth last_conv_nth)
  have hl: "real_of_int (vs ! 0) \<le> real_of_int (vs ! (length vs - 1))" using sorted_at [OF assms(1)] assms(2) by simp
  consider "pos < 1" | "real (length vs) \<le> pos" "1 \<le> pos" | "1 \<le> pos" "pos < real (length vs)" by linarith
  then show ?thesis
  proof cases
    case 3
    note i = interpolate_inside [OF assms(1) 3]
    have "real_of_int (vs ! 0) \<le> real_of_int (vs ! (nat \<lfloor>pos\<rfloor> - 1))" by (rule sorted_at [OF assms(1)]) (use i(4) in auto)
    moreover have "real_of_int (vs ! nat \<lfloor>pos\<rfloor>) \<le> real_of_int (vs ! (length vs - 1))" by (rule sorted_at [OF assms(1)]) (use i(4) in auto)
    ultimately show ?thesis using i(1,2) unfolding ends by linarith
  qed (use hl in \<open>simp_all add: interpolate_def ends\<close>)
qed

lemma interpolate_mono:
  assumes "sorted vs" and "vs \<noteq> []" and "p \<le> p'"
  shows "interpolate vs p \<le> interpolate vs p'"
proof -
  consider "p < 1 \<or> real (length vs) \<le> p'" | "1 \<le> p" "p' < real (length vs)" by linarith
  then show ?thesis
  proof cases
    case 1
    then show ?thesis
    proof
      assume "p < 1"
      then show ?thesis using interpolate_bounds [OF assms(1,2), of p'] by (simp add: interpolate_def)
    next
      assume n: "real (length vs) \<le> p'"
      moreover have "1 \<le> real (length vs)" using assms(2) by (cases vs) simp_all
      ultimately show ?thesis using interpolate_bounds [OF assms(1,2), of p] by (simp add: interpolate_def)
    qed
  next
    case 2
    note i = interpolate_inside [OF assms(1) 2(1)]
    note i' = interpolate_inside [OF assms(1) _ 2(2)]
    have lt: "p < real (length vs)" "1 \<le> p'" using 2 assms(3) by linarith+
    show ?thesis
    proof (cases "\<lfloor>p\<rfloor> = \<lfloor>p'\<rfloor>")
      case True
      let ?a = "real_of_int (vs ! (nat \<lfloor>p\<rfloor> - 1))" and ?b = "real_of_int (vs ! nat \<lfloor>p\<rfloor>)"
      have "?a \<le> ?b" using i(1,2) [OF lt(1)] by linarith
      then have "(p - real_of_int \<lfloor>p\<rfloor>) * (?b - ?a) \<le> (p' - real_of_int \<lfloor>p\<rfloor>) * (?b - ?a)"
        using assms(3) by (intro mult_right_mono) simp_all
      then show ?thesis using 2 lt True by (simp add: interpolate_def)
    next
      case False
      then have "\<lfloor>p\<rfloor> < \<lfloor>p'\<rfloor>" using floor_mono [OF assms(3)] by linarith
      then have "nat \<lfloor>p\<rfloor> \<le> nat \<lfloor>p'\<rfloor> - 1" by linarith
      from sorted_at [OF assms(1) this] have "real_of_int (vs ! nat \<lfloor>p\<rfloor>) \<le> real_of_int (vs ! (nat \<lfloor>p'\<rfloor> - 1))"
        using i'(4) [OF lt(2)] by linarith
      then show ?thesis using i(2) [OF lt(1)] i'(1) [OF lt(2)] by linarith
    qed
  qed
qed

text \<open>
  The quantiles of a sample lie between its least and its greatest value and do not decrease: the 75th percentile is at
  least the median, and so on; a quantile outside 0 to 1 is refused.
\<close>

lemma quantiles:
  assumes "xs \<noteq> []"
  shows "0 \<le> q \<and> q \<le> 1 \<Longrightarrow> \<exists>v. getValue (Snapshot xs) q = Inr v \<and>
      real_of_int (getMin (Snapshot xs)) \<le> v \<and> v \<le> real_of_int (getMax (Snapshot xs)) \<and>
      (\<forall>q'. q \<le> q' \<and> q' \<le> 1 \<longrightarrow> (\<exists>v'. getValue (Snapshot xs) q' = Inr v' \<and> v \<le> v'))"
    and "q < 0 \<or> 1 < q \<Longrightarrow> getValue (Snapshot xs) q = Inl invalid_argument"
proof -
  have s: "sorted (sort xs)" "sort xs \<noteq> []" using assms by (simp_all flip: set_empty)
  show "\<exists>v. getValue (Snapshot xs) q = Inr v \<and> real_of_int (getMin (Snapshot xs)) \<le> v \<and> v \<le> real_of_int (getMax (Snapshot xs)) \<and>
      (\<forall>q'. q \<le> q' \<and> q' \<le> 1 \<longrightarrow> (\<exists>v'. getValue (Snapshot xs) q' = Inr v' \<and> v \<le> v'))" if "0 \<le> q \<and> q \<le> 1"
    using that s interpolate_bounds [OF s]
    by (auto simp: Snapshot_def getMin_def getMax_def getValue_interpolate intro!: interpolate_mono mult_right_mono)
qed (auto simp: getValue_def)

section \<open>What a sample keeps\<close>

abbreviation map_ok :: "(real \<times> int) list \<Rightarrow> bool" where
  "map_ok xs \<equiv> sorted_wrt (<) (map fst xs)"

lemma map_put_keys: "fst ` set (map_put k v xs) = insert k (fst ` set xs)"
  by (induction k v xs rule: map_put.induct) auto

lemma map_put_values: "snd ` set (map_put k v xs) \<subseteq> insert v (snd ` set xs)"
  by (induction k v xs rule: map_put.induct) auto

lemma map_put_ok: "map_ok xs \<Longrightarrow> map_ok (map_put k v xs)"
proof (induction k v xs rule: map_put.induct)
  case (2 k v k' v' xs)
  then show ?case using map_put_keys [of k v xs] by (auto simp flip: set_map)
qed simp

lemma map_put_length: "length (map_put k v xs) \<le> length xs + 1"
  by (induction k v xs rule: map_put.induct) auto

lemma map_put_last: "\<forall>x \<in> fst ` set xs. x < k \<Longrightarrow> map_put k v xs = xs @ [(k, v)]"
  by (induction k v xs rule: map_put.induct) auto

lemma foldl_put_scaled:
  assumes "0 < c" and "map_ok (xs @ ys)"
  shows "foldl (\<lambda>new (key, value). map_put (key * c) value new) (map (\<lambda>(k, v). (k * c, v)) xs) ys =
    map (\<lambda>(k, v). (k * c, v)) (xs @ ys)"
  using assms(2)
proof (induction ys arbitrary: xs)
  case (Cons y ys)
  obtain k v where y: "y = (k, v)" by (cases y)
  have "\<forall>x \<in> fst ` set (map (\<lambda>(k, v). (k * c, v)) xs). x < k * c"
    using Cons.prems assms(1) y by (auto simp: sorted_wrt_append mult_strict_right_mono)
  then have "map_put (k * c) v (map (\<lambda>(k, v). (k * c, v)) xs) = map (\<lambda>(k, v). (k * c, v)) (xs @ [y])"
    by (simp add: map_put_last y)
  then show ?case using Cons.IH [of "xs @ [y]"] Cons.prems by (simp add: y)
qed simp

text \<open>Rescaling keeps the values of the sample and their order.\<close>

lemma ed_rescale_values:
  assumes "map_ok (ed_values s)"
  shows "map snd (ed_values (ed_rescale t s)) = map snd (ed_values s)" and "map_ok (ed_values (ed_rescale t s))"
    and "ed_count (ed_rescale t s) = length (ed_values s)"
proof -
  define c where "c = exp (- ed_alpha s * real_of_int ((ed_start_time s - t) div second))"
  have "0 < c" by (simp add: c_def)
  from foldl_put_scaled [OF this, of "[]" "ed_values s"] assms
  have e: "ed_values (ed_rescale t s) = map (\<lambda>(k, v). (k * c, v)) (ed_values s)" by (simp add: ed_rescale_def Let_def c_def)
  show "map snd (ed_values (ed_rescale t s)) = map snd (ed_values s)" by (simp add: e comp_def case_prod_beta)
  have "sorted_wrt (\<lambda>x y. x * c < y * c) (map fst (ed_values s))"
    using assms by (rule sorted_wrt_mono_rel [rotated]) (simp add: \<open>0 < c\<close>)
  then show "map_ok (ed_values (ed_rescale t s))" by (simp add: e sorted_wrt_map case_prod_beta)
  show "ed_count (ed_rescale t s) = length (ed_values s)"
    using e arg_cong [OF e, of length] by (simp add: ed_rescale_def Let_def)
qed

definition ed_ok :: "int set \<Rightarrow> ExpDecaySample \<Rightarrow> bool" where
  "ed_ok seen s \<longleftrightarrow> map_ok (ed_values s) \<and> length (ed_values s) \<le> ed_size s \<and> snd ` set (ed_values s) \<subseteq> seen \<and>
     (ed_count s > 0 \<longrightarrow> ed_values s \<noteq> [])"

lemma ed_rescaleIfNeeded_ok: "ed_ok seen s \<Longrightarrow> ed_ok seen (ed_rescaleIfNeeded now s)"
proof -
  let ?s = "s\<lparr>ed_next_scale_time := now + RESCALE_THRESHOLD, ed_start_time := now\<rparr>"
  assume ok: "ed_ok seen s"
  then have m: "map_ok (ed_values ?s)" by (simp add: ed_ok_def)
  note v = ed_rescale_values [OF m, of "ed_start_time s"]
  have "length (ed_values (ed_rescale (ed_start_time s) ?s)) = length (ed_values s)" using arg_cong [OF v(1), of length] by simp
  moreover have "snd ` set (ed_values (ed_rescale (ed_start_time s) ?s)) = snd ` set (ed_values s)"
    using arg_cong [OF v(1), of set] by simp
  moreover have "ed_reservoir_size (ed_rescale (ed_start_time s) ?s) = ed_reservoir_size s" by (simp add: ed_rescale_def Let_def)
  ultimately show ?thesis using ok v(2,3) by (auto simp: ed_rescaleIfNeeded_def ed_ok_def)
qed

lemma ed_insert_ok:
  assumes "ed_ok seen s" and "0 < ed_reservoir_size s"
  shows "ed_ok (insert v seen) (ed_insert p v s)"
proof (cases "ed_count s + 1 \<le> ed_reservoir_size s")
  case True
  moreover have "map_put p v (ed_values s) \<noteq> []" using map_put_keys [of p v "ed_values s"] by auto
  ultimately show ?thesis using assms(1) map_put_length [of p v "ed_values s"] map_put_values [of p v "ed_values s"]
    by (auto simp: ed_insert_def Let_def ed_ok_def map_put_ok)
next
  case False
  then obtain k w rest where x: "ed_values s = (k, w) # rest"
    using assms by (cases "ed_values s") (auto simp: ed_ok_def)
  have "map_put p v rest \<noteq> []" using map_put_keys [of p v rest] by auto
  then show ?thesis using assms(1) False x map_put_length [of p v rest] map_put_values [of p v rest]
    by (auto simp: ed_insert_def Let_def ed_ok_def map_put_ok)
qed

text \<open>
  A sample that decays holds values it was given, as many as its size allows, however the times and the numbers drawn fall; it never
  looks for the least priority of an empty reservoir.
\<close>

lemma ed_update_ok:
  assumes "ed_ok seen s" and "0 < ed_reservoir_size s"
  shows "ed_ok (insert v seen) (ed_update u v t s)"
proof -
  have "ed_reservoir_size (ed_rescaleIfNeeded t s) = ed_reservoir_size s"
    by (simp add: ed_rescaleIfNeeded_def ed_rescale_def Let_def)
  then show ?thesis using ed_insert_ok [OF ed_rescaleIfNeeded_ok [OF assms(1)]] assms(2) by (simp add: ed_update_def Let_def)
qed

section \<open>Rates\<close>

text \<open>Ticks without events let the average decay; a tick moves it towards the rate of the interval.\<close>

lemma ew_tick_idle:
  assumes "ew_initialized e" and "ew_uncounted e = 0"
  shows "ew_getRate d ((ew_tick ^^ n) e) = (1 - ew_alpha e) ^ n * ew_getRate d e"
proof -
  have "ew_initialized ((ew_tick ^^ n) e) \<and> ew_uncounted ((ew_tick ^^ n) e) = 0 \<and> ew_alpha ((ew_tick ^^ n) e) = ew_alpha e \<and>
      ew_ewma ((ew_tick ^^ n) e) = (1 - ew_alpha e) ^ n * ew_ewma e"
    by (induction n) (use assms in \<open>simp_all add: ew_tick_def Let_def algebra_simps\<close>)
  then show ?thesis by simp
qed

lemma ew_tick_between:
  assumes "0 \<le> ew_alpha e" and "ew_alpha e \<le> 1" and "ew_initialized e \<Longrightarrow> lo \<le> ew_ewma e \<and> ew_ewma e \<le> hi"
    and "lo \<le> real (unat (ew_uncounted e)) / real (ew_interval_nanos e)" and "real (unat (ew_uncounted e)) / real (ew_interval_nanos e) \<le> hi"
  shows "lo \<le> ew_ewma (ew_tick e) \<and> ew_ewma (ew_tick e) \<le> hi"
proof (cases "ew_initialized e")
  case True
  let ?r = "real (unat (ew_uncounted e)) / real (ew_interval_nanos e)"
  have "ew_ewma (ew_tick e) = (1 - ew_alpha e) * ew_ewma e + ew_alpha e * ?r"
    using True by (simp add: ew_tick_def Let_def algebra_simps)
  moreover have "lo \<le> (1 - ew_alpha e) * ew_ewma e + ew_alpha e * ?r"
    using convex_bound_le [of "- ew_ewma e" "- lo" "- ?r" "1 - ew_alpha e" "ew_alpha e"] assms True by simp
  moreover have "(1 - ew_alpha e) * ew_ewma e + ew_alpha e * ?r \<le> hi"
    using convex_bound_le [of "ew_ewma e" hi ?r "1 - ew_alpha e" "ew_alpha e"] assms True by simp
  ultimately show ?thesis by simp
qed (use assms(4,5) in \<open>simp add: ew_tick_def Let_def\<close>)

lemma minutes_alpha_range: "0 < m \<Longrightarrow> 0 < minutes_alpha m \<and> minutes_alpha m < 1"
  by (simp add: minutes_alpha_def)

lemma mt_tick_keeps: "mt_last_tick ((mt_tick ^^ n) m) = mt_last_tick m \<and> mt_count ((mt_tick ^^ n) m) = mt_count m"
  by (induction n) (simp_all add: mt_tick_def)

text \<open>
  The ticks of a meter: with a clock that does not go back there is one for each whole interval since the last tick, and the time left
  over stays for the next.
\<close>

lemma ticks_by_interval:
  assumes "mt_last_tick m \<le> now"
  shows "unat now - unat (mt_last_tick (tickIfNecessary now m)) \<le> unat TICK_INTERVAL"
    and "unat (mt_last_tick (tickIfNecessary now m)) = unat (mt_last_tick m) + required_ticks now m * unat TICK_INTERVAL"
proof -
  let ?a = "now - mt_last_tick m" and ?i = TICK_INTERVAL
  have a: "unat ?a = unat now - unat (mt_last_tick m)" using assms by (rule unat_sub)
  have l: "unat (mt_last_tick m) \<le> unat now" using assms by (simp add: word_le_nat_alt)
  have m: "unat (?a mod ?i) = unat ?a mod unat ?i" and d: "unat (?a div ?i) = unat ?a div unat ?i"
    by (simp_all add: unat_mod unat_div)
  have "unat ?a mod unat ?i \<le> unat now" using a mod_less_eq_dividend [of "unat ?a" "unat ?i"] by linarith
  then have n: "unat (now - ?a mod ?i) = unat now - unat ?a mod unat ?i" using m by (simp add: unat_sub word_le_nat_alt)
  have k: "unat now - unat ?a mod unat ?i = unat (mt_last_tick m) + unat ?a div unat ?i * unat ?i"
    using a l div_mult_mod_eq [of "unat ?a" "unat ?i"] by linarith
  have i: "unat ?a mod unat ?i < unat ?i" by (simp add: TICK_INTERVAL_def)
  show "unat (mt_last_tick (tickIfNecessary now m)) = unat (mt_last_tick m) + required_ticks now m * unat ?i"
    using n k unfolding d [symmetric] by (simp add: tickIfNecessary_def required_ticks_def Let_def mt_tick_keeps)
  show "unat now - unat (mt_last_tick (tickIfNecessary now m)) \<le> unat ?i"
    using n i a l by (auto simp: tickIfNecessary_def Let_def mt_tick_keeps word_less_nat_alt)
qed

text \<open>When the clock goes back by a second, the next event makes more than three thousand million ticks.\<close>

lemma clock_back:
  assumes "unat (mt_last_tick m) = unat now + 1000000000"
  shows "required_ticks now m = 3689348814"
proof -
  have "unat (now - mt_last_tick m) = 2 ^ 64 - 1000000000"
    using assms by (simp add: unat_sub_if_size word_size)
  then show ?thesis by (simp add: required_ticks_def Let_def TICK_INTERVAL_def unat_div word_less_nat_alt)
qed

text \<open>A context counts once: stopping it again changes nothing, and its destructor stops it.\<close>

lemma stopped_once:
  assumes "tc_stop u now n c t = (d, c', t')"
  shows "tc_stop u' now' n' c' t' = (0, c', t')"
  using assms by (auto simp: tc_stop_def Let_def split: if_split_asm)

section \<open>Names\<close>

datatype registry_op = Get MetricType string | Gauge string nat | Remove string

fun registry_step :: "MetricRegistry \<Rightarrow> registry_op \<Rightarrow> MetricRegistry" where
  "registry_step r (Get t name) = snd (getOrAdd t name r)"
| "registry_step r (Gauge name g) = snd (addGauge name g r)"
| "registry_step r (Remove name) = snd (removeMetric name r)"

definition registry_ok :: "MetricRegistry \<Rightarrow> bool" where
  "registry_ok r \<longleftrightarrow>
     (\<forall>name. name \<in> rg_metric_names r \<longleftrightarrow> (\<exists>t. rg_metric_set r t name \<noteq> None)) \<and>
     (\<forall>name t t'. rg_metric_set r t name \<noteq> None \<and> rg_metric_set r t' name \<noteq> None \<longrightarrow> t = t') \<and>
     (\<forall>name t i. rg_metric_set r t name = Some (Built i) \<longrightarrow> i < built_count r) \<and>
     (\<forall>name name' t t' i. rg_metric_set r t name = Some (Built i) \<and> rg_metric_set r t' name' = Some (Built i) \<longrightarrow> name = name')"

lemma eraseFirst_all:
  assumes "\<forall>t t'. ms t name \<noteq> None \<and> ms t' name \<noteq> None \<longrightarrow> t = t'" and "\<forall>t. ms t name \<noteq> None \<longrightarrow> t \<in> set ts"
  shows "eraseFirst name ts ms = (\<lambda>t. (ms t)(name := None))"
  using assms
proof (induction ts)
  case Nil
  then show ?case by (auto simp: fun_eq_iff)
next
  case (Cons t ts)
  show ?case
  proof (cases "ms t name = None")
    case True
    with Cons show ?thesis by (metis eraseFirst.simps(2) set_ConsD)
  next
    case False
    then have "ms t' name = None" if "t' \<noteq> t" for t' using Cons.prems(1) that by blast
    then show ?thesis using False by (auto simp: fun_eq_iff)
  qed
qed

lemma removeMetric_sets:
  assumes "registry_ok r"
  shows "rg_metric_set (snd (removeMetric name r)) = (\<lambda>t. (rg_metric_set r t)(name := None))"
proof (cases "name \<in> rg_metric_names r")
  case True
  have "eraseFirst name [GaugeType, CounterType, HistogramType, MeterType, TimerType] (rg_metric_set r) =
      (\<lambda>t. (rg_metric_set r t)(name := None))"
  proof (rule eraseFirst_all)
    show "\<forall>t t'. rg_metric_set r t name \<noteq> None \<and> rg_metric_set r t' name \<noteq> None \<longrightarrow> t = t'"
      using assms unfolding registry_ok_def by blast
    have "t \<in> set [GaugeType, CounterType, HistogramType, MeterType, TimerType]" for t by (cases t) simp_all
    then show "\<forall>t. rg_metric_set r t name \<noteq> None \<longrightarrow> t \<in> set [GaugeType, CounterType, HistogramType, MeterType, TimerType]" by blast
  qed
  then show ?thesis using True by (simp only: removeMetric_def if_True snd_conv MetricRegistry.select_convs MetricRegistry.update_convs) simp
next
  case False
  then show ?thesis using assms by (auto simp: removeMetric_def registry_ok_def fun_eq_iff)
qed

lemma registry_insert_ok:
  assumes "registry_ok r" and "name \<notin> rg_metric_names r" and "built_count r \<le> b" and "\<And>i. p = Built i \<Longrightarrow> built_count r \<le> i \<and> i < b"
  shows "registry_ok (r\<lparr>rg_metric_set := (rg_metric_set r)(t := (rg_metric_set r t)(name \<mapsto> p)),
    rg_metric_names := insert name (rg_metric_names r), built_count := b\<rparr>)" (is "registry_ok ?r")
proof -
  have none: "rg_metric_set r t' name = None" for t' using assms(1,2) unfolding registry_ok_def by blast
  have set: "rg_metric_set ?r t' n = (if t' = t \<and> n = name then Some p else rg_metric_set r t' n)" for t' n by simp
  have lt: "i < built_count r" if "rg_metric_set r t' n = Some (Built i)" for t' n i
    using that assms(1) unfolding registry_ok_def by blast
  have 1: "n \<in> rg_metric_names ?r \<longleftrightarrow> (\<exists>t'. rg_metric_set ?r t' n \<noteq> None)" for n
    using assms(1) unfolding set registry_ok_def by auto
  have 2: "t1 = t2" if "rg_metric_set ?r t1 n \<noteq> None" "rg_metric_set ?r t2 n \<noteq> None" for n t1 t2
    using that none assms(1) unfolding set registry_ok_def by (metis (full_types))
  have 3: "i < built_count ?r" if "rg_metric_set ?r t' n = Some (Built i)" for t' n i
    using that lt [of t' n i] assms(3) assms(4) [of i] unfolding set by (auto split: if_split_asm)
  have 4: "n = n'" if "rg_metric_set ?r t1 n = Some (Built i)" "rg_metric_set ?r t2 n' = Some (Built i)" for n n' t1 t2 i
  proof (cases "p = Built i")
    case True
    then have "\<not> i < built_count r" using assms(4) by simp
    then show ?thesis using that lt unfolding set by (metis (full_types))
  next
    case False
    then show ?thesis using that assms(1) none unfolding set registry_ok_def by (metis (full_types) option.inject)
  qed
  show ?thesis unfolding registry_ok_def using 1 2 3 4 by blast
qed

lemma registry_step_ok:
  assumes "registry_ok r"
  shows "registry_ok (registry_step r op)"
proof (cases op)
  case (Remove name)
  have "rg_metric_names (snd (removeMetric name r)) = rg_metric_names r - {name}" "built_count (snd (removeMetric name r)) = built_count r"
    by (auto simp: removeMetric_def)
  with assms show ?thesis unfolding Remove registry_step.simps registry_ok_def [of "snd (removeMetric name r)"] removeMetric_sets [OF assms]
    by (auto simp: registry_ok_def)
next
  case (Get t name)
  have b: "registry_ok (r\<lparr>built_count := built_count r + 1\<rparr>)"
    using assms unfolding registry_ok_def by (simp add: less_Suc_eq)
  show ?thesis
  proof (cases "rg_metric_set r t name = None \<and> t \<noteq> GaugeType \<and> name \<notin> rg_metric_names r")
    case True
    then show ?thesis using registry_insert_ok [OF assms, of name "built_count r + 1" "Built (built_count r)" t]
      by (cases r) (simp add: Get getOrAdd_def buildMetric_def addMetric_def Let_def)
  next
    case False
    then show ?thesis using assms b by (auto simp: Get getOrAdd_def buildMetric_def addMetric_def Let_def split: option.split)
  qed
next
  case (Gauge name g)
  have "rg_metric_set r t name = None" if "name \<notin> rg_metric_names r" for t using assms that unfolding registry_ok_def by blast
  then show ?thesis using assms registry_insert_ok [OF assms, of name "built_count r" "Outside g" GaugeType]
    by (cases r) (auto simp: Gauge addGauge_def addMetric_def Let_def)
qed

lemma registry_run_ok: "registry_ok (foldl registry_step new_registry ops)"
proof (induction ops rule: rev_induct)
  case Nil
  show ?case by (simp add: registry_ok_def new_registry_def)
qed (simp add: registry_step_ok)

text \<open>
  A name stands for one metric: until it is removed, asking for it by its type gives the metric made first, and by another type is
  refused, whatever else is registered and removed meanwhile; metrics of different names are different.
\<close>

lemma registry_step_keeps:
  assumes "registry_ok r" and "rg_metric_set r t name = Some p" and "op \<noteq> Remove name"
  shows "rg_metric_set (registry_step r op) t name = Some p"
proof (cases op)
  case (Remove name')
  then show ?thesis using assms(2,3) by (simp add: removeMetric_sets [OF assms(1)])
next
  case (Get t' name')
  then show ?thesis using assms(2)
    by (auto simp: getOrAdd_def buildMetric_def addMetric_def Let_def split: option.split)
next
  case (Gauge name' g)
  then show ?thesis using assms(2) by (auto simp: addGauge_def addMetric_def Let_def)
qed

lemma names_stand_for_metrics:
  assumes "r = foldl registry_step new_registry ops" and "getOrAdd t name r = (Inr p, r1)" and "Remove name \<notin> set ops'"
  shows "fst (getOrAdd t name (foldl registry_step r1 ops')) = Inr p"
    and "t' \<noteq> t \<Longrightarrow> fst (getOrAdd t' name (foldl registry_step r1 ops')) = Inl invalid_argument"
proof -
  have r1: "r1 = registry_step r (Get t name)" using assms(2) by simp
  then have ok: "registry_ok r1" unfolding assms(1) by (simp only: registry_step_ok registry_run_ok)
  have p: "rg_metric_set r1 t name = Some p"
    using assms(2) registry_run_ok [of ops] unfolding assms(1) [symmetric]
    by (auto simp: getOrAdd_def buildMetric_def addMetric_def Let_def split: option.split_asm if_split_asm)
  have k: "registry_ok (foldl registry_step r1 ops') \<and> rg_metric_set (foldl registry_step r1 ops') t name = Some p"
    using assms(3)
  proof (induction ops' rule: rev_induct)
    case (snoc op ops')
    then show ?case using registry_step_ok registry_step_keeps [of _ t name p op] by auto
  qed (use ok p in simp)
  then show "fst (getOrAdd t name (foldl registry_step r1 ops')) = Inr p" by (simp add: getOrAdd_def)
  let ?r = "foldl registry_step r1 ops'"
  have "rg_metric_set ?r t' name = None" if "t' \<noteq> t" using k that unfolding registry_ok_def by (metis option.distinct(1))
  moreover have "name \<in> rg_metric_names ?r" using k unfolding registry_ok_def by (metis option.distinct(1))
  ultimately show "fst (getOrAdd t' name ?r) = Inl invalid_argument" if "t' \<noteq> t"
    using that by (simp add: getOrAdd_def buildMetric_def addMetric_def)
qed

end
