(* ===== verification/Monitoring.thy ===== *)
theory Monitoring
  imports Metrics KvKeys
begin

text \<open>
  Reports of the metrics: the reporters of \<^verbatim>\<open>src/deps/cppmetrics/cppmetrics\<close> with their executor, the monitoring set-up of
  \<^verbatim>\<open>src/src/monitoring\<close>, \<^verbatim>\<open>src/include/monitoring\<close> and \<^verbatim>\<open>src/src/init.cc\<close>, and the texts of \<^verbatim>\<open>src/src/logging.h\<close>.
\<close>

section \<open>The executor of timers\<close>

text \<open>Timers are known by their index; \<open>armed\<close> are those waited for.\<close>

record timer_executor =
  ex_running :: bool
  ex_threads :: nat
  ex_tasks :: "u64 list"
  ex_armed :: "nat list"

abbreviation (input) new_timer_executor :: "nat \<Rightarrow> timer_executor" where
  "new_timer_executor thread_count \<equiv> \<lparr>ex_running = True, ex_threads = thread_count, ex_tasks = [], ex_armed = []\<rparr>"

definition scheduleTimer :: "u64 \<Rightarrow> timer_executor \<Rightarrow> timer_executor" where
  "scheduleTimer interval e = e\<lparr>ex_tasks := ex_tasks e @ [interval], ex_armed := ex_armed e @ [length (ex_tasks e)]\<rparr>"

text \<open>Whether the task is run; the timer waits again after it, also when the task failed.\<close>

definition timerHandler :: "bool \<Rightarrow> nat \<Rightarrow> timer_executor \<Rightarrow> bool \<times> timer_executor" where
  "timerHandler ec timer_index e =
     (if \<not> ex_running e then (False, e)
      else if ec then (False, e)
      else if timer_index \<ge> length (ex_tasks e) then (False, e)
      else (True, e\<lparr>ex_armed := ex_armed e @ [timer_index]\<rparr>))"

text \<open>The threads have ended when it returns, and no handler is called any more.\<close>

definition shutdownNow :: "timer_executor \<Rightarrow> timer_executor" where
  "shutdownNow e = e\<lparr>ex_running := False, ex_threads := 0\<rparr>"

text \<open>A thread takes a timer that has expired; \<open>did\<close> says whether its task was run.\<close>

inductive timer_step :: "timer_executor \<Rightarrow> bool \<Rightarrow> timer_executor \<Rightarrow> bool" where
  expires: "0 < ex_threads e \<Longrightarrow> i \<in> set (ex_armed e) \<Longrightarrow>
    timerHandler False i (e\<lparr>ex_armed := remove1 i (ex_armed e)\<rparr>) = (did, e') \<Longrightarrow> timer_step e did e'"

inductive_cases timer_stepE: "timer_step e did e'"

section \<open>Reporters\<close>

datatype ReportingLevel = Basic | Full

record scheduled_reporter =
  rp_running :: bool
  rp_executor :: timer_executor
  rp_level :: ReportingLevel

definition rp_start :: "u64 \<Rightarrow> 'a scheduled_reporter_scheme \<Rightarrow> 'a scheduled_reporter_scheme" where
  "rp_start period r =
     (if \<not> rp_running r then r\<lparr>rp_running := True, rp_executor := scheduleTimer period (rp_executor r)\<rparr> else r)"

definition rp_stop :: "'a scheduled_reporter_scheme \<Rightarrow> 'a scheduled_reporter_scheme" where
  "rp_stop r = (if rp_running r then r\<lparr>rp_running := False, rp_executor := shutdownNow (rp_executor r)\<rparr> else r)"

text \<open>The task: how long it sleeps after a report, and the delay of the next failure, in seconds.\<close>

definition report_task :: "bool \<Rightarrow> nat \<Rightarrow> nat \<times> nat" where
  "report_task ok reconnectDelaySeconds =
     (if ok then (0, 15) else (reconnectDelaySeconds, min (reconnectDelaySeconds * 2) (30 * 60)))"

section \<open>Lines for Graphite\<close>

datatype metric_t = Counter_t | Gauge_t | Histogram_t

record report_line =
  ln_name :: string
  ln_value :: string
  ln_type :: metric_t

definition prefix_name :: "string \<Rightarrow> string \<Rightarrow> string option \<Rightarrow> string" where
  "prefix_name pre name extra =
     (let result = pre @ ''.'' @ name in case extra of Some x \<Rightarrow> result @ ''.'' @ x | None \<Rightarrow> result)"

abbreviation (input) counter_line :: "string \<Rightarrow> string \<Rightarrow> string \<Rightarrow> string \<Rightarrow> report_line" where
  "counter_line pre name extra value \<equiv> \<lparr>ln_name = prefix_name pre name (Some extra), ln_value = value, ln_type = Counter_t\<rparr>"

abbreviation (input) convertDurationUnit :: "real \<Rightarrow> real" where
  "convertDurationUnit duration \<equiv> duration * (1 / 1000000)"

abbreviation (input) convertRateUnit :: "real \<Rightarrow> real" where
  "convertRateUnit rate \<equiv> rate * (1000 / 1000)"

text \<open>\<open>fmt\<close> is \<^verbatim>\<open>std::to_string\<close> of a double. A quantile that is refused does not occur: the six are constants.\<close>

definition quantile_of :: "int list \<Rightarrow> real \<Rightarrow> real" where
  "quantile_of vals q = (case getValue vals q of Inr v \<Rightarrow> v | Inl _ \<Rightarrow> 0)"

definition reportMeter :: "(real \<Rightarrow> string) \<Rightarrow> string \<Rightarrow> ReportingLevel \<Rightarrow> string \<Rightarrow> u64 \<Rightarrow> real \<times> real \<times> real \<times> real \<Rightarrow> report_line list" where
  "reportMeter fmt pre level name events rates =
     (let (m1, m5, m15, mean) = rates
      in counter_line pre name ''events'' (to_dec (unat events)) #
         (if level = Full
          then [counter_line pre name ''m1_rate'' (fmt (convertRateUnit m1)), counter_line pre name ''m5_rate'' (fmt (convertRateUnit m5)),
                counter_line pre name ''m15_rate'' (fmt (convertRateUnit m15)), counter_line pre name ''mean_rate'' (fmt (convertRateUnit mean))]
          else []))"

definition reportTimer ::
  "(real \<Rightarrow> string) \<Rightarrow> string \<Rightarrow> ReportingLevel \<Rightarrow> string \<Rightarrow> Timer \<Rightarrow> real \<times> real \<times> real \<times> real \<Rightarrow> report_line list" where
  "reportTimer fmt pre level name t rates =
     (let snapshot = ed_getSnapshot (hg_sample (tm_histogram t));
          ms = (\<lambda>extra d. counter_line pre name extra (fmt (convertDurationUnit d)))
      in counter_line pre name ''count'' (to_dec (unat (mt_count (tm_meter t)))) #
         ms ''duration'' (real (unat (tm_duration t))) #
         (if level = Full
          then [ms ''getMax'' (real_of_int (getMax snapshot)), ms ''mean'' (getMean snapshot), ms ''min'' (real_of_int (getMin snapshot)),
                ms ''stddev'' (getStdDev snapshot), ms ''p50'' (quantile_of snapshot (1 / 2)), ms ''p75'' (quantile_of snapshot (3 / 4)),
                ms ''p95'' (quantile_of snapshot (95 / 100)), ms ''p98'' (quantile_of snapshot (98 / 100)),
                ms ''p99'' (quantile_of snapshot (99 / 100)), ms ''p999'' (quantile_of snapshot (999 / 1000))]
          else []) @
         reportMeter fmt pre level name (hg_count (tm_histogram t)) rates)"

definition reportHistogram :: "(real \<Rightarrow> string) \<Rightarrow> string \<Rightarrow> ReportingLevel \<Rightarrow> string \<Rightarrow> Histogram \<Rightarrow> report_line list" where
  "reportHistogram fmt pre level name h =
     (let snapshot = ed_getSnapshot (hg_sample h); real_line = (\<lambda>extra v. counter_line pre name extra (fmt v))
      in [counter_line pre name ''count'' (to_dec (unat (hg_count h))), counter_line pre name ''getMax'' (off_to_string (getMax snapshot)),
          real_line ''mean'' (getMean snapshot), counter_line pre name ''min'' (off_to_string (getMin snapshot))] @
         (if level = Full
          then [real_line ''stddev'' (getStdDev snapshot), real_line ''p50'' (quantile_of snapshot (1 / 2)),
                real_line ''p75'' (quantile_of snapshot (3 / 4)), real_line ''p95'' (quantile_of snapshot (95 / 100)),
                real_line ''p98'' (quantile_of snapshot (98 / 100)), real_line ''p99'' (quantile_of snapshot (99 / 100)),
                real_line ''p999'' (quantile_of snapshot (999 / 1000))]
          else []))"

definition reportCounter :: "string \<Rightarrow> string \<Rightarrow> Counter \<Rightarrow> report_line" where
  "reportCounter pre name c = counter_line pre name ''count'' (off_to_string (ctr_getCount c))"

definition reportGauge :: "string \<Rightarrow> string \<Rightarrow> string \<Rightarrow> report_line" where
  "reportGauge pre name value = \<lparr>ln_name = prefix_name pre name None, ln_value = value, ln_type = Gauge_t\<rparr>"

text \<open>What is sent for a line over TCP, and over UDP.\<close>

definition tcp_text :: "u64 \<Rightarrow> report_line \<Rightarrow> string" where
  "tcp_text timestamp l = ln_name l @ '' '' @ ln_value l @ '' '' @ to_dec (unat timestamp) @ [CHR 10]"

definition udp_text :: "report_line \<Rightarrow> string" where
  "udp_text l =
     ln_name l @ '': '' @ ln_value l @ ''|'' @
     (case ln_type l of Counter_t \<Rightarrow> ''c|@0.1'' | Gauge_t \<Rightarrow> ''g'' | Histogram_t \<Rightarrow> ''h'') @ [CHR 10]"

text \<open>A sender: connecting and writing may fail.\<close>

record 's net_sender =
  snd_connect :: "'s \<Rightarrow> bool \<times> 's"
  snd_write :: "string \<Rightarrow> 's \<Rightarrow> bool \<times> 's"

record 's graphite_sender =
  gs_connected :: bool
  gs_net :: 's

definition gs_connect :: "'s net_sender \<Rightarrow> 's graphite_sender \<Rightarrow> unit fut \<times> 's graphite_sender" where
  "gs_connect lib g =
     (let (ok, net) = snd_connect lib (gs_net g); g1 = \<lparr>gs_connected = ok, gs_net = net\<rparr>
      in (if ok then Inr () else Inl runtime_error, g1))"

definition gs_send :: "'s net_sender \<Rightarrow> string \<Rightarrow> 's graphite_sender \<Rightarrow> unit fut \<times> 's graphite_sender" where
  "gs_send lib txt g =
     (if \<not> gs_connected g then (Inl runtime_error, g)
      else (let (ok, net) = snd_write lib txt (gs_net g) in (if ok then Inr () else Inl (system_error EIO), g\<lparr>gs_net := net\<rparr>)))"

definition gs_close :: "'s graphite_sender \<Rightarrow> 's graphite_sender" where
  "gs_close g = g\<lparr>gs_connected := False\<rparr>"

fun send_all :: "'s net_sender \<Rightarrow> string list \<Rightarrow> 's graphite_sender \<Rightarrow> unit fut \<times> 's graphite_sender" where
  "send_all lib [] g = (Inr (), g)"
| "send_all lib (t # ts) g = (case gs_send lib t g of (Inl e, g1) \<Rightarrow> (Inl e, g1) | (Inr _, g1) \<Rightarrow> send_all lib ts g1)"

definition graphite_report :: "'s net_sender \<Rightarrow> string list \<Rightarrow> 's graphite_sender \<Rightarrow> unit fut \<times> 's graphite_sender" where
  "graphite_report lib texts g =
     (case gs_connect lib g of
        (Inl e, g1) \<Rightarrow> (Inl runtime_error, gs_close g1)
      | (Inr _, g1) \<Rightarrow>
          (case send_all lib texts g1 of
             (Inl e, g2) \<Rightarrow> (Inl runtime_error, gs_close g2)
           | (Inr _, g2) \<Rightarrow> (Inr (), gs_close g2)))"

section \<open>Configuration\<close>

datatype GraphiteProtocol = UDP | TCP

record graphite_endpoint =
  graphiteProtocol :: GraphiteProtocol
  graphiteHostname :: string
  graphitePort :: u32

text \<open>A configuration is one for Graphite when it has an endpoint.\<close>

record MonitoringConfiguration =
  reportingPeriod :: u32
  reportingLevel :: ReportingLevel
  namespacePrefix :: string
  graphite :: "graphite_endpoint option"

definition new_graphite_configuration :: MonitoringConfiguration where
  "new_graphite_configuration =
     \<lparr>reportingPeriod = 30, reportingLevel = Basic, namespacePrefix = [],
      graphite = Some \<lparr>graphiteProtocol = TCP, graphiteHostname = [], graphitePort = 2003\<rparr>\<rparr>"

text \<open>\<open>uri\<close> is \<^verbatim>\<open>folly::Uri\<close>: scheme, host and port, or the exception of a malformed text.\<close>

definition fromGraphiteURL :: "(string \<Rightarrow> (string \<times> string \<times> u32) fut) \<Rightarrow> string \<Rightarrow> graphite_endpoint \<Rightarrow> graphite_endpoint fut" where
  "fromGraphiteURL uri url c =
     (case uri url of
        Inl e \<Rightarrow> Inl e
      | Inr (scheme, host, port) \<Rightarrow>
          (let fill = (\<lambda>p. Inr \<lparr>graphiteProtocol = p, graphiteHostname = host, graphitePort = if port \<noteq> 0 then port else graphitePort c\<rparr>)
           in if scheme = [] \<or> scheme = ''tcp'' then fill TCP else if scheme = ''udp'' then fill UDP else Inl invalid_argument))"

section \<open>The collector\<close>

text \<open>A reporter with what its sender was made for; the sender over UDP takes a port of 16 bits.\<close>

record graphite_reporter = scheduled_reporter +
  gr_protocol :: GraphiteProtocol
  gr_host :: string
  gr_port :: nat
  gr_prefix :: string

record MetricsCollector =
  mc_graphite :: bool
  mc_conf :: "MonitoringConfiguration option"
  mc_reporter :: "graphite_reporter option"

record monitoring =
  mc_singleton :: "MetricsCollector option"
  mc_isEnabled :: bool

abbreviation (input) new_monitoring :: monitoring where
  "new_monitoring \<equiv> \<lparr>mc_singleton = None, mc_isEnabled = False\<rparr>"

definition getInstance :: "bool \<Rightarrow> monitoring \<Rightarrow> MetricsCollector \<times> monitoring" where
  "getInstance for_graphite m =
     (case mc_singleton m of
        Some c \<Rightarrow> (c, m)
      | None \<Rightarrow>
          (let c = \<lparr>mc_graphite = for_graphite, mc_conf = None, mc_reporter = None\<rparr>
           in (c, \<lparr>mc_singleton = Some c, mc_isEnabled = True\<rparr>)))"

definition make_reporter :: "MonitoringConfiguration \<Rightarrow> graphite_endpoint \<Rightarrow> graphite_reporter" where
  "make_reporter conf g =
     \<lparr>rp_running = False, rp_executor = new_timer_executor 2, rp_level = reportingLevel conf, gr_protocol = graphiteProtocol g,
      gr_host = graphiteHostname g,
      gr_port = (if graphiteProtocol g = TCP then unat (graphitePort g) else unat (ucast (graphitePort g) :: 16 word)),
      gr_prefix = namespacePrefix conf\<rparr>"

definition mc_initialize :: "MetricsCollector \<Rightarrow> unit fut \<times> MetricsCollector" where
  "mc_initialize c =
     (if \<not> mc_graphite c then (Inr (), c)
      else (case mc_conf c of
              None \<Rightarrow> (Inl runtime_error, c)
            | Some conf \<Rightarrow>
                (case graphite conf of
                   None \<Rightarrow> (Inl runtime_error, c)
                 | Some g \<Rightarrow> (Inr (), c\<lparr>mc_reporter := Some (make_reporter conf g)\<rparr>))))"

definition setConfiguration :: "MonitoringConfiguration \<Rightarrow> MetricsCollector \<Rightarrow> unit fut \<times> MetricsCollector" where
  "setConfiguration conf c = mc_initialize (c\<lparr>mc_conf := Some conf\<rparr>)"

text \<open>The period is given in seconds; \<open>None\<close> when there is no reporter or no configuration to use.\<close>

definition mc_start :: "MetricsCollector \<Rightarrow> MetricsCollector option" where
  "mc_start c =
     (case (mc_reporter c, mc_conf c) of
        (Some r, Some conf) \<Rightarrow>
          Some (c\<lparr>mc_reporter := Some (rp_start (1000 * ucast (reportingPeriod conf)) r)\<rparr>)
      | _ \<Rightarrow> None)"

definition mc_stop :: "MetricsCollector \<Rightarrow> MetricsCollector option" where
  "mc_stop c = (case mc_reporter c of None \<Rightarrow> None | Some r \<Rightarrow> Some (c\<lparr>mc_reporter := Some (rp_stop r)\<rparr>))"

definition configureMonitoring :: "MonitoringConfiguration \<Rightarrow> bool \<Rightarrow> monitoring \<Rightarrow> (unit fut \<times> monitoring) option" where
  "configureMonitoring conf start m =
     (if graphite conf = None then Some (Inl runtime_error, m)
      else (let (c, m1) = getInstance True m
            in case setConfiguration conf c of
                 (Inl e, c1) \<Rightarrow> Some (Inl e, m1\<lparr>mc_singleton := Some c1\<rparr>)
               | (Inr _, c1) \<Rightarrow>
                   (if start
                    then map_option (\<lambda>c2. (Inr (), m1\<lparr>mc_singleton := Some c2\<rparr>)) (mc_start c1)
                    else Some (Inr (), m1\<lparr>mc_singleton := Some c1\<rparr>))))"

section \<open>Macros\<close>

text \<open>\<open>values\<close> are the counters of the registry.\<close>

record metrics_state =
  ms_registry :: MetricRegistry
  ms_counters :: "metric_ptr \<Rightarrow> Counter"

definition on_counter :: "(Counter \<Rightarrow> Counter) \<Rightarrow> string \<Rightarrow> monitoring \<Rightarrow> metrics_state \<Rightarrow> unit fut \<times> metrics_state" where
  "on_counter f name m s =
     (if mc_isEnabled m
      then (case getOrAdd CounterType name (ms_registry s) of
              (Inl e, r) \<Rightarrow> (Inl e, s\<lparr>ms_registry := r\<rparr>)
            | (Inr p, r) \<Rightarrow> (Inr (), \<lparr>ms_registry = r, ms_counters = (ms_counters s)(p := f (ms_counters s p))\<rparr>))
      else (Inr (), s))"

abbreviation (input) ONE_METRIC_COUNTER_INC :: "string \<Rightarrow> monitoring \<Rightarrow> metrics_state \<Rightarrow> unit fut \<times> metrics_state" where
  "ONE_METRIC_COUNTER_INC name \<equiv> on_counter (ctr_increment 1) name"

abbreviation (input) ONE_METRIC_COUNTER_ADD :: "string \<Rightarrow> u64 \<Rightarrow> monitoring \<Rightarrow> metrics_state \<Rightarrow> unit fut \<times> metrics_state" where
  "ONE_METRIC_COUNTER_ADD name value \<equiv> on_counter (ctr_increment value) name"

abbreviation (input) ONE_METRIC_COUNTER_DEC :: "string \<Rightarrow> monitoring \<Rightarrow> metrics_state \<Rightarrow> unit fut \<times> metrics_state" where
  "ONE_METRIC_COUNTER_DEC name \<equiv> on_counter (ctr_decrement 1) name"

abbreviation (input) ONE_METRIC_COUNTER_SUB :: "string \<Rightarrow> u64 \<Rightarrow> monitoring \<Rightarrow> metrics_state \<Rightarrow> unit fut \<times> metrics_state" where
  "ONE_METRIC_COUNTER_SUB name value \<equiv> on_counter (ctr_decrement value) name"

abbreviation (input) ONE_METRIC_COUNTER_SET :: "string \<Rightarrow> u64 \<Rightarrow> monitoring \<Rightarrow> metrics_state \<Rightarrow> unit fut \<times> metrics_state" where
  "ONE_METRIC_COUNTER_SET name value \<equiv> on_counter (ctr_setCount value) name"

section \<open>Texts for the log\<close>

definition mapToString :: "(string \<times> string) list \<Rightarrow> string" where
  "mapToString kvs =
     (let result = ''{ '' @ concat (map (\<lambda>(k, v). k @ '' => '' @ v @ '', '') kvs)
      in take (length result - 2) result @ '' }'')"

fun join_with :: "string \<Rightarrow> string list \<Rightarrow> string" where
  "join_with sep [] = []"
| "join_with sep [x] = x"
| "join_with sep (x # y # xs) = x @ sep @ join_with sep (y # xs)"

definition containerToErlangBinaryString :: "byte list \<Rightarrow> string" where
  "containerToErlangBinaryString bs = ''<<'' @ join_with '','' (map (\<lambda>b. to_dec (unat b)) bs) @ ''>>''"

section \<open>When reports are made\<close>

text \<open>
  A reporter that was started and not stopped reports again and again: its timer is always waited for, and each time it expires the task
  is run.
\<close>

definition reporting :: "'a scheduled_reporter_scheme \<Rightarrow> bool" where
  "reporting r \<longleftrightarrow> rp_running r \<and> ex_running (rp_executor r) \<and> 0 < ex_threads (rp_executor r) \<and>
     ex_armed (rp_executor r) \<noteq> [] \<and> (\<forall>i \<in> set (ex_armed (rp_executor r)). i < length (ex_tasks (rp_executor r)))"

lemma started_reports:
  assumes "\<not> rp_running r" and "rp_executor r = new_timer_executor 2"
  shows "reporting (rp_start period r)"
  using assms by (simp add: reporting_def rp_start_def scheduleTimer_def)

lemma reporting_goes_on:
  assumes "reporting r"
  shows "\<exists>e. timer_step (rp_executor r) True e"
    and "timer_step (rp_executor r) did e \<Longrightarrow> did \<and> reporting (r\<lparr>rp_executor := e\<rparr>)"
proof -
  obtain i where "i \<in> set (ex_armed (rp_executor r))" using assms last_in_set by (auto simp: reporting_def)
  then show "\<exists>e. timer_step (rp_executor r) True e"
    using assms by (auto simp: reporting_def timerHandler_def intro!: exI timer_step.expires [of _ i])
  show "did \<and> reporting (r\<lparr>rp_executor := e\<rparr>)" if "timer_step (rp_executor r) did e"
    using that assms by (elim timer_stepE) (auto simp: reporting_def timerHandler_def split: if_split_asm dest: set_remove1_subset [THEN subsetD])
qed

text \<open>A reporter that was stopped never reports again, also when it is started anew: the threads of its executor have ended.\<close>

lemma restarted_is_silent:
  assumes "rp_running r"
  shows "\<not> timer_step (rp_executor (rp_start period (rp_stop r))) did e" and "rp_running (rp_start period (rp_stop r))"
  using assms by (auto simp: rp_start_def rp_stop_def shutdownNow_def scheduleTimer_def elim!: timer_stepE)

text \<open>The delay after the \<open>n\<close>-th failure in a row doubles from 15 seconds up to half an hour.\<close>

lemma reconnect_delays: "((\<lambda>d. snd (report_task False d)) ^^ n) 15 = min (15 * 2 ^ n) 1800"
  by (induction n) (auto simp: report_task_def min_def)

lemma gs_send_net: "gs_connected g \<Longrightarrow> gs_connected (snd (gs_send lib t g))"
  by (simp add: gs_send_def case_prod_beta)

text \<open>
  A report closes its connection however it ends, and fails with the same error whatever went wrong. A report that ends well has sent every
  line, in order.
\<close>

lemma report_closes:
  "\<not> gs_connected (snd (graphite_report lib texts g)) \<and> fst (graphite_report lib texts g) \<in> {Inr (), Inl runtime_error}"
  by (simp add: graphite_report_def gs_close_def split: prod.split sum.split)

definition recording :: "string list net_sender" where
  "recording = \<lparr>snd_connect = (\<lambda>s. (True, s)), snd_write = (\<lambda>t s. (True, s @ [t]))\<rparr>"

lemma report_sends_all:
  "graphite_report recording texts \<lparr>gs_connected = False, gs_net = sent\<rparr> = (Inr (), \<lparr>gs_connected = False, gs_net = sent @ texts\<rparr>)"
proof -
  have "send_all recording texts \<lparr>gs_connected = True, gs_net = s\<rparr> = (Inr (), \<lparr>gs_connected = True, gs_net = s @ texts\<rparr>)" for s
    by (induction texts arbitrary: s) (simp_all add: gs_send_def recording_def)
  then show ?thesis by (simp add: graphite_report_def gs_connect_def gs_close_def recording_def [symmetric])
    (simp add: recording_def gs_close_def)
qed

section \<open>Setting up monitoring\<close>

text \<open>
  A configuration for Graphite gives a reporter for its endpoint, running when asked for; every other is refused and changes nothing.
\<close>

lemma configured:
  assumes "graphite conf = Some g"
  shows "\<exists>m c r. configureMonitoring conf start new_monitoring = Some (Inr (), m) \<and> mc_isEnabled m \<and> mc_singleton m = Some c \<and>
    mc_reporter c = Some r \<and> gr_host r = graphiteHostname g \<and> gr_prefix r = namespacePrefix conf \<and> rp_level r = reportingLevel conf \<and>
    (if start then reporting r \<and> ex_tasks (rp_executor r) = [1000 * ucast (reportingPeriod conf)] else \<not> rp_running r)"
  using assms
  by (auto simp: configureMonitoring_def Let_def getInstance_def setConfiguration_def mc_initialize_def make_reporter_def mc_start_def
      reporting_def rp_start_def scheduleTimer_def)

lemma not_configured: "graphite conf = None \<Longrightarrow> configureMonitoring conf start m = Some (Inl runtime_error, m)"
  by (simp add: configureMonitoring_def)

text \<open>A collector that was made without Graphite stays what it is: starting it uses a reporter that is not there.\<close>

lemma wrong_collector:
  assumes "graphite conf = Some g" and "snd (getInstance False new_monitoring) = m"
  shows "configureMonitoring conf True m = None"
  using assms by (auto simp: configureMonitoring_def Let_def getInstance_def setConfiguration_def mc_initialize_def mc_start_def)

text \<open>While monitoring is off the macros do nothing; a counter whose name stands for another metric makes them throw.\<close>

lemma counter_off: "\<not> mc_isEnabled m \<Longrightarrow> ONE_METRIC_COUNTER_ADD name n m s = (Inr (), s)"
  by (simp add: on_counter_def)

lemma counters_count:
  assumes "mc_isEnabled m" and "ms_registry s = foldl registry_step new_registry ops" and "fst (getOrAdd CounterType name (ms_registry s)) = Inr p"
    and "ONE_METRIC_COUNTER_ADD name n m s = (r, s')"
  shows "r = Inr () \<and> ms_counters s' p = ms_counters s p + n \<and> fst (getOrAdd CounterType name (ms_registry s')) = Inr p \<and>
    (\<forall>q. q \<noteq> p \<longrightarrow> ms_counters s' q = ms_counters s q)"
proof -
  obtain r1 where g: "getOrAdd CounterType name (ms_registry s) = (Inr p, r1)" using assms(3) by (metis prod.collapse)
  from names_stand_for_metrics(1) [OF assms(2) this, of "[]"] have "fst (getOrAdd CounterType name r1) = Inr p" by simp
  then show ?thesis using assms(1,4) g by (auto simp: on_counter_def)
qed

section \<open>The log\<close>

text \<open>The entries of a map between braces; a map without entries loses its opening brace.\<close>

lemma mapToString_empty: "mapToString [] = '' }''"
  by (simp add: mapToString_def)

lemma split_join:
  assumes "xs \<noteq> []" and "\<forall>x \<in> set xs. c \<notin> set x"
  shows "split_at c [] (join_with [c] xs) = xs"
  using assms by (induction "[c]" xs rule: join_with.induct) (simp_all add: split_at_plain split_at_append)

text \<open>The bytes can be read back from the text of a binary.\<close>

lemma erlang_binary_roundtrip:
  assumes "bs \<noteq> []"
  shows "map dec_val (split_at (CHR '','') [] (butlast (butlast (drop 2 (containerToErlangBinaryString bs))))) = map unat bs"
proof -
  have "CHR '','' \<notin> set (to_dec n)" for n using to_dec_digits [of "CHR '',''" n] by (auto simp: is_digit_def)
  then have "split_at (CHR '','') [] (join_with '','' (map (\<lambda>b. to_dec (unat b)) bs)) = map (\<lambda>b. to_dec (unat b)) bs"
    using assms by (intro split_join) auto
  then show ?thesis by (simp add: containerToErlangBinaryString_def butlast_append comp_def)
qed

end
