(* ===== verification/Spec2Isabelle.thy ===== *)
theory Spec2Isabelle
  imports KvFiles TypedStream Connections TaskScheduler Creator Monitoring
begin

text \<open>
  Verification of the storage helpers: the C++ library under \<^verbatim>\<open>src/\<close> through which a client reads and writes the files of a space,
  on storages it reaches itself and through a provider.

  \<^bold>\<open>The program.\<close> A client asks \<^verbatim>\<open>StorageHelperCreator\<close> for a helper by name. A helper opens files and offers the operations on paths;
  an open file, a \<^verbatim>\<open>FileHandle\<close>, is read, written and synchronised. There are helpers for POSIX file systems, Ceph (striped files, and RADOS
  objects), S3, Swift, GlusterFS, WebDAV, data hubs, a simulated null device, and the proxy helper, which sends its operations to a provider.
  Object storages keep a file as blocks under keys; \<^verbatim>\<open>KeyValueAdapter\<close> turns operations on files into operations on blocks. Any helper
  may be wrapped in a \<^verbatim>\<open>BufferAgent\<close>, whose handles collect writes and prefetch reads. The proxy helper talks to the provider through
  \<^verbatim>\<open>communication/\<close>: layers that number, order, retry, serialize and match messages, over a pool of connections with a handshake of
  their own. Metrics of all of it are collected and sent to Graphite.

  \<^bold>\<open>How it is modelled.\<close> Classes are records, enumerations are datatypes, each function or method is a definition that takes and returns
  the state it changes. A future is the value it settles with, an exception or a result (\<open>'a fut\<close> of Prelude); \<open>uint64_t\<close> and
  \<open>uint32_t\<close> are words where they may wrap, and numbers elsewhere. Loops are structural recursions over their data; the block loops, the
  retry loops and the loops that may run on are \<open>partial_function (option)\<close>, with theorems that they end, or that they do not. No
  definition uses fuel. Where several threads take part there is a step relation, and the theorems quantify over all of its runs. Doubles are
  real numbers. Third-party libraries, services, the kernel, the clock and random numbers are parameters; what the code relies on is the
  \<open>assumes\<close> of a locale for each, and each locale is interpreted by an in-memory service, which the witnesses run on.

  \<^bold>\<open>The theories.\<close>

  \<^item> \<open>Prelude\<close>: machine types, exceptions, error numbers, decimal texts, splitting, with the lemmas the components share.

  \<^item> \<open>StorageBase\<close> (\<^verbatim>\<open>include/helpers/storageHelper.h\<close>, \<^verbatim>\<open>storageHelper.cc\<close>): retries, flags, parameters, the operations helpers do
  not override, \<open>multiwrite\<close>. A retry returns the first acceptable result within its number of calls; \<open>multiwrite\<close> equals a loop that
  writes each buffer.

  \<^item> \<open>KvKeys\<close>, \<open>KvAdapter\<close>, \<open>KvRefine\<close> (\<^verbatim>\<open>keyValueHelper.h\<close>, \<^verbatim>\<open>keyValueAdapter.cc\<close>): keys, blocks, locks. Keys name one
  block of one file; block loops end and cut a range exactly; on a storage that keeps its laws (locales \<open>object_store\<close>,
  \<open>replacing_store\<close>) the operations refine operations on one sequence of bytes, for any order of the block tasks.

  \<^item> \<open>ObjectStorages\<close>, \<open>MemoryServices\<close>, \<open>KvFiles\<close> (\<^verbatim>\<open>s3Helper.cc\<close>, \<^verbatim>\<open>swiftHelper.cc\<close>, \<^verbatim>\<open>cephRadosHelper.cc\<close>): the three back ends
  over their clients (locales \<open>s3_service\<close>, \<open>swift_service\<close>, \<open>rados_service\<close>), shown to keep the laws of a store, and the resulting
  theorems on files: writes refine, reads after writes, truncation, removal, and what RADOS leaves behind.

  \<^item> \<open>ReadCache\<close>, \<open>Buffering\<close> (\<^verbatim>\<open>buffering/\<close>): prefetching, write buffers, buffered handles, the memory guard. Any run on a buffered
  handle gives results the plain file allows and leaves that file (locale \<open>file_handle\<close>); failed writes are reported by the next
  synchronisation; a failed fetch stays in the cache; the reserved memory stays within its limits.

  \<^item> \<open>FlatOp\<close> (\<^verbatim>\<open>flatOpScheduler.h\<close>), \<open>TaskScheduler\<close> (\<^verbatim>\<open>scheduler.cc\<close>): operations of a handle run one at a time in the order
  scheduled; a task runs at most once, and never after it was cancelled in time.

  \<^item> \<open>NullDevice\<close>, \<open>Posix\<close>, \<open>CephStriper\<close>, \<open>GlusterFS\<close>, \<open>WebDAV\<close>, \<open>DataHub\<close>, \<open>Proxy\<close> with \<open>Messages\<close>: the other helpers, each with
  every operation and every error path. The thread's ids are restored on every path; handles on a kernel, a striper, a volume or a server
  that keeps its promises (locales \<open>posix_file\<close>, \<open>striper_file\<close>, \<open>gluster_file\<close>, \<open>dav_file\<close>, \<open>provider\<close>) are files; the sessions of the
  WebDAV helper are conserved, or lost for good where the code loses them.

  \<^item> \<open>Creator\<close> (\<^verbatim>\<open>storageHelperCreator.cc\<close> and the factories): parameters to helpers, and the operations a buffered helper passes on.

  \<^item> \<open>Protocol\<close>, \<open>Sequencer\<close>, \<open>TypedStream\<close>, \<open>Inbox\<close>, \<open>Layers\<close> (\<^verbatim>\<open>communication/layers/\<close>, \<^verbatim>\<open>communication/streaming/\<close>): messages are
  handed on in order and once, gaps are requested, acknowledgements are bounded, replies reach their callers, through the whole stack.

  \<^item> \<open>Codec\<close>, \<open>Connections\<close> (\<^verbatim>\<open>communication/codec/\<close>, \<^verbatim>\<open>clprotoClientBootstrap.cc\<close>, \<^verbatim>\<open>connectionPool.cc\<close>): packets survive any
  cutting of the stream; a connection is used by one message at a time; connecting ends; what a rejected handshake and failed writes leave.

  \<^item> \<open>Metrics\<close>, \<open>Monitoring\<close> (\<^verbatim>\<open>deps/cppmetrics\<close>, \<^verbatim>\<open>monitoring/\<close>, \<^verbatim>\<open>init.cc\<close>, \<^verbatim>\<open>logging.h\<close>): quantiles lie within the sample and do
  not decrease, samples keep what they were given, meters tick once per interval, names stand for one metric; reports go on until a reporter is
  stopped, and never after.

  \<^bold>\<open>Properties.\<close> The theorems introduced as C1 to C40 are the properties proper; C1 to C9 and C11 are about files on object storages and the
  base of the helpers, apart from C6, which with C10, C16, C17 and C35 is about WebDAV; C12 to C23 about the layers, C24 to C29 about the wire, C30
  to C40 about scheduling, the null device, POSIX and buffering. A property named an error or a liveness property states what the code does
  where it falls short of its purpose.

  \<^bold>\<open>Bounds.\<close> Sizes and offsets are assumed to fit the types of the source where a theorem says so; message numbers are 64-bit words and
  wrap as in the source; the reply to a call is matched within 65536 further calls, since identifiers have 16 bits.

  \<^bold>\<open>Not modelled.\<close> Sockets, TLS and the choice of certificates beyond the CA bundle of connections (calls into OpenSSL and asio only); the
  serialization done by Protocol Buffers and the messages that are only getters over it; the printing of messages and most of logging;
  latencies of the null device, which only delay; the executors, which only hand functions to asio; the reference counts that release idle
  contexts of GlusterFS. Asynchronous completion is modelled where it matters (block tasks, drains, layers, pools, timers); the operations of
  one WebDAV helper or of one buffered handle are taken one at a time. Tests, build scripts, the vendored asio, gtest and gmock, and the parts
  of cppmetrics that the helpers do not use are left out.
\<close>

end
